theory Spec2Isabelle
  imports Main
begin

section \<open>JavaScript values\<close>

text \<open>
  The tool layer (\<^verbatim>\<open>src/index.js\<close>) is untyped JavaScript that walks arbitrary values, so the
  values it handles are modelled by one datatype. An object carries two property lists: its own
  enumerable data properties, in \<^verbatim>\<open>Object.entries\<close> order, and the members that
  \<^verbatim>\<open>Object.entries\<close> does not list (own properties that are not enumerable, inherited
  properties, methods and getters), each with the outcome of reading it. A function value
  carries the outcome of calling it as a method without arguments, which is the only way the
  tool layer ever calls a value (\<^verbatim>\<open>node.toObject()\<close>, and \<^verbatim>\<open>list.map(objectToAst)\<close> on a value
  that is not an array).

  JavaScript can throw any value (\<^verbatim>\<open>throw null\<close> is legal), so a thrown value is a value like any
  other: the outcome of a computation is \<open>Inl\<close> of the value thrown or \<open>Inr\<close> of the value
  returned. Numbers are integers: the code only tests them for falsiness. Recursion depth is
  not bounded in the model (no call-stack overflow). The message texts of the engine's own
  \<^verbatim>\<open>TypeError\<close>s differ between engines; no statement below depends on them.
\<close>

datatype jsval =
    JUndefined
  | JNull
  | JBool bool
  | JNum int
  | JStr string
  | JFunction "jsval + jsval"
  | JArray "jsval list"
  | JObject "(string \<times> jsval) list" "(string \<times> (jsval + jsval)) list"

type_synonym thrown = jsval

text \<open>
  An \<^verbatim>\<open>Error\<close> object with the given message: \<^verbatim>\<open>message\<close> is an own property of the object that
  \<^verbatim>\<open>Object.entries\<close> does not list. The tool layer reads no other member of an error.
\<close>

definition Error :: "string \<Rightarrow> jsval" where
  "Error msg = JObject [] [(''message'', Inr (JStr msg))]"

text \<open>\<^verbatim>\<open>!v\<close> is \<open>\<not> truthy v\<close>.\<close>

fun truthy :: "jsval \<Rightarrow> bool" where
  "truthy JUndefined = False"
| "truthy JNull = False"
| "truthy (JBool b) = b"
| "truthy (JNum n) = (n \<noteq> 0)"
| "truthy (JStr s) = (s \<noteq> [])"
| "truthy (JFunction r) = True"
| "truthy (JArray xs) = True"
| "truthy (JObject ps acc) = True"

text \<open>\<^verbatim>\<open>typeof v === 'object'\<close> (true of \<^verbatim>\<open>null\<close>) and \<^verbatim>\<open>typeof v === 'function'\<close>.\<close>

fun typeof_object :: "jsval \<Rightarrow> bool" where
  "typeof_object JNull = True"
| "typeof_object (JArray xs) = True"
| "typeof_object (JObject ps acc) = True"
| "typeof_object v = False"

fun typeof_function :: "jsval \<Rightarrow> bool" where
  "typeof_function (JFunction r) = True"
| "typeof_function v = False"

text \<open>
  \<^verbatim>\<open>v.k\<close> for the member names the tool layer reads. Reading a member of \<^verbatim>\<open>undefined\<close> or
  \<^verbatim>\<open>null\<close> throws a \<^verbatim>\<open>TypeError\<close>; an own data property shadows any other member; primitives and
  functions have none of the names read here, and neither has an array, except its \<^verbatim>\<open>map\<close>,
  which is not read through \<open>get_prop\<close> (see \<open>map_objectToAst\<close> below).
\<close>

fun get_prop :: "jsval \<Rightarrow> string \<Rightarrow> thrown + jsval" where
  "get_prop JUndefined k = Inl (Error (''Cannot read properties of undefined (reading '' @ k @ '')''))"
| "get_prop JNull k = Inl (Error (''Cannot read properties of null (reading '' @ k @ '')''))"
| "get_prop (JObject ps acc) k =
     (case map_of ps k of
        Some v \<Rightarrow> Inr v
      | None \<Rightarrow> (case map_of acc k of Some r \<Rightarrow> r | None \<Rightarrow> Inr JUndefined))"
| "get_prop v k = Inr JUndefined"

text \<open>
  \<^verbatim>\<open>result[k] = v\<close> on an object that the tool layer has created with \<^verbatim>\<open>{}\<close>: an existing key keeps
  its place, a new key goes last.
\<close>

fun set_prop :: "(string \<times> jsval) list \<Rightarrow> string \<Rightarrow> jsval \<Rightarrow> (string \<times> jsval) list" where
  "set_prop [] k v = [(k, v)]"
| "set_prop ((k', v') # ps) k v = (if k' = k then (k, v) # ps else (k', v') # set_prop ps k v)"

text \<open>The keys \<^verbatim>\<open>Object.entries\<close> gives an array: its indices in decimal.\<close>

fun digit_char :: "nat \<Rightarrow> char" where
  "digit_char n = char_of (48 + n)"

fun show_nat :: "nat \<Rightarrow> string" where
  "show_nat n = (if n < 10 then [digit_char n] else show_nat (n div 10) @ [digit_char (n mod 10)])"

fun indexed :: "nat \<Rightarrow> jsval list \<Rightarrow> (string \<times> jsval) list" where
  "indexed i [] = []"
| "indexed i (x # xs) = (show_nat i, x) # indexed (Suc i) xs"

text \<open>
  Assigning to the key \<^verbatim>\<open>__proto__\<close> creates no own property: it runs the setter of
  \<^verbatim>\<open>Object.prototype\<close>, which makes an object, array or function \<open>v\<close> the prototype of \<open>result\<close> (and
  \<^verbatim>\<open>null\<close> removes the prototype), and ignores any other value. From then on \<open>result\<close> inherits
  what \<open>v\<close> has: \<open>inherited v\<close> lists the own properties of \<open>v\<close> and then its other members, with
  the outcome of reading each (a getter among them is taken to read the same through
  \<open>result\<close>); for an array these are its elements under their indices and its \<^verbatim>\<open>length\<close>. The
  methods of \<^verbatim>\<open>Array.prototype\<close> and \<^verbatim>\<open>Function.prototype\<close> are not represented, on an object that
  inherits them as on arrays and functions themselves. \<^verbatim>\<open>Object.entries\<close> lists a key once, so
  one object receives at most one such assignment.
\<close>

fun inherited :: "jsval \<Rightarrow> (string \<times> (thrown + jsval)) list" where
  "inherited (JObject ps acc) = map (\<lambda>(k, x). (k, Inr x)) ps @ acc"
| "inherited (JArray xs) =
     map (\<lambda>(k, x). (k, Inr x)) (indexed 0 xs) @ [(''length'', Inr (JNum (int (length xs))))]"
| "inherited v = []"

definition assign :: "jsval \<Rightarrow> string \<Rightarrow> jsval \<Rightarrow> jsval" where
  "assign result k v =
     (case result of
        JObject ps acc \<Rightarrow>
          if k = ''__proto__'' then
            (if typeof_object v \<or> typeof_function v then JObject ps (inherited v) else result)
          else JObject (set_prop ps k v) acc
      | _ \<Rightarrow> result)"

text \<open>\<^verbatim>\<open>key.startsWith('_')\<close>.\<close>

definition startsWith_underscore :: "string \<Rightarrow> bool" where
  "startsWith_underscore key = (case key of [] \<Rightarrow> False | c # cs \<Rightarrow> c = CHR ''_'')"

text \<open>Calling a value: a function yields its outcome, anything else is a \<^verbatim>\<open>TypeError\<close>.\<close>

fun call :: "string \<Rightarrow> jsval \<Rightarrow> thrown + jsval" where
  "call name (JFunction r) = r"
| "call name v = Inl (Error (name @ '' is not a function''))"

text \<open>\<^verbatim>\<open>a || b\<close>.\<close>

definition orElse :: "jsval \<Rightarrow> jsval \<Rightarrow> jsval" where
  "orElse v d = (if truthy v then v else d)"

text \<open>Sequencing of computations that may throw: the first exception ends the block.\<close>

definition bindE :: "thrown + 'a \<Rightarrow> ('a \<Rightarrow> thrown + 'b) \<Rightarrow> thrown + 'b" where
  "bindE m f = (case m of Inl e \<Rightarrow> Inl e | Inr x \<Rightarrow> f x)"

lemma bindE_cong [fundef_cong]:
  "m = m' \<Longrightarrow> (\<And>x. m' = Inr x \<Longrightarrow> f x = f' x) \<Longrightarrow> bindE m f = bindE m' f'"
  by (auto simp: bindE_def split: sum.splits)

text \<open>\<^verbatim>\<open>try { body } catch (error) { handler }\<close>.\<close>

definition try_catch :: "thrown + 'a \<Rightarrow> (thrown \<Rightarrow> thrown + 'a) \<Rightarrow> thrown + 'a" where
  "try_catch body handler = (case body of Inl error \<Rightarrow> handler error | Inr r \<Rightarrow> Inr r)"

section \<open>The smiles-js package\<close>

text \<open>
  \<^verbatim>\<open>index.js\<close> imports its engine from the package \<^verbatim>\<open>smiles-js\<close>, which is not part of the
  sources. Its exports are parameters of the model, typed by the contracts of the specification
  (\<open>parse(text) -> AST | ParseError\<close>, \<open>serialize(node) -> string\<close>, \<open>decompile(node) -> string\<close>,
  \<open>isValidRoundTrip(text) -> bool\<close>); \<open>common\<close> is the list of the exports of
  \<^verbatim>\<open>smiles-js/common\<close>. Every statement about the tools holds for every such library.
\<close>

record smiles_js =
  parse :: "string \<Rightarrow> thrown + jsval"
  buildSMILES :: "jsval \<Rightarrow> thrown + string"
  decompile :: "jsval \<Rightarrow> thrown + string"
  isValidRoundTrip :: "string \<Rightarrow> thrown + bool"
  Ring :: "jsval \<Rightarrow> thrown + jsval"
  Linear :: "jsval \<Rightarrow> jsval \<Rightarrow> jsval \<Rightarrow> thrown + jsval"
  FusedRing :: "jsval \<Rightarrow> thrown + jsval"
  Molecule :: "jsval \<Rightarrow> thrown + jsval"
  common :: "(string \<times> jsval) list"

section \<open>index.js: conversions between nodes and plain objects\<close>

text \<open>
  \<^verbatim>\<open>astToObject(node)\<close>. A value that is falsy or not of type object is returned as it is; a node
  with a truthy \<^verbatim>\<open>toObject\<close> member is replaced by the result of calling it; an array is mapped;
  any other object is copied entry by entry into a fresh \<open>result\<close>, skipping keys that start with
  an underscore and values that are functions.
\<close>

fun astToObject :: "jsval \<Rightarrow> thrown + jsval"
  and astToObject_map :: "jsval list \<Rightarrow> thrown + jsval list"
  and astToObject_entries :: "jsval \<Rightarrow> (string \<times> jsval) list \<Rightarrow> thrown + jsval"
where
  "astToObject JUndefined = Inr JUndefined"
| "astToObject JNull = Inr JNull"
| "astToObject (JBool b) = Inr (JBool b)"
| "astToObject (JNum n) = Inr (JNum n)"
| "astToObject (JStr s) = Inr (JStr s)"
| "astToObject (JFunction r) = Inr (JFunction r)"
| "astToObject (JArray xs) =
     (case astToObject_map xs of Inl e \<Rightarrow> Inl e | Inr ys \<Rightarrow> Inr (JArray ys))"
| "astToObject (JObject ps acc) =
     (case get_prop (JObject ps acc) ''toObject'' of
        Inl e \<Rightarrow> Inl e
      | Inr m \<Rightarrow>
          if truthy m then call ''node.toObject'' m
          else astToObject_entries (JObject [] []) ps)"
| "astToObject_map [] = Inr []"
| "astToObject_map (x # xs) =
     (case astToObject x of
        Inl e \<Rightarrow> Inl e
      | Inr y \<Rightarrow> (case astToObject_map xs of Inl e \<Rightarrow> Inl e | Inr ys \<Rightarrow> Inr (y # ys)))"
| "astToObject_entries result [] = Inr result"
| "astToObject_entries result ((key, val) # rest) =
     (if startsWith_underscore key then astToObject_entries result rest
      else if typeof_function val then astToObject_entries result rest
      else (case astToObject val of
              Inl e \<Rightarrow> Inl e
            | Inr v \<Rightarrow> astToObject_entries (assign result key v) rest))"

text \<open>Sizes of the values reached by reading a member, for the termination of the conversion.\<close>

lemma map_of_size_own:
  "map_of ps k = Some v \<Longrightarrow> size v < size_list (size_prod (\<lambda>_. 0) size) ps"
  by (induction ps) (auto split: if_splits)

lemma map_of_size_member:
  "map_of acc k = Some (Inr v) \<Longrightarrow>
   size v < size_list (size_prod (\<lambda>_. 0) (size_sum size size)) acc"
  by (induction acc) (auto split: if_splits)

lemma get_prop_size:
  "get_prop obj k = Inr v \<Longrightarrow> typeof_object obj \<Longrightarrow> truthy obj \<Longrightarrow> size v < size obj"
  by (cases obj) (auto split: option.splits dest: map_of_size_own map_of_size_member)

lemma size_indexed: "size_list (\<lambda>p. size (snd p)) (indexed i xs) = size_list size xs"
  by (induction xs arbitrary: i) auto

lemma size_entries:
  "size_list (\<lambda>p. size (snd p)) ps \<le> size_list (size_prod (\<lambda>_. 0) size) ps"
  by (induction ps) auto

text \<open>
  \<^verbatim>\<open>objectToAst(obj)\<close> and \<^verbatim>\<open>reconstructAttachments(attachments)\<close>, with the two \<^verbatim>\<open>.map(objectToAst)\<close>
  calls: \<open>objectToAst_map\<close> is the map over an array, \<open>map_objectToAst\<close> the method call on any
  value (a value without a \<^verbatim>\<open>map\<close> function throws). The members are read in the order of the
  source. \<^verbatim>\<open>Object.entries\<close> of a non-empty string lists its characters, whose \<^verbatim>\<open>map\<close> is
  undefined; of a number, boolean or function it is empty.
\<close>

function objectToAst :: "smiles_js \<Rightarrow> jsval \<Rightarrow> thrown + jsval"
  and objectToAst_map :: "smiles_js \<Rightarrow> jsval list \<Rightarrow> thrown + jsval list"
  and map_objectToAst :: "smiles_js \<Rightarrow> string \<Rightarrow> jsval \<Rightarrow> thrown + jsval"
  and reconstructAttachments :: "smiles_js \<Rightarrow> jsval \<Rightarrow> thrown + jsval"
  and reconstruct_entries :: "smiles_js \<Rightarrow> jsval \<Rightarrow> (string \<times> jsval) list \<Rightarrow> thrown + jsval"
where
  "objectToAst lib obj =
     (if \<not> truthy obj \<or> \<not> typeof_object obj then Inr obj
      else bindE (get_prop obj ''type'') (\<lambda>type.
        if type = JStr ''ring'' then
          bindE (get_prop obj ''atoms'') (\<lambda>atoms.
          bindE (get_prop obj ''size'') (\<lambda>size.
          bindE (get_prop obj ''ringNumber'') (\<lambda>ringNumber.
          bindE (get_prop obj ''offset'') (\<lambda>offset.
          bindE (get_prop obj ''substitutions'') (\<lambda>substitutions.
          bindE (get_prop obj ''attachments'') (\<lambda>attachments.
          bindE (reconstructAttachments lib attachments) (\<lambda>attachments'.
          bindE (get_prop obj ''bonds'') (\<lambda>bonds.
            Ring lib (JObject
              [(''atoms'', atoms),
               (''size'', size),
               (''ringNumber'', orElse ringNumber (JNum 1)),
               (''offset'', orElse offset (JNum 0)),
               (''substitutions'', orElse substitutions (JObject [] [])),
               (''attachments'', attachments'),
               (''bonds'', orElse bonds (JArray []))] [])))))))))
        else if type = JStr ''linear'' then
          bindE (get_prop obj ''atoms'') (\<lambda>atoms.
          bindE (get_prop obj ''bonds'') (\<lambda>bonds.
          bindE (get_prop obj ''attachments'') (\<lambda>attachments.
          bindE (reconstructAttachments lib attachments) (\<lambda>attachments'.
            Linear lib (orElse atoms (JArray [])) (orElse bonds (JArray [])) attachments'))))
        else if type = JStr ''fused_ring'' then
          bindE (get_prop obj ''rings'') (\<lambda>rings.
          bindE (if truthy rings then map_objectToAst lib ''(obj.rings || []).map'' rings
                 else Inr (JArray []))
            (\<lambda>rings'. FusedRing lib rings'))
        else if type = JStr ''molecule'' then
          bindE (get_prop obj ''components'') (\<lambda>components.
          bindE (if truthy components then map_objectToAst lib ''(obj.components || []).map'' components
                 else Inr (JArray []))
            (\<lambda>components'. Molecule lib components'))
        else Inr obj))"
| "objectToAst_map lib [] = Inr []"
| "objectToAst_map lib (x # xs) =
     bindE (objectToAst lib x) (\<lambda>y. bindE (objectToAst_map lib xs) (\<lambda>ys. Inr (y # ys)))"
| "map_objectToAst lib name (JArray xs) = bindE (objectToAst_map lib xs) (\<lambda>ys. Inr (JArray ys))"
| "map_objectToAst lib name JUndefined = bindE (get_prop JUndefined ''map'') (call name)"
| "map_objectToAst lib name JNull = bindE (get_prop JNull ''map'') (call name)"
| "map_objectToAst lib name (JBool b) = bindE (get_prop (JBool b) ''map'') (call name)"
| "map_objectToAst lib name (JNum n) = bindE (get_prop (JNum n) ''map'') (call name)"
| "map_objectToAst lib name (JStr s) = bindE (get_prop (JStr s) ''map'') (call name)"
| "map_objectToAst lib name (JFunction r) = bindE (get_prop (JFunction r) ''map'') (call name)"
| "map_objectToAst lib name (JObject ps acc) = bindE (get_prop (JObject ps acc) ''map'') (call name)"
| "reconstructAttachments lib JUndefined = Inr (JObject [] [])"
| "reconstructAttachments lib JNull = Inr (JObject [] [])"
| "reconstructAttachments lib (JBool b) = Inr (JObject [] [])"
| "reconstructAttachments lib (JNum n) = Inr (JObject [] [])"
| "reconstructAttachments lib (JStr s) =
     (if s = [] then Inr (JObject [] []) else Inl (Error ''list.map is not a function''))"
| "reconstructAttachments lib (JFunction r) = Inr (JObject [] [])"
| "reconstructAttachments lib (JArray xs) = reconstruct_entries lib (JObject [] []) (indexed 0 xs)"
| "reconstructAttachments lib (JObject ps acc) = reconstruct_entries lib (JObject [] []) ps"
| "reconstruct_entries lib result [] = Inr result"
| "reconstruct_entries lib result ((pos, list) # rest) =
     bindE (map_objectToAst lib ''list.map'' list)
       (\<lambda>v. reconstruct_entries lib (assign result pos v) rest)"
  by pat_completeness auto

termination
proof (relation "measure (\<lambda>x. case x of
    Inl (Inl (lib, obj)) \<Rightarrow> 2 * size obj + 1
  | Inl (Inr (lib, xs)) \<Rightarrow> 2 * size_list size xs
  | Inr (Inl (lib, name, v)) \<Rightarrow> 2 * size v + 1
  | Inr (Inr (Inl (lib, att))) \<Rightarrow> 2 * size att + 1
  | Inr (Inr (Inr (lib, result, es))) \<Rightarrow> 2 * size_list (\<lambda>p. size (snd p)) es)", goal_cases)
  case 1
  show ?case by simp
next
  case (2 lib obj x xa xb xc xd xe xf)
  then show ?case using get_prop_size [of obj "''attachments''" xf] by simp
next
  case (3 lib obj x xa xb xc)
  then show ?case using get_prop_size [of obj "''attachments''" xc] by simp
next
  case (4 lib obj x xa)
  then show ?case using get_prop_size [of obj "''rings''" xa] by simp
next
  case (5 lib obj x xa)
  then show ?case using get_prop_size [of obj "''components''" xa] by simp
next
  case (9 lib xs)
  show ?case by (simp add: size_indexed)
next
  case (10 lib ps acc)
  show ?case using size_entries [of ps] by simp
qed simp_all

section \<open>index.js: the five tools\<close>

text \<open>
  Each tool takes an input record (\<^verbatim>\<open>{ smiles }\<close> or \<^verbatim>\<open>{ ast }\<close>) and returns a result object.
  The result type keeps the exceptional outcome \<open>Inl\<close>, so that "the tool does not throw" is a
  statement about the model and not a consequence of its types. For each tool, \<open>_try\<close> is the
  body of its \<^verbatim>\<open>try\<close> block. The four \<^verbatim>\<open>catch\<close> blocks are the same: \<open>failure error\<close> reads
  \<^verbatim>\<open>error.message\<close> of whatever was thrown, which itself throws when \<open>error\<close> is \<^verbatim>\<open>null\<close> or
  \<^verbatim>\<open>undefined\<close> or when \<^verbatim>\<open>message\<close> is a getter that throws, and is \<^verbatim>\<open>undefined\<close> when the thrown
  value has no such member.
\<close>

record smiles_input =
  smiles :: string

record ast_input =
  ast :: jsval

definition failure :: "thrown \<Rightarrow> thrown + jsval" where
  "failure error =
     bindE (get_prop error ''message'') (\<lambda>message.
       Inr (JObject [(''success'', JBool False), (''error'', message)] []))"

definition parse_smiles_try :: "smiles_js \<Rightarrow> smiles_input \<Rightarrow> thrown + jsval" where
  "parse_smiles_try lib input =
     bindE (parse lib (smiles input)) (\<lambda>ast.
     bindE (astToObject ast) (\<lambda>astObject.
       Inr (JObject
         [(''success'', JBool True),
          (''smiles'', JStr (smiles input)),
          (''ast'', astObject)] [])))"

definition parse_smiles :: "smiles_js \<Rightarrow> smiles_input \<Rightarrow> thrown + jsval" where
  "parse_smiles lib input =
     try_catch (parse_smiles_try lib input) failure"

definition build_smiles_try :: "smiles_js \<Rightarrow> ast_input \<Rightarrow> thrown + jsval" where
  "build_smiles_try lib input =
     bindE (objectToAst lib (ast input)) (\<lambda>node.
     bindE (buildSMILES lib node) (\<lambda>smiles.
       Inr (JObject
         [(''success'', JBool True),
          (''smiles'', JStr smiles)] [])))"

definition build_smiles :: "smiles_js \<Rightarrow> ast_input \<Rightarrow> thrown + jsval" where
  "build_smiles lib input =
     try_catch (build_smiles_try lib input) failure"

definition decompile_smiles_try :: "smiles_js \<Rightarrow> smiles_input \<Rightarrow> thrown + jsval" where
  "decompile_smiles_try lib input =
     bindE (parse lib (smiles input)) (\<lambda>ast.
     bindE (decompile lib ast) (\<lambda>code.
       Inr (JObject
         [(''success'', JBool True),
          (''smiles'', JStr (smiles input)),
          (''code'', JStr code)] [])))"

definition decompile_smiles :: "smiles_js \<Rightarrow> smiles_input \<Rightarrow> thrown + jsval" where
  "decompile_smiles lib input =
     try_catch (decompile_smiles_try lib input) failure"

text \<open>The template literal of the mismatch message; \<open>CHR 0x22\<close> is the double quote.\<close>

definition mismatch_message :: "string \<Rightarrow> string \<Rightarrow> string" where
  "mismatch_message original regenerated =
     ''Round-trip mismatch: expected '' @ [CHR 0x22] @ original @ [CHR 0x22] @
     '', got '' @ [CHR 0x22] @ regenerated @ [CHR 0x22]"

definition validate_roundtrip_try :: "smiles_js \<Rightarrow> smiles_input \<Rightarrow> thrown + jsval" where
  "validate_roundtrip_try lib input =
     bindE (isValidRoundTrip lib (smiles input)) (\<lambda>isValid.
       if isValid then
         Inr (JObject
           [(''success'', JBool True),
            (''smiles'', JStr (smiles input)),
            (''valid'', JBool True),
            (''message'', JStr ''SMILES round-trip validation passed'')] [])
       else
         bindE (parse lib (smiles input)) (\<lambda>ast.
         bindE (buildSMILES lib ast) (\<lambda>regenerated.
           Inr (JObject
             [(''success'', JBool True),
              (''smiles'', JStr (smiles input)),
              (''valid'', JBool False),
              (''regenerated'', JStr regenerated),
              (''message'', JStr (mismatch_message (smiles input) regenerated))] []))))"

definition validate_roundtrip :: "smiles_js \<Rightarrow> smiles_input \<Rightarrow> thrown + jsval" where
  "validate_roundtrip lib input =
     try_catch (validate_roundtrip_try lib input) failure"

text \<open>
  The body of the loop of \<^verbatim>\<open>get_common_fragments\<close> over \<^verbatim>\<open>Object.entries(common)\<close>, a \<^verbatim>\<open>try\<close>
  with an empty \<^verbatim>\<open>catch\<close>: \<open>fragments\<close> stays as it was when \<open>fragment\<close> is not an object, when
  its \<^verbatim>\<open>smiles\<close> is \<^verbatim>\<open>undefined\<close>, and when reading \<^verbatim>\<open>fragment.smiles\<close> or \<^verbatim>\<open>fragment.type\<close> throws.
  The function has no outer \<^verbatim>\<open>try\<close> and always returns the success object.
\<close>

definition keep_fragment :: "jsval \<Rightarrow> string \<Rightarrow> jsval \<Rightarrow> jsval" where
  "keep_fragment fragments name fragment =
     (case
        (if truthy fragment \<and> typeof_object fragment then
           bindE (get_prop fragment ''smiles'') (\<lambda>s.
             if s \<noteq> JUndefined then
               bindE (get_prop fragment ''smiles'') (\<lambda>smiles.
               bindE (get_prop fragment ''type'') (\<lambda>type.
                 Inr (assign fragments name (JObject [(''smiles'', smiles), (''type'', type)] []))))
             else Inr fragments)
         else Inr fragments)
      of Inl e \<Rightarrow> fragments | Inr fragments' \<Rightarrow> fragments')"

fun extract_fragments :: "jsval \<Rightarrow> (string \<times> jsval) list \<Rightarrow> jsval" where
  "extract_fragments fragments [] = fragments"
| "extract_fragments fragments ((name, fragment) # rest) =
     extract_fragments (keep_fragment fragments name fragment) rest"

definition get_common_fragments :: "smiles_js \<Rightarrow> thrown + jsval" where
  "get_common_fragments lib =
     Inr (JObject
       [(''success'', JBool True),
        (''fragments'', extract_fragments (JObject [] []) (common lib)),
        (''categories'', JObject
          [(''alkyl'', JArray (map JStr
              [''methyl'', ''ethyl'', ''propyl'', ''isopropyl'', ''butyl'', ''tertButyl''])),
           (''functional'', JArray (map JStr
              [''hydroxyl'', ''amino'', ''carboxyl'', ''carbonyl'', ''ester'', ''ether'',
               ''aldehyde'', ''ketone''])),
           (''aromatic'', JArray (map JStr [''phenyl'', ''benzyl''])),
           (''rings'', JArray (map JStr
              [''benzene'', ''cyclohexane'', ''cyclopentane'', ''pyridine'', ''furan'', ''pyrrole'',
               ''imidazole''])),
           (''halides'', JArray (map JStr [''fluoro'', ''chloro'', ''bromo'', ''iodo''])),
           (''other'', JArray (map JStr
              [''nitro'', ''cyano'', ''sulfhydryl'', ''sulfonyl'', ''phosphate'']))] [])] [])"

section \<open>Vocabulary of the properties\<close>

text \<open>
  A structured result is an object whose first property is \<open>success: true\<close>, or exactly the
  failure object \<open>{success: false, error: <string>}\<close>.
\<close>

definition structured :: "jsval \<Rightarrow> bool" where
  "structured v =
     (case v of
        JObject ps acc \<Rightarrow>
          acc = [] \<and>
          (case ps of
             (k, JBool True) # rest \<Rightarrow> k = ''success''
           | [(k, JBool False), (k', JStr m)] \<Rightarrow> k = ''success'' \<and> k' = ''error''
           | _ \<Rightarrow> False)
      | _ \<Rightarrow> False)"

text \<open>A thrown value whose \<^verbatim>\<open>message\<close> can be read and is a string, as that of an \<^verbatim>\<open>Error\<close> is.\<close>

definition carries_message :: "thrown \<Rightarrow> bool" where
  "carries_message e = (case get_prop e ''message'' of Inr (JStr m) \<Rightarrow> True | _ \<Rightarrow> False)"

definition returns_structured :: "thrown + jsval \<Rightarrow> bool" where
  "returns_structured r = (case r of Inl e \<Rightarrow> False | Inr v \<Rightarrow> structured v)"

text \<open>
  Plain data at every depth: no function value, no key that starts with an underscore, no
  member outside the own data properties.
\<close>

fun sanitized :: "jsval \<Rightarrow> bool"
  and sanitized_list :: "jsval list \<Rightarrow> bool"
  and sanitized_props :: "(string \<times> jsval) list \<Rightarrow> bool"
where
  "sanitized (JFunction r) = False"
| "sanitized (JArray xs) = sanitized_list xs"
| "sanitized (JObject ps acc) = (acc = [] \<and> sanitized_props ps)"
| "sanitized v = True"
| "sanitized_list [] = True"
| "sanitized_list (x # xs) = (sanitized x \<and> sanitized_list xs)"
| "sanitized_props [] = True"
| "sanitized_props ((key, val) # ps) =
     (\<not> startsWith_underscore key \<and> sanitized val \<and> sanitized_props ps)"

text \<open>
  The values on which \<open>astToObject\<close> does the copying itself: no object that it visits has a
  truthy \<^verbatim>\<open>toObject\<close> member, and no function is met outside a property value (where it is
  skipped), that is, as the value itself or as an array element.
\<close>

fun plain_tree :: "jsval \<Rightarrow> bool"
  and plain_list :: "jsval list \<Rightarrow> bool"
  and plain_props :: "(string \<times> jsval) list \<Rightarrow> bool"
where
  "plain_tree (JFunction r) = False"
| "plain_tree (JArray xs) = plain_list xs"
| "plain_tree (JObject ps acc) =
     ((case get_prop (JObject ps acc) ''toObject'' of Inl e \<Rightarrow> False | Inr m \<Rightarrow> \<not> truthy m)
      \<and> plain_props ps)"
| "plain_tree v = True"
| "plain_list [] = True"
| "plain_list (x # xs) = (plain_tree x \<and> plain_list xs)"
| "plain_props [] = True"
| "plain_props ((key, val) # ps) =
     ((startsWith_underscore key \<or> typeof_function val \<or> plain_tree val) \<and> plain_props ps)"

text \<open>
  The own enumerable properties of an object, and the \<open>categories\<close> and \<open>fragments\<close> objects of
  a result.
\<close>

definition own_properties :: "jsval \<Rightarrow> (string \<times> jsval) list" where
  "own_properties v = (case v of JObject ps acc \<Rightarrow> ps | _ \<Rightarrow> [])"

definition categories_of :: "thrown + jsval \<Rightarrow> (string \<times> jsval) list" where
  "categories_of r =
     (case bindE r (\<lambda>v. get_prop v ''categories'') of
        Inr (JObject ps acc) \<Rightarrow> ps
      | _ \<Rightarrow> [])"

definition category_names :: "thrown + jsval \<Rightarrow> string \<Rightarrow> jsval list" where
  "category_names r c = (case map_of (categories_of r) c of Some (JArray names) \<Rightarrow> names | _ \<Rightarrow> [])"

definition fragments_of :: "thrown + jsval \<Rightarrow> (string \<times> jsval) list" where
  "fragments_of r =
     (case bindE r (\<lambda>v. get_prop v ''fragments'') of
        Inr (JObject ps acc) \<Rightarrow> ps
      | _ \<Rightarrow> [])"

text \<open>\<^verbatim>\<open>s.includes(sub)\<close>, the test behind \<^verbatim>\<open>toContain\<close> on a string.\<close>

fun contains :: "string \<Rightarrow> string \<Rightarrow> bool" where
  "contains [] sub = (sub = [])"
| "contains (c # cs) sub = (take (length sub) (c # cs) = sub \<or> contains cs sub)"

section \<open>A stand-in library for concrete inputs\<close>

text \<open>
  The statements about the tools quantify over the library. To instantiate them at concrete
  inputs, \<open>fixture p\<close> is a small library around a given \<open>parse\<close> function \<open>p\<close>: a node is an
  object with a \<^verbatim>\<open>smiles\<close> getter, a \<^verbatim>\<open>type\<close> getter and a \<^verbatim>\<open>toObject\<close> method; serializing
  reads the getter; the constructors wrap their argument. Among the common fragments, \<open>broken\<close>
  is a fragment whose \<^verbatim>\<open>smiles\<close> getter throws and \<open>default\<close> is a function.
\<close>

definition fixture_node :: "string \<Rightarrow> jsval \<Rightarrow> jsval" where
  "fixture_node text record =
     JObject []
       [(''smiles'', Inr (JStr text)),
        (''type'', get_prop record ''type''),
        (''toObject'', Inr (JFunction (Inr record)))]"

definition fixture_text :: "jsval \<Rightarrow> thrown + string" where
  "fixture_text node =
     bindE (get_prop node ''smiles'')
       (\<lambda>v. case v of JStr text \<Rightarrow> Inr text | _ \<Rightarrow> Inl (Error ''not a node''))"

definition fixture :: "(string \<Rightarrow> thrown + jsval) \<Rightarrow> smiles_js" where
  "fixture p =
     \<lparr>parse = p,
      buildSMILES = fixture_text,
      decompile = (\<lambda>node. bindE (fixture_text node) (\<lambda>text. Inr (''parse('' @ text @ '')''))),
      isValidRoundTrip = (\<lambda>text.
        case p text of
          Inl e \<Rightarrow> Inr False
        | Inr node \<Rightarrow> bindE (fixture_text node) (\<lambda>regenerated. Inr (regenerated = text))),
      Ring = (\<lambda>options. Inr (fixture_node ''ring'' options)),
      Linear = (\<lambda>atoms bonds attachments. Inr (fixture_node ''linear'' (JArray [atoms, bonds, attachments]))),
      FusedRing = (\<lambda>rings. Inr (fixture_node ''fused'' rings)),
      Molecule = (\<lambda>components. Inr (fixture_node ''molecule'' components)),
      common =
        [(''benzene'', fixture_node ''c1ccccc1'' (JObject [(''type'', JStr ''ring'')] [])),
         (''broken'', JObject [] [(''smiles'', Inl (Error ''cannot serialize''))]),
         (''default'', JFunction (Inr JUndefined)),
         (''methyl'', fixture_node ''C'' (JObject [(''type'', JStr ''linear'')] []))]\<rparr>"

definition ethane :: jsval where
  "ethane =
     JObject
       [(''type'', JStr ''linear''),
        (''atoms'', JArray [JStr ''C'', JStr ''C'']),
        (''bonds'', JArray [JNull]),
        (''attachments'', JObject [] [])] []"

definition fixture_parse :: "string \<Rightarrow> thrown + jsval" where
  "fixture_parse text =
     (if text = ''CC'' \<or> text = ''C-C'' then Inr (fixture_node ''CC'' ethane)
      else Inl (Error (''Unclosed ring in '' @ text)))"

text \<open>The benzene record of the tests with ring number 0 and no offset.\<close>

definition benzene_unnumbered :: jsval where
  "benzene_unnumbered =
     JObject
       [(''type'', JStr ''ring''),
        (''atoms'', JStr ''c''),
        (''size'', JNum 6),
        (''ringNumber'', JNum 0),
        (''substitutions'', JObject [] []),
        (''attachments'', JObject [] []),
        (''bonds'', JArray [])] []"

text \<open>
  Three parse functions for \<open>fixture\<close>: \<open>cached_parse\<close> returns nodes whose \<^verbatim>\<open>toObject\<close> method
  reports an internal \<^verbatim>\<open>_cache\<close> member; \<open>bare_parse\<close> returns nodes without a \<^verbatim>\<open>toObject\<close>
  method, with an internal member and a method among their own properties; \<open>null_parse\<close>
  rejects every text with \<^verbatim>\<open>throw null\<close>. \<open>null_library\<close> is a library whose every operation
  does so.
\<close>

definition null_parse :: "string \<Rightarrow> thrown + jsval" where
  "null_parse text = Inl JNull"

definition null_library :: smiles_js where
  "null_library =
     (fixture null_parse)\<lparr>buildSMILES := (\<lambda>node. Inl JNull), isValidRoundTrip := (\<lambda>text. Inl JNull)\<rparr>"

text \<open>
  A fragment table whose \<open>benzene\<close> has the \<^verbatim>\<open>smiles\<close> of benzene and a \<^verbatim>\<open>type\<close> getter that
  throws.
\<close>

definition untyped_benzene :: jsval where
  "untyped_benzene =
     JObject [] [(''smiles'', Inr (JStr ''c1ccccc1'')), (''type'', Inl (Error ''no type''))]"

definition untyped_library :: smiles_js where
  "untyped_library = (fixture fixture_parse)\<lparr>common := [(''benzene'', untyped_benzene)]\<rparr>"

definition cached_parse :: "string \<Rightarrow> thrown + jsval" where
  "cached_parse text =
     Inr (fixture_node text (JObject [(''type'', JStr ''linear''), (''_cache'', JStr text)] []))"

definition bare_parse :: "string \<Rightarrow> thrown + jsval" where
  "bare_parse text =
     Inr (JObject
       [(''type'', JStr ''linear''),
        (''_cache'', JStr text),
        (''atoms'', JArray [JStr ''C'', JObject [(''_id'', JNum 1), (''symbol'', JStr ''C'')] []]),
        (''attach'', JFunction (Inr JUndefined))] [])"

section \<open>The engine, modelled from the specification\<close>

text \<open>
  Modelled from the spec: \<open>isValidRoundTrip\<close> of smiles-js (section 4.5), which is not in the
  sources. \<open>isValidRoundTrip(text)\<close> is \<open>parse(text)\<close> succeeding and
  \<open>serialize(parse(text)) == text\<close> exactly; on parse failure the result is \<open>false\<close>, not an error.
\<close>

definition isValidRoundTrip_spec :: "smiles_js \<Rightarrow> string \<Rightarrow> thrown + bool" where
  "isValidRoundTrip_spec lib text =
     (case parse lib text of
        Inl e \<Rightarrow> Inr False
      | Inr node \<Rightarrow> bindE (buildSMILES lib node) (\<lambda>regenerated. Inr (regenerated = text)))"

text \<open>
  Modelled from the spec: the bond kinds of section 3, \<open>{default, single, double, triple,
  aromatic}\<close>.
\<close>

datatype bond = DefaultBond | SingleBond | DoubleBond | TripleBond | AromaticBond

text \<open>
  Modelled from the spec: the four node variants of section 3. \<open>LinearNode atoms bonds
  attachments\<close>; \<open>RingNode atoms size ringNumber offset substitutions attachments bonds\<close>;
  \<open>FusedRingNode rings\<close>; \<open>MoleculeNode components\<close>. A position-keyed mapping is an association
  list in ascending insertion order.
\<close>

datatype node =
    LinearNode "string list" "bond list" "(nat \<times> node list) list"
  | RingNode string nat nat nat "(nat \<times> string) list" "(nat \<times> node list) list" "bond list"
  | FusedRingNode "node list"
  | MoleculeNode "node list"

text \<open>
  Modelled from the spec: the parser's error kinds (sections 4.1 and 7), each with the
  offending position where the specification gives one. \<open>Undetermined\<close> is not an error of the
  specification: it marks the inputs for which sections 3 and 4.1 do not fix the result (a
  ring closed across a branch boundary, overlapping rings and their conversion into a fused
  ring, a ring whose atoms differ so that the base atom is a choice, a non-default bond into
  the first atom of a component or of a branch, which the data model cannot store, the empty
  input, an empty branch). The model stops there instead of choosing.
\<close>

datatype parse_error =
    UnclosedRing char
  | InvalidAtom nat string
  | InvalidBond nat string
  | MismatchedParen nat
  | DepthExceeded nat
  | Undetermined nat

text \<open>
  Modelled from the spec: the parser state of section 4.1 at one branch depth: the components
  completed so far, the \<open>Linear\<close> accumulator under construction (atoms, bonds, attachments),
  the open ring-closure map from digit to atom index and pending bond, and the bond symbol
  read and not yet used. The branch stack is a list of such states.
\<close>

record level =
  components :: "node list"
  chain_atoms :: "string list"
  chain_bonds :: "bond list"
  chain_attachments :: "(nat \<times> node list) list"
  open_rings :: "(char \<times> nat \<times> bond) list"
  pending_bond :: "bond option"

text \<open>Modelled from the spec: the initial state, an empty \<open>Linear\<close> accumulator (4.1 (c)).\<close>

definition empty_level :: level where
  "empty_level =
     \<lparr>components = [], chain_atoms = [], chain_bonds = [], chain_attachments = [],
      open_rings = [], pending_bond = None\<rparr>"

text \<open>Modelled from the spec: the bond symbols \<open>-=#:\<close> of step 2.\<close>

definition bond_of_symbol :: "char \<Rightarrow> bond option" where
  "bond_of_symbol c =
     (if c = CHR ''-'' then Some SingleBond
      else if c = CHR ''='' then Some DoubleBond
      else if c = CHR ''#'' then Some TripleBond
      else if c = CHR '':'' then Some AromaticBond
      else None)"

text \<open>Modelled from the spec: a ring-closure digit (step 3).\<close>

definition is_digit :: "char \<Rightarrow> bool" where
  "is_digit c = (c \<in> set ''0123456789'')"

text \<open>
  Modelled from the spec: step 1, reading one atom token, bracketed (kept as an opaque token)
  or a bare element symbol of one or two characters, lower case for aromatic. The
  specification does not list the bare symbols; the model takes those of the notation itself
  (\<open>B C N O P S F Cl Br I\<close> and \<open>b c n o p s\<close>).
\<close>

definition read_atom :: "string \<Rightarrow> (string \<times> string) option" where
  "read_atom s =
     (case s of
        [] \<Rightarrow> None
      | c # cs \<Rightarrow>
          if c = CHR ''['' then
            (if CHR '']'' \<in> set cs
             then Some (c # takeWhile (\<lambda>x. x \<noteq> CHR '']'') cs @ '']'',
                        tl (dropWhile (\<lambda>x. x \<noteq> CHR '']'') cs))
             else None)
          else if take 2 s = ''Cl'' \<or> take 2 s = ''Br'' then Some (take 2 s, drop 2 s)
          else if c \<in> set ''BCNOPSFI'' \<or> c \<in> set ''bcnops'' then Some ([c], cs)
          else None)"

text \<open>
  Modelled from the spec: appending a fragment to the ordered attachment list at a position
  (step 4 and the \<open>attach\<close> contract of 4.2).
\<close>

definition attach_at :: "(nat \<times> node list) list \<Rightarrow> nat \<Rightarrow> node \<Rightarrow> (nat \<times> node list) list" where
  "attach_at atts p sub =
     (case map_of atts p of
        None \<Rightarrow> atts @ [(p, [sub])]
      | Some subs \<Rightarrow> map (\<lambda>(q, xs). if q = p then (q, xs @ [sub]) else (q, xs)) atts)"

text \<open>
  Modelled from the spec: steps 1 and 2, an atom enters the accumulator with the bond read
  before it, or the default bond.
\<close>

definition add_atom :: "nat \<Rightarrow> string \<Rightarrow> level \<Rightarrow> parse_error + level" where
  "add_atom pos tok cur =
     (if chain_atoms cur = [] then
        (if pending_bond cur \<noteq> None then Inl (Undetermined pos)
         else Inr (cur\<lparr>chain_atoms := [tok]\<rparr>))
      else
        Inr (cur\<lparr>chain_atoms := chain_atoms cur @ [tok],
                 chain_bonds := chain_bonds cur @
                   [case pending_bond cur of None \<Rightarrow> DefaultBond | Some b \<Rightarrow> b],
                 pending_bond := None\<rparr>))"

text \<open>
  Modelled from the spec: step 2, a bond symbol is recorded for the atom (or ring-closure
  digit) that follows; a second symbol, or one that nothing precedes, is an \<open>InvalidBond\<close>.
\<close>

definition add_bond :: "nat \<Rightarrow> char \<Rightarrow> bond \<Rightarrow> level \<Rightarrow> level list \<Rightarrow> parse_error + level" where
  "add_bond pos c b cur stack =
     (if pending_bond cur \<noteq> None then Inl (InvalidBond pos [c])
      else if chain_atoms cur = [] \<and> components cur = [] then
        (if stack = [] then Inl (InvalidBond pos [c]) else Inl (Undetermined pos))
      else Inr (cur\<lparr>pending_bond := Some b\<rparr>))"

text \<open>
  Modelled from the spec: step 3, closing a ring-closure digit \<open>d\<close> opened at atom index \<open>i\<close>
  with bond \<open>b0\<close>. The run of atoms from \<open>i\<close> to the current atom becomes a \<open>Ring\<close> of size
  index distance + 1, with ring number \<open>d\<close>, offset 0, the bonds inside the run followed by the
  closure bond, and the attachments of the run at positions counted from its start; the atoms
  before the run become a \<open>Linear\<close> component (step 7), and the accumulator starts again.
\<close>

definition close_ring :: "nat \<Rightarrow> char \<Rightarrow> nat \<Rightarrow> bond \<Rightarrow> level \<Rightarrow> parse_error + level" where
  "close_ring pos d i b0 cur =
     (let j = length (chain_atoms cur) - 1;
          run = drop i (chain_atoms cur);
          b1 = (case pending_bond cur of None \<Rightarrow> DefaultBond | Some b \<Rightarrow> b)
      in
        if j \<le> i then Inl (Undetermined pos)
        else if length (open_rings cur) \<noteq> 1 then Inl (Undetermined pos)
        else if b0 \<noteq> DefaultBond \<and> b1 \<noteq> DefaultBond \<and> b0 \<noteq> b1 then Inl (InvalidBond pos [d])
        else if 0 < i \<and> chain_bonds cur ! (i - 1) \<noteq> DefaultBond then Inl (Undetermined pos)
        else if list_ex (\<lambda>a. a \<noteq> hd run) run then Inl (Undetermined pos)
        else
          Inr (cur\<lparr>
            components := components cur @
              (if 0 < i
               then [LinearNode (take i (chain_atoms cur)) (take (i - 1) (chain_bonds cur))
                       (filter (\<lambda>(p, subs). p < i) (chain_attachments cur))]
               else []) @
              [RingNode (hd run) (j - i + 1) (of_char d - 48) 0 []
                 (map (\<lambda>(p, subs). (p - i, subs))
                    (filter (\<lambda>(p, subs). i \<le> p) (chain_attachments cur)))
                 (drop i (chain_bonds cur) @ [if b0 \<noteq> DefaultBond then b0 else b1])],
            chain_atoms := [], chain_bonds := [], chain_attachments := [],
            open_rings := [], pending_bond := None\<rparr>))"

text \<open>
  Modelled from the spec: step 3, a ring-closure digit after an atom: a digit that is not open
  is opened, storing the current atom index and any pending bond; an open one is closed.
\<close>

definition ring_digit :: "nat \<Rightarrow> char \<Rightarrow> level \<Rightarrow> level list \<Rightarrow> parse_error + level" where
  "ring_digit pos d cur stack =
     (if chain_atoms cur = [] then
        (if components cur = [] then Inl (InvalidAtom pos [d]) else Inl (Undetermined pos))
      else
        (case map_of (open_rings cur) d of
           Some (i, b0) \<Rightarrow> close_ring pos d i b0 cur
         | None \<Rightarrow>
             if list_ex (\<lambda>l. map_of (open_rings l) d \<noteq> None) stack then Inl (Undetermined pos)
             else Inr (cur\<lparr>
               open_rings := open_rings cur @
                 [(d, length (chain_atoms cur) - 1,
                   case pending_bond cur of None \<Rightarrow> DefaultBond | Some b \<Rightarrow> b)],
               pending_bond := None\<rparr>)))"

text \<open>
  Modelled from the spec: step 7, the node of one branch depth: its single component, or a
  \<open>Molecule\<close> of its components in text order.
\<close>

definition finish_level :: "level \<Rightarrow> node" where
  "finish_level cur =
     (let comps = components cur @
            (if chain_atoms cur = [] then []
             else [LinearNode (chain_atoms cur) (chain_bonds cur) (chain_attachments cur)])
      in case comps of [single] \<Rightarrow> single | _ \<Rightarrow> MoleculeNode comps)"

text \<open>
  Modelled from the spec: step 4, attaching a parsed branch at the atom that was current when
  the branch opened: the last atom of the accumulator or, right after a ring closed, the last
  position of that ring.
\<close>

fun attach_node :: "node \<Rightarrow> node \<Rightarrow> node" where
  "attach_node (RingNode a n k off subs atts bs) sub =
     RingNode a n k off subs (attach_at atts (n - 1) sub) bs"
| "attach_node nd sub = nd"

definition attach_branch :: "level \<Rightarrow> node \<Rightarrow> level" where
  "attach_branch parent sub =
     (if chain_atoms parent \<noteq> [] then
        parent\<lparr>chain_attachments :=
          attach_at (chain_attachments parent) (length (chain_atoms parent) - 1) sub\<rparr>
      else
        parent\<lparr>components :=
          butlast (components parent) @ [attach_node (last (components parent)) sub]\<rparr>)"

text \<open>
  Modelled from the spec: step 6, the end of the input: an open ring-closure digit fails with
  \<open>UnclosedRing\<close> naming the digit; otherwise a non-empty branch stack fails with
  \<open>MismatchedParen\<close>.
\<close>

definition finish :: "nat \<Rightarrow> level \<Rightarrow> level list \<Rightarrow> parse_error + node" where
  "finish pos cur stack =
     (case concat (map open_rings (rev stack @ [cur])) of
        (d, i, b) # others \<Rightarrow> Inl (UnclosedRing d)
      | [] \<Rightarrow>
          if stack \<noteq> [] then Inl (MismatchedParen pos)
          else if pending_bond cur \<noteq> None then Inl (InvalidBond pos [])
          else if chain_atoms cur = [] \<and> components cur = [] then Inl (Undetermined pos)
          else Inr (finish_level cur))"

lemma read_atom_shorter:
  assumes "read_atom s = Some (tok, rest)"
  shows "length rest < length s"
proof (cases s)
  case Nil
  with assms show ?thesis by (simp add: read_atom_def)
next
  case (Cons c cs)
  have "length (dropWhile (\<lambda>x. x \<noteq> CHR '']'') cs) \<le> length cs"
    by (rule length_dropWhile_le)
  then have "length (tl (dropWhile (\<lambda>x. x \<noteq> CHR '']'') cs)) < length s"
    using Cons by simp
  then show ?thesis
    using assms Cons by (auto simp: read_atom_def split: if_splits)
qed

text \<open>
  Modelled from the spec: the single left-to-right scan of section 4.1 with its branch stack
  (pushed on \<open>(\<close>, popped on \<open>)\<close>, underflow and leftover both \<open>MismatchedParen\<close>), and the
  maximum nesting depth of section 5, whose value the specification leaves open: it is the
  parameter \<open>limit\<close>.
\<close>

function scan :: "nat \<Rightarrow> nat \<Rightarrow> level \<Rightarrow> level list \<Rightarrow> string \<Rightarrow> parse_error + node" where
  "scan limit pos cur stack [] = finish pos cur stack"
| "scan limit pos cur stack (c # cs) =
     (if c = CHR ''('' then
        (if chain_atoms cur = [] \<and> components cur = [] then Inl (Undetermined pos)
         else if pending_bond cur \<noteq> None then Inl (InvalidBond pos [c])
         else if limit \<le> length stack then Inl (DepthExceeded pos)
         else scan limit (pos + 1) empty_level (cur # stack) cs)
      else if c = CHR '')'' then
        (case stack of
           [] \<Rightarrow> Inl (MismatchedParen pos)
         | parent # stack' \<Rightarrow>
             if open_rings cur \<noteq> [] then Inl (Undetermined pos)
             else if pending_bond cur \<noteq> None then Inl (InvalidBond pos [c])
             else if chain_atoms cur = [] \<and> components cur = [] then Inl (Undetermined pos)
             else scan limit (pos + 1) (attach_branch parent (finish_level cur)) stack' cs)
      else if is_digit c then
        (case ring_digit pos c cur stack of
           Inl e \<Rightarrow> Inl e
         | Inr cur' \<Rightarrow> scan limit (pos + 1) cur' stack cs)
      else
        (case bond_of_symbol c of
           Some b \<Rightarrow>
             (case add_bond pos c b cur stack of
                Inl e \<Rightarrow> Inl e
              | Inr cur' \<Rightarrow> scan limit (pos + 1) cur' stack cs)
         | None \<Rightarrow>
             (case read_atom (c # cs) of
                None \<Rightarrow> Inl (InvalidAtom pos [c])
              | Some (tok, rest) \<Rightarrow>
                  (case add_atom pos tok cur of
                     Inl e \<Rightarrow> Inl e
                   | Inr cur' \<Rightarrow> scan limit (pos + length tok) cur' stack rest))))"
  by pat_completeness auto
termination
  by (relation "measure (\<lambda>(limit, pos, cur, stack, s). length s)")
     (auto dest: read_atom_shorter)

text \<open>Modelled from the spec: \<open>parse(text) -> AST | ParseError\<close> (section 4.1).\<close>

definition parse_spec :: "nat \<Rightarrow> string \<Rightarrow> parse_error + node" where
  "parse_spec limit text = scan limit 0 empty_level [] text"

text \<open>
  Modelled from the spec: a bond in the exchanged record: \<open>null\<close> for the default bond
  (scenario 2 of section 8), the bond symbol otherwise.
\<close>

fun bond_js :: "bond \<Rightarrow> jsval" where
  "bond_js DefaultBond = JNull"
| "bond_js SingleBond = JStr ''-''"
| "bond_js DoubleBond = JStr ''=''"
| "bond_js TripleBond = JStr ''#''"
| "bond_js AromaticBond = JStr '':''"

text \<open>
  Modelled from the spec: the AST exchanged across the boundary (section 6), a plain
  structural record with the discriminant field \<open>type\<close> and the attributes of section 3, in
  the order of scenarios 1 and 2 of section 8. The member names \<open>rings\<close> and \<open>components\<close> are
  the ones \<open>objectToAst\<close> reads.
\<close>

fun toRecord :: "node \<Rightarrow> jsval"
  and toRecord_list :: "node list \<Rightarrow> jsval list"
  and toRecord_attachments :: "(nat \<times> node list) list \<Rightarrow> (string \<times> jsval) list"
where
  "toRecord (LinearNode atoms bonds attachments) =
     JObject
       [(''type'', JStr ''linear''),
        (''atoms'', JArray (map JStr atoms)),
        (''bonds'', JArray (map bond_js bonds)),
        (''attachments'', JObject (toRecord_attachments attachments) [])] []"
| "toRecord (RingNode atoms sz ringNumber offset substitutions attachments bonds) =
     JObject
       [(''type'', JStr ''ring''),
        (''atoms'', JStr atoms),
        (''size'', JNum (int sz)),
        (''ringNumber'', JNum (int ringNumber)),
        (''offset'', JNum (int offset)),
        (''substitutions'', JObject (map (\<lambda>(p, a). (show_nat p, JStr a)) substitutions) []),
        (''attachments'', JObject (toRecord_attachments attachments) []),
        (''bonds'', JArray (map bond_js bonds))] []"
| "toRecord (FusedRingNode rings) =
     JObject [(''type'', JStr ''fused_ring''), (''rings'', JArray (toRecord_list rings))] []"
| "toRecord (MoleculeNode parts) =
     JObject [(''type'', JStr ''molecule''), (''components'', JArray (toRecord_list parts))] []"
| "toRecord_list [] = []"
| "toRecord_list (n # ns) = toRecord n # toRecord_list ns"
| "toRecord_attachments [] = []"
| "toRecord_attachments ((p, subs) # rest) =
     (show_nat p, JArray (toRecord_list subs)) # toRecord_attachments rest"

text \<open>
  Modelled from the spec: the human-readable message of a parse error (section 7): the name of
  its kind, then the digit, or the token and the position. The specification fixes no wording
  beyond the kind names and that the message of \<open>UnclosedRing\<close> names the digit.
\<close>

fun error_message :: "parse_error \<Rightarrow> string" where
  "error_message (UnclosedRing d) = ''UnclosedRing: '' @ [d]"
| "error_message (InvalidAtom pos tok) = ''InvalidAtom: '' @ tok @ '' at '' @ show_nat pos"
| "error_message (InvalidBond pos tok) = ''InvalidBond: '' @ tok @ '' at '' @ show_nat pos"
| "error_message (MismatchedParen pos) = ''MismatchedParen at '' @ show_nat pos"
| "error_message (DepthExceeded pos) = ''DepthExceeded at '' @ show_nat pos"
| "error_message (Undetermined pos) = ''Undetermined at '' @ show_nat pos"

text \<open>
  Modelled from the spec: \<open>parse\<close> as the tool layer calls it: the node comes back as its
  structural record, a failure is thrown as an error carrying the message.
\<close>

definition js_parse :: "nat \<Rightarrow> string \<Rightarrow> thrown + jsval" where
  "js_parse limit text =
     (case parse_spec limit text of
        Inl e \<Rightarrow> Inl (Error (error_message e))
      | Inr n \<Rightarrow> Inr (toRecord n))"

section \<open>index.js over an explicit store\<close>

text \<open>
  The value model above has no object identity: a value cannot be modified, so it cannot say
  that a tool leaves its input alone, and a function of values returns equal results on equal
  arguments whatever the code does. Here the same functions of \<^verbatim>\<open>index.js\<close> run over an explicit
  store. A reference is a primitive or the address of a cell; a cell is an object (its own
  enumerable data properties and, once an assignment to \<^verbatim>\<open>__proto__\<close> has set it, its
  prototype), an array, a function or an \<^verbatim>\<open>Error\<close> object with its message; the store is the
  list of all cells, and allocation appends. A computation takes the store and returns an
  outcome, \<open>Inl\<close> of the reference thrown or \<open>Inr\<close> of the result, and the new store.
\<close>

type_synonym addr = nat

datatype ref = RUndefined | RNull | RBool bool | RNum int | RStr string | RRef addr

datatype cell =
    CObject "(string \<times> ref) list" "ref option"
  | CArray "ref list"
  | CFunction
  | CError string

type_synonym store = "cell list"

type_synonym 'a comp = "store \<Rightarrow> (ref + 'a) \<times> store"

text \<open>The monad of computations that read and write the store and may throw.\<close>

definition returnS :: "'a \<Rightarrow> 'a comp" where
  "returnS x h = (Inr x, h)"

definition bindS :: "'a comp \<Rightarrow> ('a \<Rightarrow> 'b comp) \<Rightarrow> 'b comp" where
  "bindS m f h = (case m h of (Inl e, h1) \<Rightarrow> (Inl e, h1) | (Inr x, h1) \<Rightarrow> f x h1)"

definition catchS :: "'a comp \<Rightarrow> (ref \<Rightarrow> 'a comp) \<Rightarrow> 'a comp" where
  "catchS body handler h =
     (case body h of (Inl error, h1) \<Rightarrow> handler error h1 | (Inr r, h1) \<Rightarrow> (Inr r, h1))"

text \<open>
  Reading the store, allocating a cell (an object or array literal), looking at the cell
  behind a reference, and the \<^verbatim>\<open>TypeError\<close> or \<^verbatim>\<open>RangeError\<close> that the language itself throws: a new
  error object.
\<close>

definition readS :: "(store \<Rightarrow> 'a) \<Rightarrow> 'a comp" where
  "readS f h = (Inr (f h), h)"

definition new :: "cell \<Rightarrow> ref comp" where
  "new c h = (Inr (RRef (length h)), h @ [c])"

definition raise :: "string \<Rightarrow> 'a comp" where
  "raise msg h = (Inl (RRef (length h)), h @ [CError msg])"

definition cell_of :: "store \<Rightarrow> ref \<Rightarrow> cell option" where
  "cell_of h v = (case v of RRef a \<Rightarrow> if a < length h then Some (h ! a) else None | _ \<Rightarrow> None)"

text \<open>Truthiness and \<^verbatim>\<open>typeof\<close>, as in the value model.\<close>

fun ref_truthy :: "ref \<Rightarrow> bool" where
  "ref_truthy RUndefined = False"
| "ref_truthy RNull = False"
| "ref_truthy (RBool b) = b"
| "ref_truthy (RNum n) = (n \<noteq> 0)"
| "ref_truthy (RStr s) = (s \<noteq> [])"
| "ref_truthy (RRef a) = True"

definition ref_is_function :: "store \<Rightarrow> ref \<Rightarrow> bool" where
  "ref_is_function h v = (cell_of h v = Some CFunction)"

definition ref_is_object :: "store \<Rightarrow> ref \<Rightarrow> bool" where
  "ref_is_object h v =
     (v = RNull \<or> (case cell_of h v of Some c \<Rightarrow> c \<noteq> CFunction | None \<Rightarrow> False))"

text \<open>
  The package smiles-js over the store: each export is a computation. \<open>e_member\<close> reads a
  member that is not an own data property (an inherited property or method, a getter),
  \<open>e_call\<close> calls a function value; both run code of the package.
\<close>

record engine =
  e_parse :: "string \<Rightarrow> ref comp"
  e_buildSMILES :: "ref \<Rightarrow> string comp"
  e_decompile :: "ref \<Rightarrow> string comp"
  e_isValidRoundTrip :: "string \<Rightarrow> bool comp"
  e_Ring :: "ref \<Rightarrow> ref comp"
  e_Linear :: "ref \<Rightarrow> ref \<Rightarrow> ref \<Rightarrow> ref comp"
  e_FusedRing :: "ref \<Rightarrow> ref comp"
  e_Molecule :: "ref \<Rightarrow> ref comp"
  e_member :: "ref \<Rightarrow> string \<Rightarrow> ref comp"
  e_call :: "ref \<Rightarrow> ref \<Rightarrow> ref comp"
  e_common :: "(string \<times> ref) list"

text \<open>\<^verbatim>\<open>v.k\<close> and a method call.\<close>

definition read_member :: "engine \<Rightarrow> ref \<Rightarrow> string \<Rightarrow> ref comp" where
  "read_member eng v k =
     (case v of
        RUndefined \<Rightarrow> raise (''Cannot read properties of undefined (reading '' @ k @ '')'')
      | RNull \<Rightarrow> raise (''Cannot read properties of null (reading '' @ k @ '')'')
      | RRef a \<Rightarrow>
          bindS (readS (\<lambda>h. cell_of h v)) (\<lambda>c.
            case c of
              Some (CObject ps proto) \<Rightarrow>
                (case map_of ps k of Some x \<Rightarrow> returnS x | None \<Rightarrow> e_member eng v k)
            | Some (CError msg) \<Rightarrow>
                if k = ''message'' then returnS (RStr msg) else e_member eng v k
            | _ \<Rightarrow> returnS RUndefined)
      | _ \<Rightarrow> returnS RUndefined)"

definition invoke :: "engine \<Rightarrow> string \<Rightarrow> ref \<Rightarrow> ref \<Rightarrow> ref comp" where
  "invoke eng name f this =
     bindS (readS (\<lambda>h. ref_is_function h f)) (\<lambda>is_function.
       if is_function then e_call eng f this
       else raise (name @ '' is not a function''))"

text \<open>
  \<^verbatim>\<open>target[k] = v\<close>: the one place where the tool layer changes a cell of the store. The key
  \<^verbatim>\<open>__proto__\<close> sets the prototype of the target to an object or \<^verbatim>\<open>null\<close> and is ignored for any
  other value; any other key creates or updates an own property.
\<close>

fun ref_set_prop :: "(string \<times> ref) list \<Rightarrow> string \<Rightarrow> ref \<Rightarrow> (string \<times> ref) list" where
  "ref_set_prop [] k v = [(k, v)]"
| "ref_set_prop ((k', v') # ps) k v = (if k' = k then (k, v) # ps else (k', v') # ref_set_prop ps k v)"

definition written :: "cell \<Rightarrow> string \<Rightarrow> ref \<Rightarrow> cell" where
  "written c k v =
     (case c of
        CObject ps proto \<Rightarrow>
          if k = ''__proto__'' then
            (case v of
               RNull \<Rightarrow> CObject ps (Some v)
             | RRef b \<Rightarrow> CObject ps (Some v)
             | _ \<Rightarrow> c)
          else CObject (ref_set_prop ps k v) proto
      | _ \<Rightarrow> c)"

definition write_prop :: "ref \<Rightarrow> string \<Rightarrow> ref \<Rightarrow> unit comp" where
  "write_prop target k v h =
     (case target of
        RRef a \<Rightarrow> if a < length h then (Inr (), h[a := written (h ! a) k v]) else (Inr (), h)
      | _ \<Rightarrow> (Inr (), h))"

text \<open>\<^verbatim>\<open>Object.entries\<close> and \<^verbatim>\<open>a || literal\<close>.\<close>

fun ref_indexed :: "nat \<Rightarrow> ref list \<Rightarrow> (string \<times> ref) list" where
  "ref_indexed i [] = []"
| "ref_indexed i (x # xs) = (show_nat i, x) # ref_indexed (Suc i) xs"

definition orNew :: "ref \<Rightarrow> cell \<Rightarrow> ref comp" where
  "orNew v c = (if ref_truthy v then returnS v else new c)"

definition entries_of :: "store \<Rightarrow> ref \<Rightarrow> (string \<times> ref) list" where
  "entries_of h v =
     (case v of
        RStr s \<Rightarrow> ref_indexed 0 (map (\<lambda>c. RStr [c]) s)
      | RRef a \<Rightarrow>
          (case cell_of h v of
             Some (CObject ps proto) \<Rightarrow> ps
           | Some (CArray xs) \<Rightarrow> ref_indexed 0 xs
           | _ \<Rightarrow> [])
      | _ \<Rightarrow> [])"

text \<open>
  The conversions. The recursive call is the parameter \<open>self\<close>; \<open>astToObject_st eng d\<close> and
  \<open>objectToAst_st eng d\<close> tie the knot with \<open>d\<close> nested calls left on the call stack;
  beyond them JavaScript throws a \<^verbatim>\<open>RangeError\<close>, which the tools catch like any other.
\<close>

primrec mapS :: "('a \<Rightarrow> 'b comp) \<Rightarrow> 'a list \<Rightarrow> 'b list comp" where
  "mapS f [] = returnS []"
| "mapS f (x # xs) = bindS (f x) (\<lambda>y. bindS (mapS f xs) (\<lambda>ys. returnS (y # ys)))"

primrec astToObject_entries_st :: "(ref \<Rightarrow> ref comp) \<Rightarrow> ref \<Rightarrow> (string \<times> ref) list \<Rightarrow> ref comp" where
  "astToObject_entries_st self result [] = returnS result"
| "astToObject_entries_st self result (entry # rest) =
     (case entry of (key, val) \<Rightarrow>
        if startsWith_underscore key then astToObject_entries_st self result rest
        else
          bindS (readS (\<lambda>h. ref_is_function h val)) (\<lambda>is_function.
            if is_function then astToObject_entries_st self result rest
            else
              bindS (self val) (\<lambda>v.
              bindS (write_prop result key v) (\<lambda>u.
                astToObject_entries_st self result rest))))"

definition astToObject_body :: "engine \<Rightarrow> (ref \<Rightarrow> ref comp) \<Rightarrow> ref \<Rightarrow> ref comp" where
  "astToObject_body eng self node =
     bindS (readS (\<lambda>h. ref_is_object h node)) (\<lambda>is_object.
       if \<not> ref_truthy node \<or> \<not> is_object then returnS node
       else
         bindS (read_member eng node ''toObject'') (\<lambda>m.
           if ref_truthy m then invoke eng ''node.toObject'' m node
           else
             bindS (readS (\<lambda>h. cell_of h node)) (\<lambda>c.
               case c of
                 Some (CArray xs) \<Rightarrow> bindS (mapS self xs) (\<lambda>ys. new (CArray ys))
               | _ \<Rightarrow>
                   bindS (new (CObject [] None)) (\<lambda>result.
                   bindS (readS (\<lambda>h. entries_of h node)) (\<lambda>entries.
                     astToObject_entries_st self result entries)))))"

primrec astToObject_st :: "engine \<Rightarrow> nat \<Rightarrow> ref \<Rightarrow> ref comp" where
  "astToObject_st eng 0 = (\<lambda>node. raise ''Maximum call stack size exceeded'')"
| "astToObject_st eng (Suc d) = astToObject_body eng (astToObject_st eng d)"

definition map_objectToAst_st :: "engine \<Rightarrow> (ref \<Rightarrow> ref comp) \<Rightarrow> string \<Rightarrow> ref \<Rightarrow> ref comp" where
  "map_objectToAst_st eng self name v =
     bindS (readS (\<lambda>h. cell_of h v)) (\<lambda>c.
       case c of
         Some (CArray xs) \<Rightarrow> bindS (mapS self xs) (\<lambda>ys. new (CArray ys))
       | _ \<Rightarrow> bindS (read_member eng v ''map'') (\<lambda>m. invoke eng name m v))"

primrec reconstruct_entries_st ::
  "engine \<Rightarrow> (ref \<Rightarrow> ref comp) \<Rightarrow> ref \<Rightarrow> (string \<times> ref) list \<Rightarrow> ref comp" where
  "reconstruct_entries_st eng self result [] = returnS result"
| "reconstruct_entries_st eng self result (entry # rest) =
     (case entry of (pos, list) \<Rightarrow>
        bindS (map_objectToAst_st eng self ''list.map'' list) (\<lambda>v.
        bindS (write_prop result pos v) (\<lambda>u.
          reconstruct_entries_st eng self result rest)))"

definition reconstructAttachments_st :: "engine \<Rightarrow> (ref \<Rightarrow> ref comp) \<Rightarrow> ref \<Rightarrow> ref comp" where
  "reconstructAttachments_st eng self attachments =
     (if \<not> ref_truthy attachments then new (CObject [] None)
      else
        bindS (new (CObject [] None)) (\<lambda>result.
        bindS (readS (\<lambda>h. entries_of h attachments)) (\<lambda>entries.
          reconstruct_entries_st eng self result entries)))"

definition objectToAst_body :: "engine \<Rightarrow> (ref \<Rightarrow> ref comp) \<Rightarrow> ref \<Rightarrow> ref comp" where
  "objectToAst_body eng self obj =
     bindS (readS (\<lambda>h. ref_is_object h obj)) (\<lambda>is_object.
       if \<not> ref_truthy obj \<or> \<not> is_object then returnS obj
       else bindS (read_member eng obj ''type'') (\<lambda>type.
         if type = RStr ''ring'' then
           bindS (read_member eng obj ''atoms'') (\<lambda>atoms.
           bindS (read_member eng obj ''size'') (\<lambda>size.
           bindS (read_member eng obj ''ringNumber'') (\<lambda>ringNumber.
           bindS (read_member eng obj ''offset'') (\<lambda>offset.
           bindS (read_member eng obj ''substitutions'') (\<lambda>substitutions.
           bindS (orNew substitutions (CObject [] None)) (\<lambda>substitutions'.
           bindS (read_member eng obj ''attachments'') (\<lambda>attachments.
           bindS (reconstructAttachments_st eng self attachments) (\<lambda>attachments'.
           bindS (read_member eng obj ''bonds'') (\<lambda>bonds.
           bindS (orNew bonds (CArray [])) (\<lambda>bonds'.
           bindS (new (CObject
               [(''atoms'', atoms),
                (''size'', size),
                (''ringNumber'', if ref_truthy ringNumber then ringNumber else RNum 1),
                (''offset'', if ref_truthy offset then offset else RNum 0),
                (''substitutions'', substitutions'),
                (''attachments'', attachments'),
                (''bonds'', bonds')] None))
             (e_Ring eng)))))))))))
         else if type = RStr ''linear'' then
           bindS (read_member eng obj ''atoms'') (\<lambda>atoms.
           bindS (orNew atoms (CArray [])) (\<lambda>atoms'.
           bindS (read_member eng obj ''bonds'') (\<lambda>bonds.
           bindS (orNew bonds (CArray [])) (\<lambda>bonds'.
           bindS (read_member eng obj ''attachments'') (\<lambda>attachments.
           bindS (reconstructAttachments_st eng self attachments) (\<lambda>attachments'.
             e_Linear eng atoms' bonds' attachments'))))))
         else if type = RStr ''fused_ring'' then
           bindS (read_member eng obj ''rings'') (\<lambda>rings.
           bindS (orNew rings (CArray [])) (\<lambda>rings'.
           bindS (map_objectToAst_st eng self ''(obj.rings || []).map'' rings')
             (e_FusedRing eng)))
         else if type = RStr ''molecule'' then
           bindS (read_member eng obj ''components'') (\<lambda>components.
           bindS (orNew components (CArray [])) (\<lambda>components'.
           bindS (map_objectToAst_st eng self ''(obj.components || []).map'' components')
             (e_Molecule eng)))
         else returnS obj))"

primrec objectToAst_st :: "engine \<Rightarrow> nat \<Rightarrow> ref \<Rightarrow> ref comp" where
  "objectToAst_st eng 0 = (\<lambda>obj. raise ''Maximum call stack size exceeded'')"
| "objectToAst_st eng (Suc d) = objectToAst_body eng (objectToAst_st eng d)"

text \<open>
  The five tools; the input of \<open>build_smiles\<close> holds a reference to the AST object. The
  \<^verbatim>\<open>catch\<close> blocks read \<^verbatim>\<open>error.message\<close> of what was thrown.
\<close>

record stored_ast_input =
  ast_ref :: ref

definition failure_st :: "engine \<Rightarrow> ref \<Rightarrow> ref comp" where
  "failure_st eng error =
     bindS (read_member eng error ''message'') (\<lambda>message.
       new (CObject [(''success'', RBool False), (''error'', message)] None))"

definition parse_smiles_st :: "engine \<Rightarrow> nat \<Rightarrow> smiles_input \<Rightarrow> ref comp" where
  "parse_smiles_st eng d input =
     catchS
       (bindS (e_parse eng (smiles input)) (\<lambda>ast.
        bindS (astToObject_st eng d ast) (\<lambda>astObject.
          new (CObject
            [(''success'', RBool True),
             (''smiles'', RStr (smiles input)),
             (''ast'', astObject)] None))))
       (failure_st eng)"

definition build_smiles_st :: "engine \<Rightarrow> nat \<Rightarrow> stored_ast_input \<Rightarrow> ref comp" where
  "build_smiles_st eng d input =
     catchS
       (bindS (objectToAst_st eng d (ast_ref input)) (\<lambda>node.
        bindS (e_buildSMILES eng node) (\<lambda>smiles.
          new (CObject
            [(''success'', RBool True),
             (''smiles'', RStr smiles)] None))))
       (failure_st eng)"

definition decompile_smiles_st :: "engine \<Rightarrow> smiles_input \<Rightarrow> ref comp" where
  "decompile_smiles_st eng input =
     catchS
       (bindS (e_parse eng (smiles input)) (\<lambda>ast.
        bindS (e_decompile eng ast) (\<lambda>code.
          new (CObject
            [(''success'', RBool True),
             (''smiles'', RStr (smiles input)),
             (''code'', RStr code)] None))))
       (failure_st eng)"

definition validate_roundtrip_st :: "engine \<Rightarrow> smiles_input \<Rightarrow> ref comp" where
  "validate_roundtrip_st eng input =
     catchS
       (bindS (e_isValidRoundTrip eng (smiles input)) (\<lambda>isValid.
          if isValid then
            new (CObject
              [(''success'', RBool True),
               (''smiles'', RStr (smiles input)),
               (''valid'', RBool True),
               (''message'', RStr ''SMILES round-trip validation passed'')] None)
          else
            bindS (e_parse eng (smiles input)) (\<lambda>ast.
            bindS (e_buildSMILES eng ast) (\<lambda>regenerated.
              new (CObject
                [(''success'', RBool True),
                 (''smiles'', RStr (smiles input)),
                 (''valid'', RBool False),
                 (''regenerated'', RStr regenerated),
                 (''message'', RStr (mismatch_message (smiles input) regenerated))] None)))))
       (failure_st eng)"

primrec extract_fragments_st :: "engine \<Rightarrow> ref \<Rightarrow> (string \<times> ref) list \<Rightarrow> unit comp" where
  "extract_fragments_st eng fragments [] = returnS ()"
| "extract_fragments_st eng fragments (entry # rest) =
     (case entry of (name, fragment) \<Rightarrow>
        bindS
          (catchS
             (bindS (readS (\<lambda>h. ref_is_object h fragment)) (\<lambda>is_object.
                if ref_truthy fragment \<and> is_object then
                  bindS (read_member eng fragment ''smiles'') (\<lambda>s.
                    if s \<noteq> RUndefined then
                      bindS (read_member eng fragment ''smiles'') (\<lambda>smiles.
                      bindS (read_member eng fragment ''type'') (\<lambda>type.
                      bindS (new (CObject [(''smiles'', smiles), (''type'', type)] None)) (\<lambda>item.
                        write_prop fragments name item)))
                    else returnS ())
                else returnS ()))
             (\<lambda>e. returnS ()))
          (\<lambda>u. extract_fragments_st eng fragments rest))"

definition get_common_fragments_st :: "engine \<Rightarrow> ref comp" where
  "get_common_fragments_st eng =
     bindS (new (CObject [] None)) (\<lambda>fragments.
     bindS (extract_fragments_st eng fragments (e_common eng)) (\<lambda>u.
     bindS (new (CArray (map RStr
        [''methyl'', ''ethyl'', ''propyl'', ''isopropyl'', ''butyl'', ''tertButyl'']))) (\<lambda>alkyl.
     bindS (new (CArray (map RStr
        [''hydroxyl'', ''amino'', ''carboxyl'', ''carbonyl'', ''ester'', ''ether'',
         ''aldehyde'', ''ketone'']))) (\<lambda>functional.
     bindS (new (CArray (map RStr [''phenyl'', ''benzyl'']))) (\<lambda>aromatic.
     bindS (new (CArray (map RStr
        [''benzene'', ''cyclohexane'', ''cyclopentane'', ''pyridine'', ''furan'', ''pyrrole'',
         ''imidazole'']))) (\<lambda>rings.
     bindS (new (CArray (map RStr [''fluoro'', ''chloro'', ''bromo'', ''iodo'']))) (\<lambda>halides.
     bindS (new (CArray (map RStr
        [''nitro'', ''cyano'', ''sulfhydryl'', ''sulfonyl'', ''phosphate'']))) (\<lambda>other.
     bindS (new (CObject
        [(''alkyl'', alkyl),
         (''functional'', functional),
         (''aromatic'', aromatic),
         (''rings'', rings),
         (''halides'', halides),
         (''other'', other)] None)) (\<lambda>categories.
       new (CObject
         [(''success'', RBool True),
          (''fragments'', fragments),
          (''categories'', categories)] None))))))))))"

text \<open>
  Side effects. \<open>frame n m\<close>: run from any store with at least \<open>n\<close> cells, the computation \<open>m\<close>
  keeps every cell below \<open>n\<close> as it is and removes none. A side-effect-free engine (section 5
  of the specification: all operations are side-effect-free over immutable values) is one
  whose every export is such a computation, for every \<open>n\<close>.
\<close>

definition frame :: "nat \<Rightarrow> 'a comp \<Rightarrow> bool" where
  "frame n m =
     (\<forall>h. n \<le> length h \<longrightarrow> length h \<le> length (snd (m h)) \<and> (\<forall>a<n. snd (m h) ! a = h ! a))"

definition engine_pure :: "engine \<Rightarrow> bool" where
  "engine_pure eng =
     (\<forall>n. (\<forall>s. frame n (e_parse eng s))
        \<and> (\<forall>v. frame n (e_buildSMILES eng v))
        \<and> (\<forall>v. frame n (e_decompile eng v))
        \<and> (\<forall>s. frame n (e_isValidRoundTrip eng s))
        \<and> (\<forall>v. frame n (e_Ring eng v))
        \<and> (\<forall>a b c. frame n (e_Linear eng a b c))
        \<and> (\<forall>v. frame n (e_FusedRing eng v))
        \<and> (\<forall>v. frame n (e_Molecule eng v))
        \<and> (\<forall>v k. frame n (e_member eng v k))
        \<and> (\<forall>f v. frame n (e_call eng f v)))"

text \<open>
  Determinism. Two calls run from two states of the store, and what they return are
  references into two stores, so "structurally equal" is a statement about two stores. A
  pairing says which cell of the first state corresponds to which cell of the second: among
  the cells that exist when the calls start (the first \<open>old1\<close> cells of the first state and
  the first \<open>old2\<close> cells of the second) the relation \<open>base\<close> says so, and the cells allocated
  during the two calls correspond in the order of their allocation. Two references correspond
  when they are the same primitive or the addresses of corresponding cells; two cells
  correspond when they are of the same kind and hold, under the same keys and in the same
  order, corresponding references; two states correspond when the two calls have allocated
  the same number of cells and corresponding addresses hold corresponding cells. So two
  corresponding references in corresponding states denote structurally equal values.
\<close>

record pairing =
  base :: "addr \<Rightarrow> addr \<Rightarrow> bool"
  old1 :: nat
  old2 :: nat

definition pairs :: "pairing \<Rightarrow> addr \<Rightarrow> addr \<Rightarrow> bool" where
  "pairs p a b =
     ((a < old1 p \<and> b < old2 p \<and> base p a b)
      \<or> (old1 p \<le> a \<and> old2 p \<le> b \<and> a - old1 p = b - old2 p))"

fun ref_rel :: "pairing \<Rightarrow> ref \<Rightarrow> ref \<Rightarrow> bool" where
  "ref_rel p (RRef a) (RRef b) = pairs p a b"
| "ref_rel p (RRef a) w = False"
| "ref_rel p v (RRef b) = False"
| "ref_rel p v w = (v = w)"

fun cell_rel :: "pairing \<Rightarrow> cell \<Rightarrow> cell \<Rightarrow> bool" where
  "cell_rel p (CObject ps proto) (CObject qs proto') =
     (list_all2 (\<lambda>(k, v) (k', w). k = k' \<and> ref_rel p v w) ps qs
      \<and> rel_option (ref_rel p) proto proto')"
| "cell_rel p (CArray xs) (CArray ys) = list_all2 (ref_rel p) xs ys"
| "cell_rel p CFunction CFunction = True"
| "cell_rel p (CError msg) (CError msg') = (msg = msg')"
| "cell_rel p c c' = False"

definition corresponding :: "pairing \<Rightarrow> store \<Rightarrow> store \<Rightarrow> bool" where
  "corresponding p h1 h2 =
     (old1 p \<le> length h1 \<and> old2 p \<le> length h2
      \<and> length h1 - old1 p = length h2 - old2 p
      \<and> (\<forall>a b. pairs p a b \<and> a < length h1 \<longrightarrow> cell_rel p (h1 ! a) (h2 ! b)))"

text \<open>
  Two property lists correspond when they hold corresponding references under the same keys in
  the same order. \<open>fresh p r r'\<close>: the two references are the addresses of two cells allocated
  during the two calls, at the same point of the allocation order.
\<close>

definition props_rel :: "pairing \<Rightarrow> (string \<times> ref) list \<Rightarrow> (string \<times> ref) list \<Rightarrow> bool" where
  "props_rel p ps qs = list_all2 (\<lambda>(k, v) (k', w). k = k' \<and> ref_rel p v w) ps qs"

definition fresh :: "pairing \<Rightarrow> ref \<Rightarrow> ref \<Rightarrow> bool" where
  "fresh p x y =
     (case (x, y) of
        (RRef a, RRef b) \<Rightarrow> old1 p \<le> a \<and> old2 p \<le> b \<and> a - old1 p = b - old2 p
      | _ \<Rightarrow> False)"

text \<open>
  \<open>same_run p A m1 m2\<close>: run from corresponding states, the two computations end in
  corresponding states, and both throw corresponding references or both return results
  related by \<open>A\<close>. A deterministic engine is one whose every export, given corresponding
  arguments, is such a pair of computations, and whose fragment table holds corresponding
  references in the two states.
\<close>

definition same_run :: "pairing \<Rightarrow> ('a \<Rightarrow> 'a \<Rightarrow> bool) \<Rightarrow> 'a comp \<Rightarrow> 'a comp \<Rightarrow> bool" where
  "same_run p A m1 m2 =
     (\<forall>h1 h2. corresponding p h1 h2 \<longrightarrow>
        corresponding p (snd (m1 h1)) (snd (m2 h2))
        \<and> rel_sum (ref_rel p) A (fst (m1 h1)) (fst (m2 h2)))"

definition engine_deterministic :: "engine \<Rightarrow> pairing \<Rightarrow> bool" where
  "engine_deterministic eng p =
     ((\<forall>s. same_run p (ref_rel p) (e_parse eng s) (e_parse eng s))
      \<and> (\<forall>v w. ref_rel p v w \<longrightarrow> same_run p (=) (e_buildSMILES eng v) (e_buildSMILES eng w))
      \<and> (\<forall>v w. ref_rel p v w \<longrightarrow> same_run p (=) (e_decompile eng v) (e_decompile eng w))
      \<and> (\<forall>s. same_run p (=) (e_isValidRoundTrip eng s) (e_isValidRoundTrip eng s))
      \<and> (\<forall>v w. ref_rel p v w \<longrightarrow> same_run p (ref_rel p) (e_Ring eng v) (e_Ring eng w))
      \<and> (\<forall>a b c a' b' c'. ref_rel p a a' \<and> ref_rel p b b' \<and> ref_rel p c c' \<longrightarrow>
           same_run p (ref_rel p) (e_Linear eng a b c) (e_Linear eng a' b' c'))
      \<and> (\<forall>v w. ref_rel p v w \<longrightarrow> same_run p (ref_rel p) (e_FusedRing eng v) (e_FusedRing eng w))
      \<and> (\<forall>v w. ref_rel p v w \<longrightarrow> same_run p (ref_rel p) (e_Molecule eng v) (e_Molecule eng w))
      \<and> (\<forall>v w k. ref_rel p v w \<longrightarrow> same_run p (ref_rel p) (e_member eng v k) (e_member eng w k))
      \<and> (\<forall>f g v w. ref_rel p f g \<and> ref_rel p v w \<longrightarrow>
           same_run p (ref_rel p) (e_call eng f v) (e_call eng g w))
      \<and> list_all (\<lambda>(name, fragment). ref_rel p fragment fragment) (e_common eng))"

text \<open>
  The value behind a reference, read out of the store as a tree down to a given depth
  (\<open>TCut\<close> below it; \<open>TNone\<close> for an address that holds no cell): what a caller can observe of
  a result.
\<close>

datatype tree =
    TLeaf ref
  | TCut
  | TObject "(string \<times> tree) list" "tree option"
  | TArray "tree list"
  | TFunction
  | TError string
  | TNone

primrec readout :: "nat \<Rightarrow> store \<Rightarrow> ref \<Rightarrow> tree" where
  "readout 0 h v = (case v of RRef a \<Rightarrow> TCut | _ \<Rightarrow> TLeaf v)"
| "readout (Suc d) h v =
     (case v of
        RRef a \<Rightarrow>
          (case cell_of h v of
             Some (CObject ps proto) \<Rightarrow>
               TObject (map (\<lambda>(k, x). (k, readout d h x)) ps) (map_option (readout d h) proto)
           | Some (CArray xs) \<Rightarrow> TArray (map (readout d h) xs)
           | Some CFunction \<Rightarrow> TFunction
           | Some (CError msg) \<Rightarrow> TError msg
           | None \<Rightarrow> TNone)
      | _ \<Rightarrow> TLeaf v)"

text \<open>
  What the caller observes of an outcome: whether the call threw or returned, and the value
  thrown or returned, read out of the store the call ended in.
\<close>

definition observe :: "nat \<Rightarrow> (ref + ref) \<times> store \<Rightarrow> tree + tree" where
  "observe d outcome =
     (case outcome of
        (Inl e, h) \<Rightarrow> Inl (readout d h e)
      | (Inr v, h) \<Rightarrow> Inr (readout d h v))"

text \<open>
  An executable check that two given stores correspond when no cell has been allocated since
  the calls started.
\<close>

definition corresponding_at_start :: "pairing \<Rightarrow> store \<Rightarrow> store \<Rightarrow> bool" where
  "corresponding_at_start p h1 h2 =
     (old1 p = length h1 \<and> old2 p = length h2
      \<and> list_all (\<lambda>a. list_all (\<lambda>b. base p a b \<longrightarrow> cell_rel p (h1 ! a) (h2 ! b)) [0..<length h2])
           [0..<length h1])"

text \<open>
  Engines and stores for concrete inputs. \<open>allocating_engine\<close> only allocates.
  \<open>clearing_engine\<close> is the same engine with a \<open>Linear\<close> constructor that empties the \<open>atoms\<close>
  array it is given; \<open>counting_engine\<close> is the same engine with a serializer that numbers its
  results by a counter, here the number of cells allocated so far. \<open>example_store\<close> holds a
  ring record with one attachment, a linear record, and the benzene fragment of the table.
\<close>

definition allocating_engine :: engine where
  "allocating_engine =
     \<lparr>e_parse = (\<lambda>text. new (CObject [(''text'', RStr text)] None)),
      e_buildSMILES = (\<lambda>node. returnS ''c1ccccc1''),
      e_decompile = (\<lambda>node. returnS ''Ring({})''),
      e_isValidRoundTrip = (\<lambda>text. returnS False),
      e_Ring = (\<lambda>options. new (CObject [(''options'', options)] None)),
      e_Linear = (\<lambda>atoms bonds attachments.
        new (CObject [(''atoms'', atoms), (''bonds'', bonds), (''attachments'', attachments)] None)),
      e_FusedRing = (\<lambda>rings. new (CObject [(''rings'', rings)] None)),
      e_Molecule = (\<lambda>components. new (CObject [(''components'', components)] None)),
      e_member = (\<lambda>v k. returnS RUndefined),
      e_call = (\<lambda>f this. returnS RUndefined),
      e_common = [(''benzene'', RRef 4)]\<rparr>"

definition clearing_engine :: engine where
  "clearing_engine =
     allocating_engine\<lparr>e_Linear := (\<lambda>atoms bonds attachments h.
        (Inr atoms, case atoms of RRef a \<Rightarrow> h[a := CArray []] | _ \<Rightarrow> h))\<rparr>"

definition counting_engine :: engine where
  "counting_engine =
     allocating_engine\<lparr>e_buildSMILES := (\<lambda>node h. (Inr (''C'' @ show_nat (length h)), h))\<rparr>"

definition example_store :: store where
  "example_store =
     [CObject
        [(''type'', RStr ''ring''),
         (''atoms'', RStr ''c''),
         (''size'', RNum 6),
         (''ringNumber'', RNum 0),
         (''attachments'', RRef 1)] None,
      CObject [(''1'', RRef 2)] None,
      CArray [RRef 3],
      CObject [(''type'', RStr ''linear''), (''atoms'', RRef 5)] None,
      CObject [(''smiles'', RStr ''c1ccccc1''), (''type'', RStr ''ring'')] None,
      CArray [RStr ''C'']]"

text \<open>
  A second store that holds the same records at other addresses (the fragment of the table
  stays where the table says), and the pairing of the two.
\<close>

definition example_copy :: store where
  "example_copy =
     [CObject [(''type'', RStr ''linear''), (''atoms'', RRef 1)] None,
      CArray [RStr ''C''],
      CArray [RRef 0],
      CObject [(''1'', RRef 2)] None,
      CObject [(''smiles'', RStr ''c1ccccc1''), (''type'', RStr ''ring'')] None,
      CObject
        [(''type'', RStr ''ring''),
         (''atoms'', RStr ''c''),
         (''size'', RNum 6),
         (''ringNumber'', RNum 0),
         (''attachments'', RRef 3)] None,
      CFunction]"

definition example_pairing :: pairing where
  "example_pairing =
     \<lparr>base = (\<lambda>a b. (a, b) \<in> set [(0, 5), (1, 3), (2, 2), (3, 0), (4, 4), (5, 1)]),
      old1 = 6, old2 = 7\<rparr>"

section \<open>Basic facts\<close>

lemma bindE_Inl [simp]: "bindE (Inl e) f = Inl e"
  by (simp add: bindE_def)

lemma bindE_Inr [simp]: "bindE (Inr x) f = f x"
  by (simp add: bindE_def)

lemma bindE_eq_Inr: "bindE m f = Inr r \<Longrightarrow> \<exists>x. m = Inr x \<and> f x = Inr r"
  by (cases m) simp_all

lemma get_prop_Error [simp]: "get_prop (Error msg) ''message'' = Inr (JStr msg)"
  by (simp add: Error_def)

lemma carries_message_Error [simp]: "carries_message (Error msg)"
  by (simp add: carries_message_def)

lemma caught_result: "body = Inr r \<Longrightarrow> try_catch body failure = Inr r"
  by (simp add: try_catch_def)

lemma caught_message:
  "body = Inl e \<Longrightarrow> get_prop e ''message'' = Inr m \<Longrightarrow>
   try_catch body failure = Inr (JObject [(''success'', JBool False), (''error'', m)] [])"
  by (simp add: try_catch_def failure_def)

lemma caught_thrown:
  "body = Inl e \<Longrightarrow> get_prop e ''message'' = Inl t \<Longrightarrow> try_catch body failure = Inl t"
  by (simp add: try_catch_def failure_def)

lemma structured_success: "structured (JObject ((''success'', JBool True) # ps) [])"
  by (simp add: structured_def)

lemma caught_structured:
  assumes "\<And>r. body = Inr r \<Longrightarrow> structured r"
    and "\<And>e. body = Inl e \<Longrightarrow> carries_message e"
  shows "returns_structured (try_catch body failure)"
proof (cases body)
  case (Inl e)
  from assms(2) [OF Inl] obtain m where "get_prop e ''message'' = Inr (JStr m)"
    by (auto simp: carries_message_def split: sum.splits jsval.splits)
  with Inl show ?thesis
    by (simp add: try_catch_def failure_def returns_structured_def structured_def)
next
  case (Inr r)
  with assms(1) show ?thesis by (simp add: try_catch_def returns_structured_def)
qed

lemma parse_smiles_try_structured: "parse_smiles_try lib i = Inr r \<Longrightarrow> structured r"
  unfolding parse_smiles_try_def by (auto dest!: bindE_eq_Inr simp: structured_success)

lemma build_smiles_try_structured: "build_smiles_try lib j = Inr r \<Longrightarrow> structured r"
  unfolding build_smiles_try_def by (auto dest!: bindE_eq_Inr simp: structured_success)

lemma decompile_smiles_try_structured: "decompile_smiles_try lib i = Inr r \<Longrightarrow> structured r"
  unfolding decompile_smiles_try_def by (auto dest!: bindE_eq_Inr simp: structured_success)

lemma validate_roundtrip_try_structured: "validate_roundtrip_try lib i = Inr r \<Longrightarrow> structured r"
  unfolding validate_roundtrip_try_def
  by (auto dest!: bindE_eq_Inr simp: structured_success split: if_splits)

lemma get_common_fragments_structured: "returns_structured (get_common_fragments lib)"
  unfolding get_common_fragments_def returns_structured_def
  by (simp add: structured_success)

lemma map_of_set_prop: "map_of (set_prop ps k v) k' = (if k' = k then Some v else map_of ps k')"
  by (induction ps) auto

lemma assign_object: "\<exists>ps' acc'. assign (JObject ps acc) k v = JObject ps' acc'"
  by (simp add: assign_def)

lemma assign_plain:
  "k \<noteq> ''__proto__'' \<Longrightarrow> assign (JObject ps acc) k v = JObject (set_prop ps k v) acc"
  by (simp add: assign_def)

lemma own_assign_other:
  "k' \<noteq> k \<Longrightarrow> map_of (own_properties (assign (JObject ps acc) k v)) k' = map_of ps k'"
  by (simp add: assign_def own_properties_def map_of_set_prop)

lemma keep_fragment_cases:
  "keep_fragment fragments name fragment = fragments
   \<or> (\<exists>s t. keep_fragment fragments name fragment =
              assign fragments name (JObject [(''smiles'', s), (''type'', t)] []))"
  by (auto simp: keep_fragment_def bindE_def split: sum.splits)

lemma keep_fragment_object: "\<exists>ps' acc'. keep_fragment (JObject ps acc) name fragment = JObject ps' acc'"
  using keep_fragment_cases [of "JObject ps acc" name fragment] assign_object [of ps acc name]
  by auto

lemma keep_fragment_other:
  "name' \<noteq> name \<Longrightarrow>
   map_of (own_properties (keep_fragment (JObject ps acc) name fragment)) name' = map_of ps name'"
  using keep_fragment_cases [of "JObject ps acc" name fragment]
  by (auto simp: own_assign_other) (simp add: own_properties_def)

lemma keep_fragment_read:
  assumes "truthy fragment" and "typeof_object fragment"
    and "get_prop fragment ''smiles'' = Inr text" and "text \<noteq> JUndefined"
    and "get_prop fragment ''type'' = Inr type"
  shows "keep_fragment fragments name fragment =
           assign fragments name (JObject [(''smiles'', text), (''type'', type)] [])"
  using assms by (simp add: keep_fragment_def)

lemma keep_fragment_skipped:
  assumes "get_prop fragment ''smiles'' = Inl e \<or> get_prop fragment ''type'' = Inl e"
  shows "keep_fragment fragments name fragment = fragments"
proof (cases "get_prop fragment ''smiles''")
  case (Inl e')
  then show ?thesis by (simp add: keep_fragment_def)
next
  case (Inr s)
  with assms have "get_prop fragment ''type'' = Inl e" by simp
  with Inr show ?thesis by (simp add: keep_fragment_def)
qed

lemma extract_fragments_object:
  "\<exists>ps' acc'. extract_fragments (JObject ps acc) entries = JObject ps' acc'"
proof (induction entries arbitrary: ps acc)
  case Nil
  show ?case by simp
next
  case (Cons entry entries)
  obtain n f where entry: "entry = (n, f)" by (cases entry)
  from keep_fragment_object [of ps acc n f] obtain ps' acc'
    where "keep_fragment (JObject ps acc) n f = JObject ps' acc'" by blast
  with Cons.IH [of ps' acc'] show ?case by (simp add: entry)
qed

lemma extract_fragments_other:
  "name \<notin> fst ` set entries \<Longrightarrow>
   map_of (own_properties (extract_fragments (JObject ps acc) entries)) name = map_of ps name"
proof (induction entries arbitrary: ps acc)
  case Nil
  show ?case by (simp add: own_properties_def)
next
  case (Cons entry entries)
  obtain n f where entry: "entry = (n, f)" by (cases entry)
  with Cons.prems have ne: "name \<noteq> n" and rest: "name \<notin> fst ` set entries" by auto
  from keep_fragment_object [of ps acc n f] obtain ps' acc'
    where k: "keep_fragment (JObject ps acc) n f = JObject ps' acc'" by blast
  from keep_fragment_other [OF ne, of ps acc f] k have "map_of ps' name = map_of ps name"
    by (simp add: own_properties_def)
  with Cons.IH [OF rest, of ps' acc'] k show ?case by (simp add: entry)
qed

lemma extract_fragments_entry:
  assumes "distinct (map fst entries)" and "(name, fragment) \<in> set entries"
    and "name \<noteq> ''__proto__''"
    and "truthy fragment" and "typeof_object fragment"
    and "get_prop fragment ''smiles'' = Inr text" and "text \<noteq> JUndefined"
    and "get_prop fragment ''type'' = Inr type"
  shows "map_of (own_properties (extract_fragments (JObject ps acc) entries)) name =
           Some (JObject [(''smiles'', text), (''type'', type)] [])"
  using assms(1,2)
proof (induction entries arbitrary: ps acc)
  case Nil
  then show ?case by simp
next
  case (Cons entry entries)
  obtain n f where entry: "entry = (n, f)" by (cases entry)
  from keep_fragment_object [of ps acc n f] obtain ps' acc'
    where k: "keep_fragment (JObject ps acc) n f = JObject ps' acc'" by blast
  show ?case
  proof (cases "n = name")
    case True
    with Cons.prems entry have f: "f = fragment" and rest: "name \<notin> fst ` set entries"
      by (auto simp: image_iff)
    from keep_fragment_read [OF assms(4-8), of "JObject ps acc" name] assign_plain [OF assms(3)]
    have "keep_fragment (JObject ps acc) name fragment =
        JObject (set_prop ps name (JObject [(''smiles'', text), (''type'', type)] [])) acc"
      by simp
    with k have "ps' = set_prop ps name (JObject [(''smiles'', text), (''type'', type)] [])"
      by (simp add: True f)
    then have "map_of ps' name = Some (JObject [(''smiles'', text), (''type'', type)] [])"
      by (simp add: map_of_set_prop)
    with extract_fragments_other [OF rest, of ps' acc'] k show ?thesis
      by (simp add: entry)
  next
    case False
    with Cons.prems entry have "distinct (map fst entries)" and "(name, fragment) \<in> set entries"
      by auto
    from Cons.IH [OF this, of ps' acc'] k show ?thesis by (simp add: entry)
  qed
qed

lemma extract_fragments_skipped:
  assumes "distinct (map fst entries)" and "(name, fragment) \<in> set entries"
    and "get_prop fragment ''smiles'' = Inl e \<or> get_prop fragment ''type'' = Inl e"
  shows "map_of (own_properties (extract_fragments (JObject ps acc) entries)) name = map_of ps name"
  using assms(1,2)
proof (induction entries arbitrary: ps acc)
  case Nil
  then show ?case by simp
next
  case (Cons entry entries)
  obtain n f where entry: "entry = (n, f)" by (cases entry)
  show ?case
  proof (cases "n = name")
    case True
    with Cons.prems entry have f: "f = fragment" and rest: "name \<notin> fst ` set entries"
      by (auto simp: image_iff)
    from extract_fragments_other [OF rest, of ps acc] keep_fragment_skipped [OF assms(3)]
    show ?thesis by (simp add: entry f)
  next
    case False
    with Cons.prems entry have d: "distinct (map fst entries)" and m: "(name, fragment) \<in> set entries"
      by auto
    from keep_fragment_object [of ps acc n f] obtain ps' acc'
      where k: "keep_fragment (JObject ps acc) n f = JObject ps' acc'" by blast
    from keep_fragment_other [of name n ps acc f] False k have "map_of ps' name = map_of ps name"
      by (simp add: own_properties_def)
    with Cons.IH [OF d m, of ps' acc'] k show ?thesis by (simp add: entry)
  qed
qed

lemma fragments_of_result:
  "fragments_of (get_common_fragments lib) =
     own_properties (extract_fragments (JObject [] []) (common lib))"
  using extract_fragments_object [of "[]" "[]" "common lib"]
  by (auto simp: fragments_of_def get_common_fragments_def own_properties_def)

lemma assign_visible:
  "\<not> startsWith_underscore key \<Longrightarrow> assign (JObject ps acc) key v = JObject (set_prop ps key v) acc"
  by (auto simp: assign_def startsWith_underscore_def)

lemma sanitized_set_prop:
  "sanitized_props result \<Longrightarrow> \<not> startsWith_underscore key \<Longrightarrow> sanitized v \<Longrightarrow>
   sanitized_props (set_prop result key v)"
  by (induction result) auto

lemma astToObject_sanitizes:
  "plain_tree node \<Longrightarrow> \<exists>r. astToObject node = Inr r \<and> sanitized r"
  "plain_list xs \<Longrightarrow> \<exists>ys. astToObject_map xs = Inr ys \<and> sanitized_list ys"
  "plain_props ps \<Longrightarrow> (\<exists>rs. result = JObject rs [] \<and> sanitized_props rs) \<Longrightarrow>
     \<exists>r. astToObject_entries result ps = Inr r \<and> sanitized r"
proof (induction node and xs and result ps
    rule: astToObject_astToObject_map_astToObject_entries.induct)
  case (8 ps acc)
  then show ?case by (auto split: sum.splits)
next
  case (12 result key val rest)
  then show ?case by (auto simp: sanitized_set_prop assign_visible)
qed auto

lemma astToObject_map_elementwise:
  "astToObject_map xs = Inr ys \<Longrightarrow>
   length ys = length xs \<and> (\<forall>i<length xs. astToObject (xs ! i) = Inr (ys ! i))"
proof (induction xs arbitrary: ys)
  case Nil
  then show ?case by simp
next
  case (Cons x xs)
  from Cons.prems obtain y ys' where y: "astToObject x = Inr y"
    and ys': "astToObject_map xs = Inr ys'" and ys: "ys = y # ys'"
    by (auto split: sum.splits)
  from Cons.IH [OF ys'] have "length ys' = length xs"
    and "\<forall>i<length xs. astToObject (xs ! i) = Inr (ys' ! i)" by simp_all
  with y ys show ?case by (auto simp: nth_Cons split: nat.splits)
qed

lemmas scan_defs = parse_spec_def empty_level_def is_digit_def bond_of_symbol_def read_atom_def
  add_atom_def add_bond_def ring_digit_def close_ring_def finish_def finish_level_def

lemma parse_spec_benzene:
  "parse_spec limit ''c1ccccc1'' =
     Inr (RingNode ''c'' 6 1 0 [] []
       [DefaultBond, DefaultBond, DefaultBond, DefaultBond, DefaultBond, DefaultBond])"
  by (simp add: scan_defs)

lemma parse_spec_ethanol:
  "parse_spec limit ''CCO'' = Inr (LinearNode [''C'', ''C'', ''O''] [DefaultBond, DefaultBond] [])"
  by (simp add: scan_defs)

lemma parse_spec_unclosed:
  "parse_spec limit ''C1CC'' = Inl (UnclosedRing CHR ''1'')"
  by (simp add: scan_defs)

lemmas fixture_defs = fixture_def fixture_parse_def fixture_node_def fixture_text_def ethane_def

section \<open>Facts about the store: side effects\<close>

named_theorems frame_intros

lemma frame_returnS [frame_intros]: "frame n (returnS x)"
  by (simp add: frame_def returnS_def)

lemma frame_readS [frame_intros]: "frame n (readS f)"
  by (simp add: frame_def readS_def)

lemma frame_new [frame_intros]: "frame n (new c)"
  by (simp add: frame_def new_def nth_append)

lemma frame_raise [frame_intros]: "frame n (raise msg)"
  by (simp add: frame_def raise_def nth_append)

lemma frame_bindS [frame_intros]:
  assumes "frame n m" and "\<And>x. frame n (f x)"
  shows "frame n (bindS m f)"
  unfolding frame_def
proof (intro allI impI)
  fix h :: store
  assume n: "n \<le> length h"
  obtain r h1 where m: "m h = (r, h1)" by (cases "m h")
  from assms(1) n m have l1: "length h \<le> length h1" and c1: "\<forall>a<n. h1 ! a = h ! a"
    by (auto simp: frame_def)
  show "length h \<le> length (snd (bindS m f h)) \<and> (\<forall>a<n. snd (bindS m f h) ! a = h ! a)"
  proof (cases r)
    case (Inl e)
    with m l1 c1 show ?thesis by (simp add: bindS_def)
  next
    case (Inr x)
    from assms(2) [of x] n l1
    have "length h1 \<le> length (snd (f x h1))" and "\<forall>a<n. snd (f x h1) ! a = h1 ! a"
      by (auto simp: frame_def)
    with m Inr l1 c1 show ?thesis by (simp add: bindS_def)
  qed
qed

lemma frame_catchS [frame_intros]:
  assumes "frame n m" and "\<And>e. frame n (f e)"
  shows "frame n (catchS m f)"
  unfolding frame_def
proof (intro allI impI)
  fix h :: store
  assume n: "n \<le> length h"
  obtain r h1 where m: "m h = (r, h1)" by (cases "m h")
  from assms(1) n m have l1: "length h \<le> length h1" and c1: "\<forall>a<n. h1 ! a = h ! a"
    by (auto simp: frame_def)
  show "length h \<le> length (snd (catchS m f h)) \<and> (\<forall>a<n. snd (catchS m f h) ! a = h ! a)"
  proof (cases r)
    case (Inr x)
    with m l1 c1 show ?thesis by (simp add: catchS_def)
  next
    case (Inl e)
    from assms(2) [of e] n l1
    have "length h1 \<le> length (snd (f e h1))" and "\<forall>a<n. snd (f e h1) ! a = h1 ! a"
      by (auto simp: frame_def)
    with m Inl l1 c1 show ?thesis by (simp add: catchS_def)
  qed
qed

lemma frame_new_bind:
  assumes "\<And>a. n \<le> a \<Longrightarrow> frame n (f (RRef a))"
  shows "frame n (bindS (new c) f)"
  unfolding frame_def
proof (intro allI impI)
  fix h :: store
  assume n: "n \<le> length h"
  have "frame n (f (RRef (length h)))" by (rule assms [OF n])
  moreover have "n \<le> length (h @ [c])" using n by simp
  ultimately have "length (h @ [c]) \<le> length (snd (f (RRef (length h)) (h @ [c])))"
    and "\<forall>a<n. snd (f (RRef (length h)) (h @ [c])) ! a = (h @ [c]) ! a"
    unfolding frame_def by blast+
  with n show "length h \<le> length (snd (bindS (new c) f h))
      \<and> (\<forall>a<n. snd (bindS (new c) f h) ! a = h ! a)"
    by (simp add: bindS_def new_def nth_append)
qed

lemma frame_write: "n \<le> a \<Longrightarrow> frame n (write_prop (RRef a) k v)"
  by (simp add: frame_def write_prop_def)

lemma frame_if [frame_intros]:
  "(c \<Longrightarrow> frame n a) \<Longrightarrow> (\<not> c \<Longrightarrow> frame n b) \<Longrightarrow> frame n (if c then a else b)"
  by simp

lemma frame_orNew [frame_intros]: "frame n (orNew v c)"
  by (simp add: orNew_def frame_intros)

lemma frame_read_member [frame_intros]:
  assumes "engine_pure eng"
  shows "frame n (read_member eng v k)"
proof -
  from assms have "frame n (e_member eng v k)" by (simp add: engine_pure_def)
  then show ?thesis
    unfolding read_member_def
    by (auto intro!: frame_intros split: ref.splits option.splits cell.splits)
qed

lemma frame_invoke [frame_intros]:
  assumes "engine_pure eng"
  shows "frame n (invoke eng name f this)"
proof -
  from assms have "frame n (e_call eng f this)" by (simp add: engine_pure_def)
  then show ?thesis
    unfolding invoke_def by (auto intro!: frame_intros)
qed

lemma frame_mapS [frame_intros]:
  assumes "\<And>x. frame n (f x)"
  shows "frame n (mapS f xs)"
  by (induction xs) (auto intro!: frame_intros assms)

lemma frame_astToObject_entries:
  assumes "\<And>x. frame n (self x)" and "n \<le> a"
  shows "frame n (astToObject_entries_st self (RRef a) ps)"
proof (induction ps)
  case Nil
  show ?case by (simp add: frame_intros)
next
  case (Cons entry ps)
  obtain key val where entry: "entry = (key, val)" by (cases entry)
  show ?case
    unfolding entry
    by (auto intro!: frame_intros assms(1) Cons.IH frame_write [OF assms(2)])
qed

lemma frame_astToObject_body:
  assumes "engine_pure eng" and "\<And>x. frame n (self x)"
  shows "frame n (astToObject_body eng self node)"
  unfolding astToObject_body_def
  by (auto intro!: frame_intros assms frame_new_bind frame_astToObject_entries
      split: option.splits cell.splits)

lemma frame_astToObject_st:
  assumes "engine_pure eng"
  shows "frame n (astToObject_st eng d node)"
proof (induction d arbitrary: node)
  case 0
  show ?case by (simp add: frame_intros)
next
  case (Suc d)
  show ?case by (simp add: frame_astToObject_body [OF assms Suc.IH])
qed

lemma frame_map_objectToAst [frame_intros]:
  assumes "engine_pure eng" and "\<And>x. frame n (self x)"
  shows "frame n (map_objectToAst_st eng self name v)"
  unfolding map_objectToAst_st_def
  by (auto intro!: frame_intros assms split: option.splits cell.splits)

lemma frame_reconstruct_entries:
  assumes "engine_pure eng" and "\<And>x. frame n (self x)" and "n \<le> a"
  shows "frame n (reconstruct_entries_st eng self (RRef a) ps)"
proof (induction ps)
  case Nil
  show ?case by (simp add: frame_intros)
next
  case (Cons entry ps)
  obtain pos list where entry: "entry = (pos, list)" by (cases entry)
  show ?case
    unfolding entry
    by (auto intro!: frame_intros assms(1,2) Cons.IH frame_write [OF assms(3)])
qed

lemma frame_reconstructAttachments [frame_intros]:
  assumes "engine_pure eng" and "\<And>x. frame n (self x)"
  shows "frame n (reconstructAttachments_st eng self attachments)"
  unfolding reconstructAttachments_st_def
  by (auto intro!: frame_intros frame_new_bind frame_reconstruct_entries assms)

lemma frame_engine:
  assumes "engine_pure eng"
  shows "frame n (e_parse eng s)" and "frame n (e_buildSMILES eng v)"
    and "frame n (e_decompile eng v)" and "frame n (e_isValidRoundTrip eng s)"
    and "frame n (e_Ring eng v)" and "frame n (e_Linear eng x y z)"
    and "frame n (e_FusedRing eng v)" and "frame n (e_Molecule eng v)"
  using assms by (simp_all add: engine_pure_def)

lemma frame_objectToAst_body:
  assumes "engine_pure eng" and "\<And>x. frame n (self x)"
  shows "frame n (objectToAst_body eng self obj)"
  unfolding objectToAst_body_def
  by (intro frame_intros frame_engine assms)

lemma frame_objectToAst_st:
  assumes "engine_pure eng"
  shows "frame n (objectToAst_st eng d obj)"
proof (induction d arbitrary: obj)
  case 0
  show ?case by (simp add: frame_intros)
next
  case (Suc d)
  show ?case by (simp add: frame_objectToAst_body [OF assms Suc.IH])
qed

lemma frame_failure: "engine_pure eng \<Longrightarrow> frame n (failure_st eng e)"
  unfolding failure_st_def by (intro frame_intros)

lemma frame_extract_fragments:
  assumes "engine_pure eng" and "n \<le> a"
  shows "frame n (extract_fragments_st eng (RRef a) entries)"
proof (induction entries)
  case Nil
  show ?case by (simp add: frame_intros)
next
  case (Cons entry entries)
  obtain name fragment where entry: "entry = (name, fragment)" by (cases entry)
  show ?case
    unfolding entry
    by (auto intro!: frame_intros assms(1) Cons.IH frame_write [OF assms(2)])
qed

lemma frame_parse_smiles: "engine_pure eng \<Longrightarrow> frame n (parse_smiles_st eng d i)"
  unfolding parse_smiles_st_def
  by (intro frame_intros frame_engine frame_astToObject_st frame_failure)

lemma frame_build_smiles: "engine_pure eng \<Longrightarrow> frame n (build_smiles_st eng d j)"
  unfolding build_smiles_st_def
  by (intro frame_intros frame_engine frame_objectToAst_st frame_failure)

lemma frame_decompile_smiles: "engine_pure eng \<Longrightarrow> frame n (decompile_smiles_st eng i)"
  unfolding decompile_smiles_st_def
  by (intro frame_intros frame_engine frame_failure)

lemma frame_validate_roundtrip: "engine_pure eng \<Longrightarrow> frame n (validate_roundtrip_st eng i)"
  unfolding validate_roundtrip_st_def
  by (intro frame_intros frame_engine frame_failure)

lemma frame_get_common_fragments: "engine_pure eng \<Longrightarrow> frame n (get_common_fragments_st eng)"
  unfolding get_common_fragments_st_def
  by (intro frame_new_bind frame_bindS frame_new frame_extract_fragments)

lemma frame_unchanged: "frame (length h) m \<Longrightarrow> a < length h \<Longrightarrow> snd (m h) ! a = h ! a"
  by (simp add: frame_def)

lemma frame_longer: "frame (length h) m \<Longrightarrow> length h \<le> length (snd (m h))"
  by (simp add: frame_def)

lemma allocating_engine_pure: "engine_pure allocating_engine"
  by (simp add: engine_pure_def allocating_engine_def frame_intros)

lemma frame_reading: "frame n (\<lambda>h. (r h, h))"
  by (simp add: frame_def)

lemma counting_engine_pure: "engine_pure counting_engine"
  by (simp add: engine_pure_def counting_engine_def allocating_engine_def frame_intros
      frame_reading)

section \<open>Facts about the store: corresponding runs\<close>

lemma fresh_ref_rel: "fresh p x y \<Longrightarrow> ref_rel p x y"
  by (auto simp: fresh_def pairs_def split: ref.splits)

lemma ref_rel_truthy: "ref_rel p v w \<Longrightarrow> ref_truthy w = ref_truthy v"
  by (cases v; cases w) auto

lemma ref_rel_str: "ref_rel p v w \<Longrightarrow> (w = RStr s) = (v = RStr s)"
  by (cases v; cases w) auto

lemma ref_rel_undefined: "ref_rel p v w \<Longrightarrow> (w = RUndefined) = (v = RUndefined)"
  by (cases v; cases w) auto

lemma ref_rel_null: "ref_rel p v w \<Longrightarrow> (w = RNull) = (v = RNull)"
  by (cases v; cases w) auto

lemma pairs_in_range:
  "corresponding p h1 h2 \<Longrightarrow> pairs p a b \<Longrightarrow> (b < length h2) = (a < length h1)"
  by (auto simp: corresponding_def pairs_def)

lemma pairs_cells:
  "corresponding p h1 h2 \<Longrightarrow> pairs p a b \<Longrightarrow> a < length h1 \<Longrightarrow> cell_rel p (h1 ! a) (h2 ! b)"
  by (simp add: corresponding_def)

lemma cell_of_rel:
  "corresponding p h1 h2 \<Longrightarrow> ref_rel p v w \<Longrightarrow> rel_option (cell_rel p) (cell_of h1 v) (cell_of h2 w)"
  by (cases v; cases w) (auto simp: cell_of_def pairs_in_range pairs_cells)

lemma cell_rel_function: "cell_rel p c c' \<Longrightarrow> (c' = CFunction) = (c = CFunction)"
  by (cases c; cases c') auto

lemma ref_is_function_rel:
  assumes "corresponding p h1 h2" and "ref_rel p v w"
  shows "ref_is_function h2 w = ref_is_function h1 v"
  using cell_of_rel [OF assms]
  by (cases rule: option.rel_cases) (auto simp: ref_is_function_def dest: cell_rel_function)

lemma ref_is_object_rel:
  assumes "corresponding p h1 h2" and "ref_rel p v w"
  shows "ref_is_object h2 w = ref_is_object h1 v"
  using cell_of_rel [OF assms] ref_rel_null [OF assms(2)]
  by (cases rule: option.rel_cases) (auto simp: ref_is_object_def dest: cell_rel_function)

lemma ref_indexed_rel:
  "list_all2 (ref_rel p) xs ys \<Longrightarrow> props_rel p (ref_indexed i xs) (ref_indexed i ys)"
  unfolding props_rel_def
  by (induction xs ys arbitrary: i rule: list_all2_induct) auto

lemma entries_of_rel:
  assumes "corresponding p h1 h2" and "ref_rel p v w"
  shows "props_rel p (entries_of h1 v) (entries_of h2 w)"
proof (cases v)
  case (RStr s)
  with assms(2) have "w = RStr s" by (cases w) auto
  have "list_all2 (ref_rel p) (map (\<lambda>c. RStr [c]) s) (map (\<lambda>c. RStr [c]) s)"
    by (induction s) auto
  then show ?thesis using RStr \<open>w = RStr s\<close> by (simp add: entries_of_def ref_indexed_rel)
next
  case (RRef a)
  with assms(2) obtain b where w: "w = RRef b" by (cases w) auto
  from cell_of_rel [OF assms] show ?thesis
    unfolding RRef w
    by (cases "h1 ! a"; cases "h2 ! b")
       (auto simp: entries_of_def cell_of_def props_rel_def ref_indexed_rel [unfolded props_rel_def]
          split: if_splits)
qed (use assms(2) in \<open>cases w; auto simp: entries_of_def props_rel_def\<close>)+

lemma same_run_returnS: "A x y \<Longrightarrow> same_run p A (returnS x) (returnS y)"
  by (simp add: same_run_def returnS_def)

lemma same_run_readS:
  "(\<And>h1 h2. corresponding p h1 h2 \<Longrightarrow> A (f h1) (g h2)) \<Longrightarrow> same_run p A (readS f) (readS g)"
  by (simp add: same_run_def readS_def)

lemma same_run_weaken:
  assumes "same_run p A m1 m2" and "\<And>x y. A x y \<Longrightarrow> B x y"
  shows "same_run p B m1 m2"
  unfolding same_run_def
proof (intro allI impI)
  fix h1 h2
  assume c: "corresponding p h1 h2"
  from assms(1) [unfolded same_run_def, rule_format, OF c]
  have k: "corresponding p (snd (m1 h1)) (snd (m2 h2))"
    and r: "rel_sum (ref_rel p) A (fst (m1 h1)) (fst (m2 h2))"
    by simp_all
  from r assms(2) have "rel_sum (ref_rel p) B (fst (m1 h1)) (fst (m2 h2))"
    by (cases "fst (m1 h1)"; cases "fst (m2 h2)") simp_all
  with k show "corresponding p (snd (m1 h1)) (snd (m2 h2))
      \<and> rel_sum (ref_rel p) B (fst (m1 h1)) (fst (m2 h2))"
    by simp
qed

lemma same_run_bindS:
  assumes "same_run p A m1 m2" and "\<And>x y. A x y \<Longrightarrow> same_run p B (f x) (g y)"
  shows "same_run p B (bindS m1 f) (bindS m2 g)"
  unfolding same_run_def
proof (intro allI impI)
  fix h1 h2
  assume c: "corresponding p h1 h2"
  obtain r1 k1 where m1: "m1 h1 = (r1, k1)" by (cases "m1 h1")
  obtain r2 k2 where m2: "m2 h2 = (r2, k2)" by (cases "m2 h2")
  from assms(1) [unfolded same_run_def, rule_format, OF c] m1 m2
  have k: "corresponding p k1 k2" and r: "rel_sum (ref_rel p) A r1 r2"
    by simp_all
  show "corresponding p (snd (bindS m1 f h1)) (snd (bindS m2 g h2))
      \<and> rel_sum (ref_rel p) B (fst (bindS m1 f h1)) (fst (bindS m2 g h2))"
  proof (cases r1)
    case (Inl e1)
    with r obtain e2 where "r2 = Inl e2" and "ref_rel p e1 e2" by (cases r2) simp_all
    with Inl k m1 m2 show ?thesis by (simp add: bindS_def)
  next
    case (Inr x)
    with r obtain y where r2: "r2 = Inr y" and xy: "A x y" by (cases r2) simp_all
    from assms(2) [OF xy, unfolded same_run_def, rule_format, OF k]
    show ?thesis using Inr r2 m1 m2 by (simp add: bindS_def)
  qed
qed

lemma same_run_catchS:
  assumes "same_run p A m1 m2" and "\<And>x y. ref_rel p x y \<Longrightarrow> same_run p A (f x) (g y)"
  shows "same_run p A (catchS m1 f) (catchS m2 g)"
  unfolding same_run_def
proof (intro allI impI)
  fix h1 h2
  assume c: "corresponding p h1 h2"
  obtain r1 k1 where m1: "m1 h1 = (r1, k1)" by (cases "m1 h1")
  obtain r2 k2 where m2: "m2 h2 = (r2, k2)" by (cases "m2 h2")
  from assms(1) [unfolded same_run_def, rule_format, OF c] m1 m2
  have k: "corresponding p k1 k2" and r: "rel_sum (ref_rel p) A r1 r2"
    by simp_all
  show "corresponding p (snd (catchS m1 f h1)) (snd (catchS m2 g h2))
      \<and> rel_sum (ref_rel p) A (fst (catchS m1 f h1)) (fst (catchS m2 g h2))"
  proof (cases r1)
    case (Inr x)
    with r obtain y where "r2 = Inr y" and "A x y" by (cases r2) simp_all
    with Inr k m1 m2 show ?thesis by (simp add: catchS_def)
  next
    case (Inl x)
    with r obtain y where r2: "r2 = Inl y" and xy: "ref_rel p x y" by (cases r2) simp_all
    from assms(2) [OF xy, unfolded same_run_def, rule_format, OF k]
    show ?thesis using Inl r2 m1 m2 by (simp add: catchS_def)
  qed
qed

lemma corresponding_append:
  assumes "corresponding p h1 h2" and "cell_rel p c c'"
  shows "corresponding p (h1 @ [c]) (h2 @ [c'])"
  unfolding corresponding_def
proof (intro conjI allI impI)
  fix a b
  assume ab: "pairs p a b \<and> a < length (h1 @ [c])"
  show "cell_rel p ((h1 @ [c]) ! a) ((h2 @ [c']) ! b)"
  proof (cases "a < length h1")
    case True
    with assms(1) ab have "b < length h2" by (simp add: pairs_in_range)
    with True assms(1) ab show ?thesis by (simp add: nth_append pairs_cells)
  next
    case False
    with ab have a: "a = length h1" by simp
    with assms(1) ab have "b = length h2" by (auto simp: corresponding_def pairs_def)
    with a assms(2) show ?thesis by simp
  qed
qed (use assms(1) in \<open>auto simp: corresponding_def\<close>)

lemma fresh_lengths: "corresponding p h1 h2 \<Longrightarrow> fresh p (RRef (length h1)) (RRef (length h2))"
  by (auto simp: fresh_def corresponding_def)

lemma same_run_new: "cell_rel p c c' \<Longrightarrow> same_run p (fresh p) (new c) (new c')"
  by (simp add: same_run_def new_def corresponding_append fresh_lengths)

lemma same_run_new_ref: "cell_rel p c c' \<Longrightarrow> same_run p (ref_rel p) (new c) (new c')"
  by (rule same_run_weaken [OF same_run_new]) (simp_all add: fresh_ref_rel)

lemma pairs_lengths: "corresponding p h1 h2 \<Longrightarrow> pairs p (length h1) (length h2)"
  by (auto simp: pairs_def corresponding_def)

lemma same_run_raise: "same_run p A (raise msg) (raise msg)"
  by (simp add: same_run_def raise_def corresponding_append pairs_lengths)

lemma props_rel_map_of:
  "props_rel p ps qs \<Longrightarrow> rel_option (ref_rel p) (map_of ps k) (map_of qs k)"
  unfolding props_rel_def
  by (induction ps qs rule: list_all2_induct) auto

lemma props_rel_set_prop:
  "props_rel p ps qs \<Longrightarrow> ref_rel p v w \<Longrightarrow> props_rel p (ref_set_prop ps k v) (ref_set_prop qs k w)"
  unfolding props_rel_def
  by (induction ps qs rule: list_all2_induct) auto

lemma cell_rel_written:
  "cell_rel p c c' \<Longrightarrow> ref_rel p v w \<Longrightarrow> cell_rel p (written c k v) (written c' k w)"
  using props_rel_set_prop [of p _ _ v w k]
  by (cases c; cases c'; cases v; cases w) (auto simp: written_def props_rel_def)

lemma fresh_unique:
  "fresh p (RRef a) (RRef b) \<Longrightarrow> pairs p a' b' \<Longrightarrow> (a' = a) = (b' = b)"
  by (auto simp: fresh_def pairs_def)

lemma same_run_write:
  assumes "fresh p x y" and "ref_rel p v w"
  shows "same_run p (=) (write_prop x k v) (write_prop y k w)"
proof -
  from assms(1) obtain a b where x: "x = RRef a" and y: "y = RRef b"
    by (cases x; cases y) (simp_all add: fresh_def)
  from assms(1) have ab: "pairs p a b" unfolding x y using fresh_ref_rel by fastforce
  show ?thesis
    unfolding same_run_def
  proof (intro allI impI)
    fix h1 h2
    assume c: "corresponding p h1 h2"
    show "corresponding p (snd (write_prop x k v h1)) (snd (write_prop y k w h2))
        \<and> rel_sum (ref_rel p) (=) (fst (write_prop x k v h1)) (fst (write_prop y k w h2))"
    proof (cases "a < length h1")
      case False
      with pairs_in_range [OF c ab] c show ?thesis by (simp add: write_prop_def x y)
    next
      case True
      with pairs_in_range [OF c ab] have b: "b < length h2" by simp
      have "corresponding p (h1[a := written (h1 ! a) k v]) (h2[b := written (h2 ! b) k w])"
        unfolding corresponding_def
      proof (intro conjI allI impI)
        fix a' b'
        assume *: "pairs p a' b' \<and> a' < length (h1[a := written (h1 ! a) k v])"
        then have p': "pairs p a' b'" and a': "a' < length h1" by simp_all
        from pairs_in_range [OF c p'] a' have b': "b' < length h2" by simp
        show "cell_rel p (h1[a := written (h1 ! a) k v] ! a') (h2[b := written (h2 ! b) k w] ! b')"
        proof (cases "a' = a")
          case True
          with fresh_unique [OF assms(1) [unfolded x y] p'] have "b' = b" by simp
          with True \<open>a < length h1\<close> b cell_rel_written [OF pairs_cells [OF c ab \<open>a < length h1\<close>] assms(2)]
          show ?thesis by simp
        next
          case False
          with fresh_unique [OF assms(1) [unfolded x y] p'] have "b' \<noteq> b" by simp
          with False pairs_cells [OF c p' a'] show ?thesis by simp
        qed
      qed (use c in \<open>auto simp: corresponding_def\<close>)
      with True b show ?thesis by (simp add: write_prop_def x y)
    qed
  qed
qed

lemma same_run_if:
  "c' = c \<Longrightarrow> (c \<Longrightarrow> same_run p A a a') \<Longrightarrow> (\<not> c \<Longrightarrow> same_run p A b b') \<Longrightarrow>
   same_run p A (if c then a else b) (if c' then a' else b')"
  by simp

lemma same_run_orNew:
  "ref_rel p v w \<Longrightarrow> cell_rel p c c' \<Longrightarrow> same_run p (ref_rel p) (orNew v c) (orNew w c')"
  by (simp add: orNew_def ref_rel_truthy [of p v w] same_run_returnS same_run_new_ref)

lemma same_run_engine:
  assumes "engine_deterministic eng p"
  shows "same_run p (ref_rel p) (e_parse eng s) (e_parse eng s)"
    and "ref_rel p v w \<Longrightarrow> same_run p (=) (e_buildSMILES eng v) (e_buildSMILES eng w)"
    and "ref_rel p v w \<Longrightarrow> same_run p (=) (e_decompile eng v) (e_decompile eng w)"
    and "same_run p (=) (e_isValidRoundTrip eng s) (e_isValidRoundTrip eng s)"
    and "ref_rel p v w \<Longrightarrow> same_run p (ref_rel p) (e_Ring eng v) (e_Ring eng w)"
    and "ref_rel p a a' \<Longrightarrow> ref_rel p b b' \<Longrightarrow> ref_rel p c c' \<Longrightarrow>
         same_run p (ref_rel p) (e_Linear eng a b c) (e_Linear eng a' b' c')"
    and "ref_rel p v w \<Longrightarrow> same_run p (ref_rel p) (e_FusedRing eng v) (e_FusedRing eng w)"
    and "ref_rel p v w \<Longrightarrow> same_run p (ref_rel p) (e_Molecule eng v) (e_Molecule eng w)"
    and "ref_rel p v w \<Longrightarrow> same_run p (ref_rel p) (e_member eng v k) (e_member eng w k)"
    and "ref_rel p f g \<Longrightarrow> ref_rel p v w \<Longrightarrow> same_run p (ref_rel p) (e_call eng f v) (e_call eng g w)"
  using assms by (auto simp: engine_deterministic_def)

lemma same_run_read_member:
  assumes "engine_deterministic eng p" and "ref_rel p v w"
  shows "same_run p (ref_rel p) (read_member eng v k) (read_member eng w k)"
proof (cases v)
  case (RRef a)
  with assms(2) obtain b where w: "w = RRef b" by (cases w) auto
  from assms(2) have ab: "ref_rel p (RRef a) (RRef b)" by (simp add: RRef w)
  show ?thesis
    unfolding RRef w read_member_def ref.case
  proof (rule same_run_bindS [where A = "rel_option (cell_rel p)"])
    show "same_run p (rel_option (cell_rel p))
        (readS (\<lambda>h. cell_of h (RRef a))) (readS (\<lambda>h. cell_of h (RRef b)))"
      by (rule same_run_readS) (rule cell_of_rel [OF _ ab])
  next
    fix c c'
    assume "rel_option (cell_rel p) c c'"
    then show "same_run p (ref_rel p)
        (case c of
              Some (CObject ps proto) \<Rightarrow>
                (case map_of ps k of Some x \<Rightarrow> returnS x | None \<Rightarrow> e_member eng (RRef a) k)
            | Some (CError msg) \<Rightarrow>
                if k = ''message'' then returnS (RStr msg) else e_member eng (RRef a) k
            | _ \<Rightarrow> returnS RUndefined)
        (case c' of
              Some (CObject ps proto) \<Rightarrow>
                (case map_of ps k of Some x \<Rightarrow> returnS x | None \<Rightarrow> e_member eng (RRef b) k)
            | Some (CError msg) \<Rightarrow>
                if k = ''message'' then returnS (RStr msg) else e_member eng (RRef b) k
            | _ \<Rightarrow> returnS RUndefined)"
    proof (cases rule: option.rel_cases)
      case None
      then show ?thesis by (simp add: same_run_returnS)
    next
      case (Some x y)
      show ?thesis
      proof (cases x)
        case (CObject ps proto)
        with Some obtain qs proto' where y: "y = CObject qs proto'" and ps: "props_rel p ps qs"
          by (cases y) (auto simp: props_rel_def)
        from props_rel_map_of [OF ps, of k] show ?thesis
          unfolding Some CObject y
          by (cases rule: option.rel_cases)
             (simp_all add: same_run_returnS same_run_engine(9) [OF assms(1) ab])
      next
        case (CError msg)
        with Some have "y = CError msg" by (cases y) auto
        with Some CError show ?thesis
          by (simp add: same_run_returnS same_run_engine(9) [OF assms(1) ab])
      next
        case (CArray xs)
        with Some obtain ys where "y = CArray ys" by (cases y) auto
        with Some CArray show ?thesis by (simp add: same_run_returnS)
      next
        case CFunction
        with Some have "y = CFunction" by (cases y) auto
        with Some CFunction show ?thesis by (simp add: same_run_returnS)
      qed
    qed
  qed
qed (use assms(2) in \<open>cases w; auto simp: read_member_def same_run_raise same_run_returnS\<close>)+

lemma same_run_invoke:
  assumes "engine_deterministic eng p" and "ref_rel p f g" and "ref_rel p v w"
  shows "same_run p (ref_rel p) (invoke eng name f v) (invoke eng name g w)"
  unfolding invoke_def
proof (rule same_run_bindS [where A = "(=)"])
  show "same_run p (=) (readS (\<lambda>h. ref_is_function h f)) (readS (\<lambda>h. ref_is_function h g))"
    by (rule same_run_readS) (simp add: ref_is_function_rel [OF _ assms(2)])
next
  fix x y :: bool
  assume "x = y"
  then show "same_run p (ref_rel p)
       (if x then e_call eng f v else raise (name @ '' is not a function''))
       (if y then e_call eng g w else raise (name @ '' is not a function''))"
    by (simp add: same_run_raise same_run_engine(10) [OF assms])
qed

lemma same_run_mapS:
  assumes "\<And>x y. ref_rel p x y \<Longrightarrow> same_run p (ref_rel p) (f x) (g y)"
    and "list_all2 (ref_rel p) xs ys"
  shows "same_run p (list_all2 (ref_rel p)) (mapS f xs) (mapS g ys)"
  using assms(2)
proof (induction xs ys rule: list_all2_induct)
  case Nil
  show ?case by (simp add: same_run_returnS)
next
  case (Cons x xs y ys)
  show ?case
    unfolding mapS.simps
  proof (rule same_run_bindS [OF assms(1) [OF Cons.hyps(1)]])
    fix x' y'
    assume xy: "ref_rel p x' y'"
    show "same_run p (list_all2 (ref_rel p))
        (bindS (mapS f xs) (\<lambda>ys. returnS (x' # ys))) (bindS (mapS g ys) (\<lambda>ys. returnS (y' # ys)))"
      by (rule same_run_bindS [OF Cons.IH]) (simp add: same_run_returnS xy)
  qed
qed

lemma same_run_map_new:
  assumes "\<And>x y. ref_rel p x y \<Longrightarrow> same_run p (ref_rel p) (f x) (g y)"
    and "list_all2 (ref_rel p) xs ys"
  shows "same_run p (ref_rel p)
     (bindS (mapS f xs) (\<lambda>ys. new (CArray ys))) (bindS (mapS g ys) (\<lambda>ys. new (CArray ys)))"
proof (rule same_run_bindS [OF same_run_mapS [OF assms]])
  fix xs' ys'
  assume "list_all2 (ref_rel p) xs' ys'"
  then have "cell_rel p (CArray xs') (CArray ys')" by simp
  then show "same_run p (ref_rel p) (new (CArray xs')) (new (CArray ys'))"
    by (rule same_run_new_ref)
qed

lemma same_run_astToObject_entries:
  assumes self: "\<And>x y. ref_rel p x y \<Longrightarrow> same_run p (ref_rel p) (self x) (self y)"
    and fresh: "fresh p r r'"
    and entries: "props_rel p ps qs"
  shows "same_run p (ref_rel p) (astToObject_entries_st self r ps) (astToObject_entries_st self r' qs)"
  using entries unfolding props_rel_def
proof (induction ps qs rule: list_all2_induct)
  case Nil
  show ?case by (simp add: same_run_returnS fresh_ref_rel [OF fresh])
next
  case (Cons e ps e' qs)
  obtain key val where e: "e = (key, val)" by (cases e)
  with Cons.hyps(1) obtain val' where e': "e' = (key, val')" and val: "ref_rel p val val'"
    by (cases e') auto
  have step: "same_run p (ref_rel p)
      (bindS (self val) (\<lambda>v. bindS (write_prop r key v) (\<lambda>u. astToObject_entries_st self r ps)))
      (bindS (self val') (\<lambda>v. bindS (write_prop r' key v) (\<lambda>u. astToObject_entries_st self r' qs)))"
  proof (rule same_run_bindS [OF self [OF val]])
    fix v w
    assume "ref_rel p v w"
    from same_run_write [OF fresh this]
    show "same_run p (ref_rel p)
        (bindS (write_prop r key v) (\<lambda>u. astToObject_entries_st self r ps))
        (bindS (write_prop r' key w) (\<lambda>u. astToObject_entries_st self r' qs))"
      by (rule same_run_bindS) (rule Cons.IH)
  qed
  have "same_run p (ref_rel p)
      (bindS (readS (\<lambda>h. ref_is_function h val)) (\<lambda>is_function.
            if is_function then astToObject_entries_st self r ps
            else
              bindS (self val) (\<lambda>v.
              bindS (write_prop r key v) (\<lambda>u.
                astToObject_entries_st self r ps))))
      (bindS (readS (\<lambda>h. ref_is_function h val')) (\<lambda>is_function.
            if is_function then astToObject_entries_st self r' qs
            else
              bindS (self val') (\<lambda>v.
              bindS (write_prop r' key v) (\<lambda>u.
                astToObject_entries_st self r' qs))))"
  proof (rule same_run_bindS [where A = "(=)"])
    show "same_run p (=) (readS (\<lambda>h. ref_is_function h val)) (readS (\<lambda>h. ref_is_function h val'))"
      by (rule same_run_readS) (simp add: ref_is_function_rel [OF _ val])
  next
    fix x y :: bool
    assume "x = y"
    with step Cons.IH show "same_run p (ref_rel p)
        (if x then astToObject_entries_st self r ps
         else bindS (self val) (\<lambda>v. bindS (write_prop r key v) (\<lambda>u. astToObject_entries_st self r ps)))
        (if y then astToObject_entries_st self r' qs
         else bindS (self val') (\<lambda>v. bindS (write_prop r' key v) (\<lambda>u. astToObject_entries_st self r' qs)))"
      by simp
  qed
  with Cons.IH show ?case by (simp add: e e')
qed

lemma same_run_new_entries:
  assumes "\<And>r r' ps qs. fresh p r r' \<Longrightarrow> props_rel p ps qs \<Longrightarrow> same_run p (ref_rel p) (f r ps) (g r' qs)"
    and "ref_rel p v w"
  shows "same_run p (ref_rel p)
     (bindS (new (CObject [] None)) (\<lambda>result. bindS (readS (\<lambda>h. entries_of h v)) (f result)))
     (bindS (new (CObject [] None)) (\<lambda>result. bindS (readS (\<lambda>h. entries_of h w)) (g result)))"
proof (rule same_run_bindS [OF same_run_new])
  show "cell_rel p (CObject [] None) (CObject [] None)" by simp
next
  fix r r'
  assume fresh: "fresh p r r'"
  show "same_run p (ref_rel p)
      (bindS (readS (\<lambda>h. entries_of h v)) (f r)) (bindS (readS (\<lambda>h. entries_of h w)) (g r'))"
  proof (rule same_run_bindS [where A = "props_rel p"])
    show "same_run p (props_rel p) (readS (\<lambda>h. entries_of h v)) (readS (\<lambda>h. entries_of h w))"
      by (rule same_run_readS) (rule entries_of_rel [OF _ assms(2)])
  qed (rule assms(1) [OF fresh])
qed

lemma same_run_array_or:
  assumes "ref_rel p v w"
    and "\<And>xs ys. list_all2 (ref_rel p) xs ys \<Longrightarrow> same_run p A (f xs) (g ys)"
    and "same_run p A m1 m2"
  shows "same_run p A
     (bindS (readS (\<lambda>h. cell_of h v)) (\<lambda>c. case c of Some (CArray xs) \<Rightarrow> f xs | _ \<Rightarrow> m1))
     (bindS (readS (\<lambda>h. cell_of h w)) (\<lambda>c. case c of Some (CArray xs) \<Rightarrow> g xs | _ \<Rightarrow> m2))"
proof (rule same_run_bindS [where A = "rel_option (cell_rel p)"])
  show "same_run p (rel_option (cell_rel p)) (readS (\<lambda>h. cell_of h v)) (readS (\<lambda>h. cell_of h w))"
    by (rule same_run_readS) (rule cell_of_rel [OF _ assms(1)])
next
  fix c c'
  assume "rel_option (cell_rel p) c c'"
  then show "same_run p A
      (case c of Some (CArray xs) \<Rightarrow> f xs | _ \<Rightarrow> m1) (case c' of Some (CArray xs) \<Rightarrow> g xs | _ \<Rightarrow> m2)"
  proof (cases rule: option.rel_cases)
    case None
    with assms(3) show ?thesis by simp
  next
    case (Some x y)
    with assms(2,3) show ?thesis by (cases x; cases y) simp_all
  qed
qed

lemma same_run_astToObject_body:
  assumes det: "engine_deterministic eng p"
    and self: "\<And>x y. ref_rel p x y \<Longrightarrow> same_run p (ref_rel p) (self x) (self y)"
    and rel: "ref_rel p node node'"
  shows "same_run p (ref_rel p) (astToObject_body eng self node) (astToObject_body eng self node')"
  unfolding astToObject_body_def
proof (rule same_run_bindS [where A = "(=)"])
  show "same_run p (=) (readS (\<lambda>h. ref_is_object h node)) (readS (\<lambda>h. ref_is_object h node'))"
    by (rule same_run_readS) (simp add: ref_is_object_rel [OF _ rel])
next
  fix is_object is_object' :: bool
  assume same: "is_object = is_object'"
  have inner: "same_run p (ref_rel p)
      (bindS (readS (\<lambda>h. cell_of h node)) (\<lambda>c.
               case c of
                 Some (CArray xs) \<Rightarrow> bindS (mapS self xs) (\<lambda>ys. new (CArray ys))
               | _ \<Rightarrow>
                   bindS (new (CObject [] None)) (\<lambda>result.
                   bindS (readS (\<lambda>h. entries_of h node)) (\<lambda>entries.
                     astToObject_entries_st self result entries))))
      (bindS (readS (\<lambda>h. cell_of h node')) (\<lambda>c.
               case c of
                 Some (CArray xs) \<Rightarrow> bindS (mapS self xs) (\<lambda>ys. new (CArray ys))
               | _ \<Rightarrow>
                   bindS (new (CObject [] None)) (\<lambda>result.
                   bindS (readS (\<lambda>h. entries_of h node')) (\<lambda>entries.
                     astToObject_entries_st self result entries))))"
    by (rule same_run_array_or [OF rel same_run_map_new [OF self]
          same_run_new_entries [OF same_run_astToObject_entries [OF self] rel]])
  have "same_run p (ref_rel p)
      (bindS (read_member eng node ''toObject'') (\<lambda>m.
           if ref_truthy m then invoke eng ''node.toObject'' m node
           else
             bindS (readS (\<lambda>h. cell_of h node)) (\<lambda>c.
               case c of
                 Some (CArray xs) \<Rightarrow> bindS (mapS self xs) (\<lambda>ys. new (CArray ys))
               | _ \<Rightarrow>
                   bindS (new (CObject [] None)) (\<lambda>result.
                   bindS (readS (\<lambda>h. entries_of h node)) (\<lambda>entries.
                     astToObject_entries_st self result entries)))))
      (bindS (read_member eng node' ''toObject'') (\<lambda>m.
           if ref_truthy m then invoke eng ''node.toObject'' m node'
           else
             bindS (readS (\<lambda>h. cell_of h node')) (\<lambda>c.
               case c of
                 Some (CArray xs) \<Rightarrow> bindS (mapS self xs) (\<lambda>ys. new (CArray ys))
               | _ \<Rightarrow>
                   bindS (new (CObject [] None)) (\<lambda>result.
                   bindS (readS (\<lambda>h. entries_of h node')) (\<lambda>entries.
                     astToObject_entries_st self result entries)))))"
  proof (rule same_run_bindS [OF same_run_read_member [OF det rel]])
    fix m m'
    assume m: "ref_rel p m m'"
    from inner same_run_invoke [OF det m rel, of "''node.toObject''"] ref_rel_truthy [OF m]
    show "same_run p (ref_rel p)
        (if ref_truthy m then invoke eng ''node.toObject'' m node
           else
             bindS (readS (\<lambda>h. cell_of h node)) (\<lambda>c.
               case c of
                 Some (CArray xs) \<Rightarrow> bindS (mapS self xs) (\<lambda>ys. new (CArray ys))
               | _ \<Rightarrow>
                   bindS (new (CObject [] None)) (\<lambda>result.
                   bindS (readS (\<lambda>h. entries_of h node)) (\<lambda>entries.
                     astToObject_entries_st self result entries))))
        (if ref_truthy m' then invoke eng ''node.toObject'' m' node'
           else
             bindS (readS (\<lambda>h. cell_of h node')) (\<lambda>c.
               case c of
                 Some (CArray xs) \<Rightarrow> bindS (mapS self xs) (\<lambda>ys. new (CArray ys))
               | _ \<Rightarrow>
                   bindS (new (CObject [] None)) (\<lambda>result.
                   bindS (readS (\<lambda>h. entries_of h node')) (\<lambda>entries.
                     astToObject_entries_st self result entries))))"
      by simp
  qed
  with same ref_rel_truthy [OF rel] rel
  show "same_run p (ref_rel p)
      (if \<not> ref_truthy node \<or> \<not> is_object then returnS node
       else
         bindS (read_member eng node ''toObject'') (\<lambda>m.
           if ref_truthy m then invoke eng ''node.toObject'' m node
           else
             bindS (readS (\<lambda>h. cell_of h node)) (\<lambda>c.
               case c of
                 Some (CArray xs) \<Rightarrow> bindS (mapS self xs) (\<lambda>ys. new (CArray ys))
               | _ \<Rightarrow>
                   bindS (new (CObject [] None)) (\<lambda>result.
                   bindS (readS (\<lambda>h. entries_of h node)) (\<lambda>entries.
                     astToObject_entries_st self result entries)))))
      (if \<not> ref_truthy node' \<or> \<not> is_object' then returnS node'
       else
         bindS (read_member eng node' ''toObject'') (\<lambda>m.
           if ref_truthy m then invoke eng ''node.toObject'' m node'
           else
             bindS (readS (\<lambda>h. cell_of h node')) (\<lambda>c.
               case c of
                 Some (CArray xs) \<Rightarrow> bindS (mapS self xs) (\<lambda>ys. new (CArray ys))
               | _ \<Rightarrow>
                   bindS (new (CObject [] None)) (\<lambda>result.
                   bindS (readS (\<lambda>h. entries_of h node')) (\<lambda>entries.
                     astToObject_entries_st self result entries)))))"
    by (simp add: same_run_returnS)
qed

lemma same_run_astToObject_st:
  assumes "engine_deterministic eng p"
  shows "ref_rel p node node' \<Longrightarrow>
    same_run p (ref_rel p) (astToObject_st eng d node) (astToObject_st eng d node')"
proof (induction d arbitrary: node node')
  case 0
  show ?case by (simp add: same_run_raise)
next
  case (Suc d)
  show ?case
    unfolding astToObject_st.simps
    by (rule same_run_astToObject_body [OF assms Suc.IH Suc.prems])
qed

lemma same_run_map_objectToAst:
  assumes det: "engine_deterministic eng p"
    and self: "\<And>x y. ref_rel p x y \<Longrightarrow> same_run p (ref_rel p) (self x) (self y)"
    and rel: "ref_rel p v w"
  shows "same_run p (ref_rel p) (map_objectToAst_st eng self name v) (map_objectToAst_st eng self name w)"
  unfolding map_objectToAst_st_def
proof (rule same_run_array_or [OF rel same_run_map_new [OF self]])
  show "same_run p (ref_rel p)
      (bindS (read_member eng v ''map'') (\<lambda>m. invoke eng name m v))
      (bindS (read_member eng w ''map'') (\<lambda>m. invoke eng name m w))"
    by (rule same_run_bindS [OF same_run_read_member [OF det rel]])
       (rule same_run_invoke [OF det _ rel])
qed

lemma same_run_reconstruct_entries:
  assumes det: "engine_deterministic eng p"
    and self: "\<And>x y. ref_rel p x y \<Longrightarrow> same_run p (ref_rel p) (self x) (self y)"
    and fresh: "fresh p r r'"
    and entries: "props_rel p ps qs"
  shows "same_run p (ref_rel p)
     (reconstruct_entries_st eng self r ps) (reconstruct_entries_st eng self r' qs)"
  using entries unfolding props_rel_def
proof (induction ps qs rule: list_all2_induct)
  case Nil
  show ?case by (simp add: same_run_returnS fresh_ref_rel [OF fresh])
next
  case (Cons e ps e' qs)
  obtain pos list where e: "e = (pos, list)" by (cases e)
  with Cons.hyps(1) obtain list' where e': "e' = (pos, list')" and list: "ref_rel p list list'"
    by (cases e') auto
  have "same_run p (ref_rel p)
      (bindS (map_objectToAst_st eng self ''list.map'' list) (\<lambda>v.
        bindS (write_prop r pos v) (\<lambda>u. reconstruct_entries_st eng self r ps)))
      (bindS (map_objectToAst_st eng self ''list.map'' list') (\<lambda>v.
        bindS (write_prop r' pos v) (\<lambda>u. reconstruct_entries_st eng self r' qs)))"
  proof (rule same_run_bindS [OF same_run_map_objectToAst [OF det self list]])
    fix v w
    assume "ref_rel p v w"
    from same_run_write [OF fresh this]
    show "same_run p (ref_rel p)
        (bindS (write_prop r pos v) (\<lambda>u. reconstruct_entries_st eng self r ps))
        (bindS (write_prop r' pos w) (\<lambda>u. reconstruct_entries_st eng self r' qs))"
      by (rule same_run_bindS) (rule Cons.IH)
  qed
  then show ?case by (simp add: e e')
qed

lemma same_run_reconstructAttachments:
  assumes det: "engine_deterministic eng p"
    and self: "\<And>x y. ref_rel p x y \<Longrightarrow> same_run p (ref_rel p) (self x) (self y)"
    and rel: "ref_rel p v w"
  shows "same_run p (ref_rel p)
     (reconstructAttachments_st eng self v) (reconstructAttachments_st eng self w)"
proof (cases "ref_truthy v")
  case False
  with ref_rel_truthy [OF rel] show ?thesis
    by (simp add: reconstructAttachments_st_def same_run_new_ref)
next
  case True
  with ref_rel_truthy [OF rel]
    same_run_new_entries [OF same_run_reconstruct_entries [OF det self] rel]
  show ?thesis by (simp add: reconstructAttachments_st_def)
qed

lemma same_run_bind_member:
  assumes "engine_deterministic eng p" and "ref_rel p v w"
    and "\<And>x y. ref_rel p x y \<Longrightarrow> same_run p A (f x) (g y)"
  shows "same_run p A (bindS (read_member eng v k) f) (bindS (read_member eng w k) g)"
  by (rule same_run_bindS [OF same_run_read_member [OF assms(1,2)] assms(3)])

lemma same_run_bind_orNew:
  assumes "ref_rel p v w" and "cell_rel p c c"
    and "\<And>x y. ref_rel p x y \<Longrightarrow> same_run p A (f x) (g y)"
  shows "same_run p A (bindS (orNew v c) f) (bindS (orNew w c) g)"
  by (rule same_run_bindS [OF same_run_orNew [OF assms(1,2)] assms(3)])

lemma same_run_bind_new:
  assumes "cell_rel p c c'"
    and "\<And>x y. ref_rel p x y \<Longrightarrow> same_run p A (f x) (g y)"
  shows "same_run p A (bindS (new c) f) (bindS (new c') g)"
  by (rule same_run_bindS [OF same_run_new_ref [OF assms(1)] assms(2)])

lemma same_run_bind_reconstruct:
  assumes "engine_deterministic eng p"
    and "\<And>x y. ref_rel p x y \<Longrightarrow> same_run p (ref_rel p) (self x) (self y)"
    and "ref_rel p v w"
    and "\<And>x y. ref_rel p x y \<Longrightarrow> same_run p A (f x) (g y)"
  shows "same_run p A
     (bindS (reconstructAttachments_st eng self v) f) (bindS (reconstructAttachments_st eng self w) g)"
  by (rule same_run_bindS [OF same_run_reconstructAttachments [OF assms(1,2,3)] assms(4)])

lemma same_run_bind_map:
  assumes "engine_deterministic eng p"
    and "\<And>x y. ref_rel p x y \<Longrightarrow> same_run p (ref_rel p) (self x) (self y)"
    and "ref_rel p v w"
    and "\<And>x y. ref_rel p x y \<Longrightarrow> same_run p A (f x) (g y)"
  shows "same_run p A
     (bindS (map_objectToAst_st eng self name v) f) (bindS (map_objectToAst_st eng self name w) g)"
  by (rule same_run_bindS [OF same_run_map_objectToAst [OF assms(1,2,3)] assms(4)])

lemma same_run_if_str:
  assumes "ref_rel p v w"
    and "v = RStr s \<Longrightarrow> same_run p A a a'" and "v \<noteq> RStr s \<Longrightarrow> same_run p A b b'"
  shows "same_run p A (if v = RStr s then a else b) (if w = RStr s then a' else b')"
  using assms ref_rel_str [OF assms(1), of s] by simp

lemma ring_options_rel:
  assumes "ref_rel p atoms atoms'" and "ref_rel p sz sz'" and "ref_rel p ringNumber ringNumber'"
    and "ref_rel p offset offset'" and "ref_rel p substitutions substitutions'"
    and "ref_rel p attachments attachments'" and "ref_rel p bonds bonds'"
  shows "cell_rel p
     (CObject
        [(''atoms'', atoms),
         (''size'', sz),
         (''ringNumber'', if ref_truthy ringNumber then ringNumber else RNum 1),
         (''offset'', if ref_truthy offset then offset else RNum 0),
         (''substitutions'', substitutions),
         (''attachments'', attachments),
         (''bonds'', bonds)] None)
     (CObject
        [(''atoms'', atoms'),
         (''size'', sz'),
         (''ringNumber'', if ref_truthy ringNumber' then ringNumber' else RNum 1),
         (''offset'', if ref_truthy offset' then offset' else RNum 0),
         (''substitutions'', substitutions'),
         (''attachments'', attachments'),
         (''bonds'', bonds')] None)"
  using assms ref_rel_truthy [OF assms(3)] ref_rel_truthy [OF assms(4)] by simp

lemma same_run_return_ref: "ref_rel p x y \<Longrightarrow> same_run p (ref_rel p) (returnS x) (returnS y)"
  by (rule same_run_returnS)

lemma same_run_objectToAst_body:
  assumes det: "engine_deterministic eng p"
    and self: "\<And>x y. ref_rel p x y \<Longrightarrow> same_run p (ref_rel p) (self x) (self y)"
    and rel: "ref_rel p obj obj'"
  shows "same_run p (ref_rel p) (objectToAst_body eng self obj) (objectToAst_body eng self obj')"
  unfolding objectToAst_body_def
  apply (rule same_run_bindS [where A = "(=)"])
   apply (rule same_run_readS)
   apply (simp add: ref_is_object_rel [OF _ rel])
  apply (rule same_run_if)
    apply (simp add: ref_rel_truthy [OF rel])
   apply (rule same_run_return_ref [OF rel])
  apply (intro same_run_bind_member [OF det rel] same_run_if_str same_run_bind_orNew
      same_run_bind_reconstruct [OF det self] same_run_bind_map [OF det self]
      same_run_bind_new same_run_engine(5-8) [OF det] same_run_return_ref [OF rel]
      ring_options_rel)
  apply simp_all
  done

lemma same_run_objectToAst_st:
  assumes "engine_deterministic eng p"
  shows "ref_rel p obj obj' \<Longrightarrow>
    same_run p (ref_rel p) (objectToAst_st eng d obj) (objectToAst_st eng d obj')"
proof (induction d arbitrary: obj obj')
  case 0
  show ?case by (simp add: same_run_raise)
next
  case (Suc d)
  show ?case
    unfolding objectToAst_st.simps
    by (rule same_run_objectToAst_body [OF assms Suc.IH Suc.prems])
qed

lemma same_run_failure:
  assumes "engine_deterministic eng p" and "ref_rel p e e'"
  shows "same_run p (ref_rel p) (failure_st eng e) (failure_st eng e')"
  unfolding failure_st_def
  by (intro same_run_bind_member [OF assms] same_run_new_ref) simp

lemma same_run_parse_smiles:
  assumes "engine_deterministic eng p"
  shows "same_run p (ref_rel p) (parse_smiles_st eng d i) (parse_smiles_st eng d i)"
  unfolding parse_smiles_st_def
  apply (rule same_run_catchS [OF _ same_run_failure [OF assms]])
   apply (rule same_run_bindS [OF same_run_engine(1) [OF assms]])
   apply (rule same_run_bindS [OF same_run_astToObject_st [OF assms]])
    apply assumption
   apply (rule same_run_new_ref)
   apply simp
  apply assumption
  done

lemma same_run_build_smiles:
  assumes "engine_deterministic eng p" and "ref_rel p (ast_ref j) (ast_ref j')"
  shows "same_run p (ref_rel p) (build_smiles_st eng d j) (build_smiles_st eng d j')"
  unfolding build_smiles_st_def
  apply (rule same_run_catchS [OF _ same_run_failure [OF assms(1)]])
   apply (rule same_run_bindS [OF same_run_objectToAst_st [OF assms]])
   apply (rule same_run_bindS [where A = "(=)"])
    apply (rule same_run_engine(2) [OF assms(1)])
    apply assumption
   apply (rule same_run_new_ref)
   apply simp
  apply assumption
  done

lemma same_run_decompile_smiles:
  assumes "engine_deterministic eng p"
  shows "same_run p (ref_rel p) (decompile_smiles_st eng i) (decompile_smiles_st eng i)"
  unfolding decompile_smiles_st_def
  apply (rule same_run_catchS [OF _ same_run_failure [OF assms]])
   apply (rule same_run_bindS [OF same_run_engine(1) [OF assms]])
   apply (rule same_run_bindS [where A = "(=)"])
    apply (rule same_run_engine(3) [OF assms])
    apply assumption
   apply (rule same_run_new_ref)
   apply simp
  apply assumption
  done

lemma same_run_validate_roundtrip:
  assumes "engine_deterministic eng p"
  shows "same_run p (ref_rel p) (validate_roundtrip_st eng i) (validate_roundtrip_st eng i)"
  unfolding validate_roundtrip_st_def
  apply (rule same_run_catchS [OF _ same_run_failure [OF assms]])
   apply (rule same_run_bindS [where A = "(=)"])
    apply (rule same_run_engine(4) [OF assms])
   apply (rule same_run_if)
     apply simp
    apply (rule same_run_new_ref)
    apply simp
   apply (rule same_run_bindS [OF same_run_engine(1) [OF assms]])
   apply (rule same_run_bindS [where A = "(=)"])
    apply (rule same_run_engine(2) [OF assms])
    apply assumption
   apply (rule same_run_new_ref)
   apply simp
  apply assumption
  done

lemma same_run_extract_fragments:
  assumes det: "engine_deterministic eng p" and fresh: "fresh p r r'"
    and table: "list_all (\<lambda>(name, fragment). ref_rel p fragment fragment) entries"
  shows "same_run p (=) (extract_fragments_st eng r entries) (extract_fragments_st eng r' entries)"
  using table
proof (induction entries)
  case Nil
  show ?case by (simp add: same_run_returnS)
next
  case (Cons entry entries)
  obtain name fragment where entry: "entry = (name, fragment)" by (cases entry)
  with Cons.prems have rel: "ref_rel p fragment fragment"
    and rest: "list_all (\<lambda>(name, fragment). ref_rel p fragment fragment) entries"
    by simp_all
  show ?case
    unfolding entry extract_fragments_st.simps prod.case
    apply (rule same_run_bindS [where A = "(=)"])
     apply (rule same_run_catchS)
      apply (rule same_run_bindS [where A = "(=)"])
       apply (rule same_run_readS)
       apply (simp add: ref_is_object_rel [OF _ rel])
      apply (rule same_run_if)
        apply simp
       apply (rule same_run_bind_member [OF det rel])
       apply (rule same_run_if)
         apply (simp add: ref_rel_undefined)
        apply (rule same_run_bind_member [OF det rel])
        apply (rule same_run_bind_member [OF det rel])
        apply (rule same_run_bind_new)
         apply simp
        apply (rule same_run_write [OF fresh])
        apply assumption
       apply (rule same_run_returnS)
       apply simp
      apply (rule same_run_returnS)
      apply simp
     apply (rule same_run_returnS)
     apply simp
    apply (rule Cons.IH [OF rest])
    done
qed

lemma same_run_get_common_fragments:
  assumes det: "engine_deterministic eng p"
  shows "same_run p (ref_rel p) (get_common_fragments_st eng) (get_common_fragments_st eng)"
proof -
  from det have table: "list_all (\<lambda>(name, fragment). ref_rel p fragment fragment) (e_common eng)"
    by (simp add: engine_deterministic_def)
  have strs: "list_all2 (ref_rel p) (map RStr names) (map RStr names)" for names
    by (induction names) auto
  show ?thesis
    unfolding get_common_fragments_st_def
    apply (rule same_run_bindS [OF same_run_new])
     apply simp
    apply (rule same_run_bindS [where A = "(=)"])
     apply (rule same_run_extract_fragments [OF det _ table])
     apply assumption
    apply (intro same_run_bind_new same_run_new_ref)
          apply (simp_all only: cell_rel.simps strs)
    apply (auto dest: fresh_ref_rel)
    done
qed

lemma readout_rel:
  "corresponding p h1 h2 \<Longrightarrow> ref_rel p v w \<Longrightarrow> readout d h1 v = readout d h2 w"
proof (induction d arbitrary: v w)
  case 0
  then show ?case by (cases v; cases w) auto
next
  case (Suc d)
  show ?case
  proof (cases v)
    case (RRef a)
    with Suc.prems(2) obtain b where w: "w = RRef b" by (cases w) auto
    from cell_of_rel [OF Suc.prems] show ?thesis
    proof (cases rule: option.rel_cases)
      case None
      then show ?thesis by (simp add: RRef w)
    next
      case (Some x y)
      have maps: "map (readout d h1) xs = map (readout d h2) ys"
        if "list_all2 (ref_rel p) xs ys" for xs ys
        using that by (induction xs ys rule: list_all2_induct) (auto intro: Suc.IH [OF Suc.prems(1)])
      have props: "map (\<lambda>(k, x). (k, readout d h1 x)) ps = map (\<lambda>(k, x). (k, readout d h2 x)) qs"
        if "list_all2 (\<lambda>(k, v) (k', w). k = k' \<and> ref_rel p v w) ps qs" for ps qs
        using that by (induction ps qs rule: list_all2_induct) (auto intro: Suc.IH [OF Suc.prems(1)])
      have opt: "map_option (readout d h1) x = map_option (readout d h2) y"
        if "rel_option (ref_rel p) x y" for x y
        using that by (cases rule: option.rel_cases) (auto intro: Suc.IH [OF Suc.prems(1)])
      from Some show ?thesis
        by (cases x; cases y) (auto simp: RRef w maps props opt)
    qed
  qed (use Suc.prems(2) in \<open>cases w; auto\<close>)+
qed


lemma observe_rel:
  assumes "same_run p (ref_rel p) m1 m2" and "corresponding p h1 h2"
  shows "observe d (m1 h1) = observe d (m2 h2)"
proof -
  from assms(1) [unfolded same_run_def, rule_format, OF assms(2)]
  have k: "corresponding p (snd (m1 h1)) (snd (m2 h2))"
    and r: "rel_sum (ref_rel p) (ref_rel p) (fst (m1 h1)) (fst (m2 h2))"
    by simp_all
  obtain r1 k1 where m1: "m1 h1 = (r1, k1)" by (cases "m1 h1")
  obtain r2 k2 where m2: "m2 h2 = (r2, k2)" by (cases "m2 h2")
  from k r m1 m2 show ?thesis
    by (cases r1; cases r2) (simp_all add: observe_def readout_rel)
qed

lemma corresponding_at_start:
  assumes "corresponding_at_start p h1 h2"
  shows "corresponding p h1 h2"
proof -
  from assms have l1: "old1 p = length h1" and l2: "old2 p = length h2"
    and cells: "\<And>a b. a < length h1 \<Longrightarrow> b < length h2 \<Longrightarrow> base p a b \<Longrightarrow> cell_rel p (h1 ! a) (h2 ! b)"
    by (auto simp: corresponding_at_start_def list_all_iff)
  show ?thesis
    unfolding corresponding_def using l1 l2 cells by (auto simp: pairs_def)
qed

lemma allocating_engine_deterministic:
  assumes "pairs p 4 4"
  shows "engine_deterministic allocating_engine p"
  unfolding engine_deterministic_def allocating_engine_def
  using assms by (simp add: same_run_returnS same_run_new_ref)

lemma example_corresponding: "corresponding_at_start example_pairing example_store example_copy"
  by code_simp

lemma example_table: "pairs example_pairing 4 4"
  by code_simp

section \<open>Properties of the tools\<close>

text \<open>
  C2, as stated: each of the five tools returns a structured result object, \<open>{success: false,
  error}\<close> on any internal failure, and never propagates a thrown exception to its caller.
  Neither half holds for every failure. When \<open>parse\<close> rejects its input with \<^verbatim>\<open>throw null\<close>, the
  \<^verbatim>\<open>catch\<close> block of \<open>parse_smiles\<close> reads \<^verbatim>\<open>error.message\<close> of \<^verbatim>\<open>null\<close>, and the \<^verbatim>\<open>TypeError\<close> of that
  read reaches the caller. And \<open>get_common_fragments\<close> has no failure result: here reading the
  \<^verbatim>\<open>smiles\<close> of the fragment \<open>broken\<close> throws inside the tool, the fragment is left out, and the
  tool returns \<open>{success: true, ...}\<close> with the other fragments.
\<close>

theorem tools_structured_results_counterexample:
  "parse (fixture null_parse) ''CC'' = Inl JNull
   \<and> parse_smiles (fixture null_parse) \<lparr>smiles = ''CC''\<rparr> =
       Inl (Error ''Cannot read properties of null (reading message)'')
   \<and> \<not> returns_structured (parse_smiles (fixture null_parse) \<lparr>smiles = ''CC''\<rparr>)
   \<and> (''broken'', JObject [] [(''smiles'', Inl (Error ''cannot serialize''))])
        \<in> set (common (fixture fixture_parse))
   \<and> get_prop (JObject [] [(''smiles'', Inl (Error ''cannot serialize''))]) ''smiles'' =
       Inl (Error ''cannot serialize'')
   \<and> bindE (get_common_fragments (fixture fixture_parse)) (\<lambda>r. get_prop r ''success'') =
       Inr (JBool True)
   \<and> map fst (fragments_of (get_common_fragments (fixture fixture_parse))) = [''benzene'', ''methyl'']
   \<and> get_common_fragments (fixture fixture_parse) \<noteq>
       Inr (JObject [(''success'', JBool False), (''error'', JStr ''cannot serialize'')] [])"
  by (simp add: parse_smiles_def parse_smiles_try_def try_catch_def failure_def
      returns_structured_def null_parse_def get_common_fragments_def fragments_of_def
      fixture_def fixture_node_def keep_fragment_def assign_def Error_def)

text \<open>
  C2, amended. For every input record and every library: each of \<open>parse_smiles\<close>,
  \<open>build_smiles\<close>, \<open>decompile_smiles\<close> and \<open>validate_roundtrip\<close> returns the success object of its
  \<^verbatim>\<open>try\<close> block when the block completes; when the block throws a value whose \<^verbatim>\<open>message\<close> can
  be read, the tool returns exactly \<open>{success: false, error: message}\<close> (for an \<^verbatim>\<open>Error\<close>, its
  message string) and no exception reaches the caller; when reading the \<^verbatim>\<open>message\<close> of what
  was thrown itself throws (\<^verbatim>\<open>null\<close>, \<^verbatim>\<open>undefined\<close>, a throwing getter), that exception reaches the
  caller. \<open>get_common_fragments\<close> never throws and has no failure result: it always returns
  its \<open>{success: true, ...}\<close> object, and a fragment whose \<^verbatim>\<open>smiles\<close> or \<^verbatim>\<open>type\<close> cannot be read
  is left out of it.
\<close>

theorem tools_return_structured_results:
  "(parse_smiles_try lib i = Inr r1 \<longrightarrow> parse_smiles lib i = Inr r1 \<and> structured r1)
   \<and> (parse_smiles_try lib i = Inl e1 \<and> get_prop e1 ''message'' = Inr m1 \<longrightarrow>
        parse_smiles lib i = Inr (JObject [(''success'', JBool False), (''error'', m1)] []))
   \<and> (parse_smiles_try lib i = Inl e1 \<and> get_prop e1 ''message'' = Inl t1 \<longrightarrow>
        parse_smiles lib i = Inl t1)
   \<and> (build_smiles_try lib j = Inr r2 \<longrightarrow> build_smiles lib j = Inr r2 \<and> structured r2)
   \<and> (build_smiles_try lib j = Inl e2 \<and> get_prop e2 ''message'' = Inr m2 \<longrightarrow>
        build_smiles lib j = Inr (JObject [(''success'', JBool False), (''error'', m2)] []))
   \<and> (build_smiles_try lib j = Inl e2 \<and> get_prop e2 ''message'' = Inl t2 \<longrightarrow>
        build_smiles lib j = Inl t2)
   \<and> (decompile_smiles_try lib i = Inr r3 \<longrightarrow> decompile_smiles lib i = Inr r3 \<and> structured r3)
   \<and> (decompile_smiles_try lib i = Inl e3 \<and> get_prop e3 ''message'' = Inr m3 \<longrightarrow>
        decompile_smiles lib i = Inr (JObject [(''success'', JBool False), (''error'', m3)] []))
   \<and> (decompile_smiles_try lib i = Inl e3 \<and> get_prop e3 ''message'' = Inl t3 \<longrightarrow>
        decompile_smiles lib i = Inl t3)
   \<and> (validate_roundtrip_try lib i = Inr r4 \<longrightarrow>
        validate_roundtrip lib i = Inr r4 \<and> structured r4)
   \<and> (validate_roundtrip_try lib i = Inl e4 \<and> get_prop e4 ''message'' = Inr m4 \<longrightarrow>
        validate_roundtrip lib i = Inr (JObject [(''success'', JBool False), (''error'', m4)] []))
   \<and> (validate_roundtrip_try lib i = Inl e4 \<and> get_prop e4 ''message'' = Inl t4 \<longrightarrow>
        validate_roundtrip lib i = Inl t4)
   \<and> returns_structured (get_common_fragments lib)
   \<and> bindE (get_common_fragments lib) (\<lambda>r. get_prop r ''success'') = Inr (JBool True)
   \<and> (get_prop fragment ''smiles'' = Inl e5 \<or> get_prop fragment ''type'' = Inl e5 \<longrightarrow>
        keep_fragment fragments name fragment = fragments)"
proof -
  have ok: "bindE (get_common_fragments lib) (\<lambda>r. get_prop r ''success'') = Inr (JBool True)"
    by (simp add: get_common_fragments_def)
  show ?thesis
    unfolding parse_smiles_def build_smiles_def decompile_smiles_def validate_roundtrip_def
    using ok get_common_fragments_structured [of lib]
      keep_fragment_skipped [of fragment e5 fragments name]
      parse_smiles_try_structured [of lib i r1] build_smiles_try_structured [of lib j r2]
      decompile_smiles_try_structured [of lib i r3] validate_roundtrip_try_structured [of lib i r4]
    by (simp add: caught_result caught_message caught_thrown)
qed

theorem tools_return_structured_results_witness:
  "parse_smiles (fixture fixture_parse) \<lparr>smiles = ''CC''\<rparr> =
       Inr (JObject [(''success'', JBool True), (''smiles'', JStr ''CC''), (''ast'', ethane)] [])
   \<and> build_smiles (fixture fixture_parse) \<lparr>ast = ethane\<rparr> =
       Inr (JObject [(''success'', JBool True), (''smiles'', JStr ''linear'')] [])
   \<and> decompile_smiles (fixture fixture_parse) \<lparr>smiles = ''CC''\<rparr> =
       Inr (JObject
         [(''success'', JBool True), (''smiles'', JStr ''CC''), (''code'', JStr ''parse(CC)'')] [])
   \<and> validate_roundtrip (fixture fixture_parse) \<lparr>smiles = ''CC''\<rparr> =
       Inr (JObject
         [(''success'', JBool True),
          (''smiles'', JStr ''CC''),
          (''valid'', JBool True),
          (''message'', JStr ''SMILES round-trip validation passed'')] [])
   \<and> parse_smiles_try (fixture fixture_parse) \<lparr>smiles = ''C1CC''\<rparr> =
       Inl (Error ''Unclosed ring in C1CC'')
   \<and> get_prop (Error ''Unclosed ring in C1CC'') ''message'' = Inr (JStr ''Unclosed ring in C1CC'')
   \<and> parse_smiles (fixture fixture_parse) \<lparr>smiles = ''C1CC''\<rparr> =
       Inr (JObject [(''success'', JBool False), (''error'', JStr ''Unclosed ring in C1CC'')] [])
   \<and> build_smiles_try (fixture fixture_parse) \<lparr>ast = JNum 7\<rparr> = Inl (Error ''not a node'')
   \<and> build_smiles (fixture fixture_parse) \<lparr>ast = JNum 7\<rparr> =
       Inr (JObject [(''success'', JBool False), (''error'', JStr ''not a node'')] [])
   \<and> decompile_smiles (fixture fixture_parse) \<lparr>smiles = ''C1CC''\<rparr> =
       Inr (JObject [(''success'', JBool False), (''error'', JStr ''Unclosed ring in C1CC'')] [])
   \<and> validate_roundtrip (fixture fixture_parse) \<lparr>smiles = ''C1CC''\<rparr> =
       Inr (JObject [(''success'', JBool False), (''error'', JStr ''Unclosed ring in C1CC'')] [])
   \<and> parse_smiles_try null_library \<lparr>smiles = ''CC''\<rparr> = Inl JNull
   \<and> get_prop JNull ''message'' = Inl (Error ''Cannot read properties of null (reading message)'')
   \<and> parse_smiles null_library \<lparr>smiles = ''CC''\<rparr> =
       Inl (Error ''Cannot read properties of null (reading message)'')
   \<and> build_smiles null_library \<lparr>ast = JNum 7\<rparr> =
       Inl (Error ''Cannot read properties of null (reading message)'')
   \<and> decompile_smiles null_library \<lparr>smiles = ''CC''\<rparr> =
       Inl (Error ''Cannot read properties of null (reading message)'')
   \<and> validate_roundtrip null_library \<lparr>smiles = ''CC''\<rparr> =
       Inl (Error ''Cannot read properties of null (reading message)'')
   \<and> returns_structured (get_common_fragments (fixture fixture_parse))
   \<and> get_prop (JObject [] [(''smiles'', Inl (Error ''cannot serialize''))]) ''smiles'' =
       Inl (Error ''cannot serialize'')
   \<and> keep_fragment (JObject [] []) ''broken''
        (JObject [] [(''smiles'', Inl (Error ''cannot serialize''))]) = JObject [] []"
proof -
  let ?lib = "fixture fixture_parse"
  have s1: "parse_smiles_try ?lib \<lparr>smiles = ''CC''\<rparr> =
       Inr (JObject [(''success'', JBool True), (''smiles'', JStr ''CC''), (''ast'', ethane)] [])"
    by (simp add: parse_smiles_try_def fixture_def fixture_parse_def fixture_node_def)
  have s2: "build_smiles_try ?lib \<lparr>ast = ethane\<rparr> =
       Inr (JObject [(''success'', JBool True), (''smiles'', JStr ''linear'')] [])"
    by (simp add: build_smiles_try_def fixture_defs orElse_def)
  have s3: "decompile_smiles_try ?lib \<lparr>smiles = ''CC''\<rparr> =
       Inr (JObject
         [(''success'', JBool True), (''smiles'', JStr ''CC''), (''code'', JStr ''parse(CC)'')] [])"
    by (simp add: decompile_smiles_try_def fixture_defs)
  have s4: "validate_roundtrip_try ?lib \<lparr>smiles = ''CC''\<rparr> =
       Inr (JObject
         [(''success'', JBool True),
          (''smiles'', JStr ''CC''),
          (''valid'', JBool True),
          (''message'', JStr ''SMILES round-trip validation passed'')] [])"
    by (simp add: validate_roundtrip_try_def fixture_defs)
  have f1: "parse_smiles_try ?lib \<lparr>smiles = ''C1CC''\<rparr> = Inl (Error ''Unclosed ring in C1CC'')"
    by (simp add: parse_smiles_try_def fixture_defs)
  have f2: "build_smiles_try ?lib \<lparr>ast = JNum 7\<rparr> = Inl (Error ''not a node'')"
    by (simp add: build_smiles_try_def fixture_defs)
  have f3: "decompile_smiles_try ?lib \<lparr>smiles = ''C1CC''\<rparr> = Inl (Error ''Unclosed ring in C1CC'')"
    by (simp add: decompile_smiles_try_def fixture_defs)
  have f4: "validate_roundtrip_try ?lib \<lparr>smiles = ''C1CC''\<rparr> = Inl (Error ''Unclosed ring in C1CC'')"
    by (simp add: validate_roundtrip_try_def fixture_defs)
  have n1: "parse_smiles_try null_library \<lparr>smiles = ''CC''\<rparr> = Inl JNull"
    by (simp add: parse_smiles_try_def null_library_def fixture_def null_parse_def)
  have n2: "build_smiles_try null_library \<lparr>ast = JNum 7\<rparr> = Inl JNull"
    by (simp add: build_smiles_try_def null_library_def fixture_def)
  have n3: "decompile_smiles_try null_library \<lparr>smiles = ''CC''\<rparr> = Inl JNull"
    by (simp add: decompile_smiles_try_def null_library_def fixture_def null_parse_def)
  have n4: "validate_roundtrip_try null_library \<lparr>smiles = ''CC''\<rparr> = Inl JNull"
    by (simp add: validate_roundtrip_try_def null_library_def fixture_def)
  have g: "get_prop (JObject [] [(''smiles'', Inl (Error ''cannot serialize''))]) ''smiles'' =
       Inl (Error ''cannot serialize'')"
    by simp
  have m: "get_prop JNull ''message'' = Inl (Error ''Cannot read properties of null (reading message)'')"
    by simp
  from s1 s2 s3 s4
    tools_return_structured_results [where lib = "?lib"
      and i = "\<lparr>smiles = ''CC''\<rparr>" and j = "\<lparr>ast = ethane\<rparr>"
      and ?r1.0 = "JObject [(''success'', JBool True), (''smiles'', JStr ''CC''), (''ast'', ethane)] []"
      and ?r2.0 = "JObject [(''success'', JBool True), (''smiles'', JStr ''linear'')] []"
      and ?r3.0 = "JObject
         [(''success'', JBool True), (''smiles'', JStr ''CC''), (''code'', JStr ''parse(CC)'')] []"
      and ?r4.0 = "JObject
         [(''success'', JBool True),
          (''smiles'', JStr ''CC''),
          (''valid'', JBool True),
          (''message'', JStr ''SMILES round-trip validation passed'')] []"]
  have success: "parse_smiles ?lib \<lparr>smiles = ''CC''\<rparr> =
       Inr (JObject [(''success'', JBool True), (''smiles'', JStr ''CC''), (''ast'', ethane)] [])"
    "build_smiles ?lib \<lparr>ast = ethane\<rparr> =
       Inr (JObject [(''success'', JBool True), (''smiles'', JStr ''linear'')] [])"
    "decompile_smiles ?lib \<lparr>smiles = ''CC''\<rparr> =
       Inr (JObject
         [(''success'', JBool True), (''smiles'', JStr ''CC''), (''code'', JStr ''parse(CC)'')] [])"
    "validate_roundtrip ?lib \<lparr>smiles = ''CC''\<rparr> =
       Inr (JObject
         [(''success'', JBool True),
          (''smiles'', JStr ''CC''),
          (''valid'', JBool True),
          (''message'', JStr ''SMILES round-trip validation passed'')] [])"
    by simp_all
  from f1 f2 f3 f4 g
    tools_return_structured_results [where lib = "?lib"
      and i = "\<lparr>smiles = ''C1CC''\<rparr>" and j = "\<lparr>ast = JNum 7\<rparr>"
      and ?e1.0 = "Error ''Unclosed ring in C1CC''" and ?m1.0 = "JStr ''Unclosed ring in C1CC''"
      and ?e2.0 = "Error ''not a node''" and ?m2.0 = "JStr ''not a node''"
      and ?e3.0 = "Error ''Unclosed ring in C1CC''" and ?m3.0 = "JStr ''Unclosed ring in C1CC''"
      and ?e4.0 = "Error ''Unclosed ring in C1CC''" and ?m4.0 = "JStr ''Unclosed ring in C1CC''"
      and ?e5.0 = "Error ''cannot serialize''"
      and fragment = "JObject [] [(''smiles'', Inl (Error ''cannot serialize''))]"
      and fragments = "JObject [] []" and name = "''broken''"]
  have failed: "parse_smiles ?lib \<lparr>smiles = ''C1CC''\<rparr> =
       Inr (JObject [(''success'', JBool False), (''error'', JStr ''Unclosed ring in C1CC'')] [])"
    "build_smiles ?lib \<lparr>ast = JNum 7\<rparr> =
       Inr (JObject [(''success'', JBool False), (''error'', JStr ''not a node'')] [])"
    "decompile_smiles ?lib \<lparr>smiles = ''C1CC''\<rparr> =
       Inr (JObject [(''success'', JBool False), (''error'', JStr ''Unclosed ring in C1CC'')] [])"
    "validate_roundtrip ?lib \<lparr>smiles = ''C1CC''\<rparr> =
       Inr (JObject [(''success'', JBool False), (''error'', JStr ''Unclosed ring in C1CC'')] [])"
    "returns_structured (get_common_fragments ?lib)"
    "keep_fragment (JObject [] []) ''broken''
        (JObject [] [(''smiles'', Inl (Error ''cannot serialize''))]) = JObject [] []"
    by simp_all
  from n1 n2 n3 n4 m
    tools_return_structured_results [where lib = null_library
      and i = "\<lparr>smiles = ''CC''\<rparr>" and j = "\<lparr>ast = JNum 7\<rparr>"
      and ?e1.0 = JNull and ?e2.0 = JNull and ?e3.0 = JNull and ?e4.0 = JNull
      and ?t1.0 = "Error ''Cannot read properties of null (reading message)''"
      and ?t2.0 = "Error ''Cannot read properties of null (reading message)''"
      and ?t3.0 = "Error ''Cannot read properties of null (reading message)''"
      and ?t4.0 = "Error ''Cannot read properties of null (reading message)''"]
  have thrown: "parse_smiles null_library \<lparr>smiles = ''CC''\<rparr> =
       Inl (Error ''Cannot read properties of null (reading message)'')"
    "build_smiles null_library \<lparr>ast = JNum 7\<rparr> =
       Inl (Error ''Cannot read properties of null (reading message)'')"
    "decompile_smiles null_library \<lparr>smiles = ''CC''\<rparr> =
       Inl (Error ''Cannot read properties of null (reading message)'')"
    "validate_roundtrip null_library \<lparr>smiles = ''CC''\<rparr> =
       Inl (Error ''Cannot read properties of null (reading message)'')"
    by simp_all
  from success failed thrown f1 f2 n1 g m show ?thesis by simp
qed

text \<open>
  C3 (against the parser modelled from the specification). \<open>parse_smiles({smiles: "c1ccccc1"})\<close>
  succeeds with the AST record \<open>{type: 'ring', atoms: 'c', size: 6, ringNumber: 1, offset: 0,
  substitutions: {}, attachments: {}, bonds: [null, null, null, null, null, null]}\<close>, and
  \<open>parse_smiles({smiles: "CCO"})\<close> succeeds with \<open>{type: 'linear', atoms: ['C', 'C', 'O'], bonds:
  [null, null], attachments: {}}\<close>, for every depth limit and whatever the rest of the library.
\<close>

theorem parse_smiles_scenarios:
  "parse_smiles (lib\<lparr>parse := js_parse limit\<rparr>) \<lparr>smiles = ''c1ccccc1''\<rparr> =
     Inr (JObject
       [(''success'', JBool True),
        (''smiles'', JStr ''c1ccccc1''),
        (''ast'', JObject
          [(''type'', JStr ''ring''),
           (''atoms'', JStr ''c''),
           (''size'', JNum 6),
           (''ringNumber'', JNum 1),
           (''offset'', JNum 0),
           (''substitutions'', JObject [] []),
           (''attachments'', JObject [] []),
           (''bonds'', JArray [JNull, JNull, JNull, JNull, JNull, JNull])] [])] [])
   \<and> parse_smiles (lib\<lparr>parse := js_parse limit\<rparr>) \<lparr>smiles = ''CCO''\<rparr> =
     Inr (JObject
       [(''success'', JBool True),
        (''smiles'', JStr ''CCO''),
        (''ast'', JObject
          [(''type'', JStr ''linear''),
           (''atoms'', JArray [JStr ''C'', JStr ''C'', JStr ''O'']),
           (''bonds'', JArray [JNull, JNull]),
           (''attachments'', JObject [] [])] [])] [])"
  by (simp add: parse_smiles_def parse_smiles_try_def try_catch_def js_parse_def
      parse_spec_benzene parse_spec_ethanol startsWith_underscore_def assign_def)

text \<open>
  C4. For every library and input string: when the round trip fails (\<open>isValidRoundTrip\<close> is
  false) while parsing and serializing succeed, \<open>validate_roundtrip\<close> returns \<open>{success: true,
  valid: false}\<close> with the regenerated string and a message that quotes both the original and
  the regenerated text; when the round trip succeeds it returns \<open>{success: true, valid: true}\<close>
  and the result has no \<open>regenerated\<close> field.
\<close>

theorem validate_roundtrip_outcomes:
  "(isValidRoundTrip lib s = Inr False \<and> parse lib s = Inr node
      \<and> buildSMILES lib node = Inr regenerated \<longrightarrow>
      validate_roundtrip lib \<lparr>smiles = s\<rparr> =
        Inr (JObject
          [(''success'', JBool True),
           (''smiles'', JStr s),
           (''valid'', JBool False),
           (''regenerated'', JStr regenerated),
           (''message'', JStr (''Round-trip mismatch: expected '' @ [CHR 0x22] @ s @ [CHR 0x22] @
                                '', got '' @ [CHR 0x22] @ regenerated @ [CHR 0x22]))] []))
   \<and> (isValidRoundTrip lib s = Inr True \<longrightarrow>
      validate_roundtrip lib \<lparr>smiles = s\<rparr> =
        Inr (JObject
          [(''success'', JBool True),
           (''smiles'', JStr s),
           (''valid'', JBool True),
           (''message'', JStr ''SMILES round-trip validation passed'')] [])
      \<and> bindE (validate_roundtrip lib \<lparr>smiles = s\<rparr>) (\<lambda>r. get_prop r ''regenerated'') = Inr JUndefined)"
  by (simp add: validate_roundtrip_def validate_roundtrip_try_def try_catch_def mismatch_message_def)

theorem validate_roundtrip_outcomes_witness:
  "isValidRoundTrip (fixture fixture_parse) ''C-C'' = Inr False
   \<and> parse (fixture fixture_parse) ''C-C'' = Inr (fixture_node ''CC'' ethane)
   \<and> buildSMILES (fixture fixture_parse) (fixture_node ''CC'' ethane) = Inr ''CC''
   \<and> validate_roundtrip (fixture fixture_parse) \<lparr>smiles = ''C-C''\<rparr> =
        Inr (JObject
          [(''success'', JBool True),
           (''smiles'', JStr ''C-C''),
           (''valid'', JBool False),
           (''regenerated'', JStr ''CC''),
           (''message'', JStr (''Round-trip mismatch: expected '' @ [CHR 0x22] @ ''C-C'' @ [CHR 0x22] @
                                '', got '' @ [CHR 0x22] @ ''CC'' @ [CHR 0x22]))] [])
   \<and> isValidRoundTrip (fixture fixture_parse) ''CC'' = Inr True
   \<and> validate_roundtrip (fixture fixture_parse) \<lparr>smiles = ''CC''\<rparr> =
        Inr (JObject
          [(''success'', JBool True),
           (''smiles'', JStr ''CC''),
           (''valid'', JBool True),
           (''message'', JStr ''SMILES round-trip validation passed'')] [])"
proof -
  have a: "isValidRoundTrip (fixture fixture_parse) ''C-C'' = Inr False"
    by (simp add: fixture_defs)
  have b: "parse (fixture fixture_parse) ''C-C'' = Inr (fixture_node ''CC'' ethane)"
    by (simp add: fixture_def fixture_parse_def)
  have c: "buildSMILES (fixture fixture_parse) (fixture_node ''CC'' ethane) = Inr ''CC''"
    by (simp add: fixture_defs)
  have d: "isValidRoundTrip (fixture fixture_parse) ''CC'' = Inr True"
    by (simp add: fixture_defs)
  from a b c d
    validate_roundtrip_outcomes [of "fixture fixture_parse" "''C-C''" "fixture_node ''CC'' ethane" "''CC''"]
    validate_roundtrip_outcomes [of "fixture fixture_parse" "''CC''" "fixture_node ''CC'' ethane" "''CC''"]
  show ?thesis by simp
qed



text \<open>
  C6, as stated: \<open>get_common_fragments\<close> always returns the fragment names grouped into exactly
  the six categories \<open>alkyl\<close>, \<open>functional\<close>, \<open>aromatic\<close>, \<open>ring\<close>, \<open>halide\<close>, \<open>other\<close>, with a
  \<open>benzene\<close> fragment whose SMILES is \<open>"c1ccccc1"\<close>. The result has no category \<open>ring\<close> and no
  category \<open>halide\<close>: the code names them \<open>rings\<close> and \<open>halides\<close>. And the fragments come from the
  library's table: here the table's \<open>benzene\<close> has that SMILES and a \<^verbatim>\<open>type\<close> that cannot be
  read, and the result, which lists \<open>benzene\<close> under \<open>rings\<close>, has no \<open>benzene\<close> fragment.
\<close>

theorem get_common_fragments_categories_counterexample:
  "map fst (categories_of (get_common_fragments (fixture fixture_parse))) \<noteq>
     [''alkyl'', ''functional'', ''aromatic'', ''ring'', ''halide'', ''other'']
   \<and> map_of (categories_of (get_common_fragments (fixture fixture_parse))) ''ring'' = None
   \<and> map_of (categories_of (get_common_fragments (fixture fixture_parse))) ''halide'' = None
   \<and> common untyped_library = [(''benzene'', untyped_benzene)]
   \<and> get_prop untyped_benzene ''smiles'' = Inr (JStr ''c1ccccc1'')
   \<and> JStr ''benzene'' \<in> set (category_names (get_common_fragments untyped_library) ''rings'')
   \<and> map_of (fragments_of (get_common_fragments untyped_library)) ''benzene'' = None"
  by (simp add: categories_of_def category_names_def fragments_of_def get_common_fragments_def
      untyped_library_def untyped_benzene_def keep_fragment_def)

text \<open>
  C6, amended. For every library, \<open>get_common_fragments\<close> returns \<open>{success: true}\<close> with a
  \<open>fragments\<close> object and a \<open>categories\<close> object whose keys are exactly \<open>alkyl\<close>, \<open>functional\<close>,
  \<open>aromatic\<close>, \<open>rings\<close>, \<open>halides\<close>, \<open>other\<close>; \<open>alkyl\<close> contains \<open>methyl\<close> and \<open>rings\<close> contains
  \<open>benzene\<close>. The \<open>fragments\<close> object is built from the library's fragment table: when the
  table, listing each name once, holds \<open>benzene\<close> as an object whose \<^verbatim>\<open>smiles\<close> reads
  \<open>"c1ccccc1"\<close> and whose \<^verbatim>\<open>type\<close> can be read, the \<open>benzene\<close> fragment of the result is
  \<open>{smiles: "c1ccccc1", type}\<close>; when reading its \<^verbatim>\<open>smiles\<close> or its \<^verbatim>\<open>type\<close> throws, the result has
  no \<open>benzene\<close> fragment.
\<close>

theorem get_common_fragments_categories:
  "(\<exists>acc. get_common_fragments lib =
     Inr (JObject
       [(''success'', JBool True),
        (''fragments'', JObject (fragments_of (get_common_fragments lib)) acc),
        (''categories'', JObject (categories_of (get_common_fragments lib)) [])] []))
   \<and> map fst (categories_of (get_common_fragments lib)) =
       [''alkyl'', ''functional'', ''aromatic'', ''rings'', ''halides'', ''other'']
   \<and> JStr ''methyl'' \<in> set (category_names (get_common_fragments lib) ''alkyl'')
   \<and> JStr ''benzene'' \<in> set (category_names (get_common_fragments lib) ''rings'')
   \<and> (distinct (map fst (common lib)) \<and> (''benzene'', fragment) \<in> set (common lib)
        \<and> truthy fragment \<and> typeof_object fragment
        \<and> get_prop fragment ''smiles'' = Inr (JStr ''c1ccccc1'')
        \<and> get_prop fragment ''type'' = Inr type \<longrightarrow>
      map_of (fragments_of (get_common_fragments lib)) ''benzene'' =
        Some (JObject [(''smiles'', JStr ''c1ccccc1''), (''type'', type)] []))
   \<and> (distinct (map fst (common lib)) \<and> (''benzene'', fragment) \<in> set (common lib)
        \<and> (get_prop fragment ''smiles'' = Inl e \<or> get_prop fragment ''type'' = Inl e) \<longrightarrow>
      map_of (fragments_of (get_common_fragments lib)) ''benzene'' = None)"
proof -
  note frag = fragments_of_result [of lib]
  from extract_fragments_object [of "[]" "[]" "common lib"] obtain ps acc
    where obj: "extract_fragments (JObject [] []) (common lib) = JObject ps acc" by blast
  have shape: "\<exists>acc. get_common_fragments lib =
     Inr (JObject
       [(''success'', JBool True),
        (''fragments'', JObject (fragments_of (get_common_fragments lib)) acc),
        (''categories'', JObject (categories_of (get_common_fragments lib)) [])] [])"
    unfolding frag obj by (simp add: categories_of_def get_common_fragments_def obj own_properties_def)
  have keys: "map fst (categories_of (get_common_fragments lib)) =
       [''alkyl'', ''functional'', ''aromatic'', ''rings'', ''halides'', ''other'']"
    by (simp add: categories_of_def get_common_fragments_def)
  have methyl: "JStr ''methyl'' \<in> set (category_names (get_common_fragments lib) ''alkyl'')"
    by (simp add: category_names_def categories_of_def get_common_fragments_def)
  have benzene: "JStr ''benzene'' \<in> set (category_names (get_common_fragments lib) ''rings'')"
    by (simp add: category_names_def categories_of_def get_common_fragments_def)
  have entry: "map_of (fragments_of (get_common_fragments lib)) ''benzene'' =
        Some (JObject [(''smiles'', JStr ''c1ccccc1''), (''type'', type)] [])"
    if "distinct (map fst (common lib))" and "(''benzene'', fragment) \<in> set (common lib)"
      and "truthy fragment" and "typeof_object fragment"
      and "get_prop fragment ''smiles'' = Inr (JStr ''c1ccccc1'')"
      and "get_prop fragment ''type'' = Inr type"
    unfolding frag using that by (intro extract_fragments_entry) simp_all
  have skipped: "map_of (fragments_of (get_common_fragments lib)) ''benzene'' = None"
    if "distinct (map fst (common lib))" and "(''benzene'', fragment) \<in> set (common lib)"
      and "get_prop fragment ''smiles'' = Inl e \<or> get_prop fragment ''type'' = Inl e"
    unfolding frag using extract_fragments_skipped [OF that, of "[]" "[]"] by simp
  from shape keys methyl benzene entry skipped show ?thesis by blast
qed

theorem get_common_fragments_categories_witness:
  "distinct (map fst (common (fixture fixture_parse)))
   \<and> (''benzene'', fixture_node ''c1ccccc1'' (JObject [(''type'', JStr ''ring'')] []))
        \<in> set (common (fixture fixture_parse))
   \<and> get_prop (fixture_node ''c1ccccc1'' (JObject [(''type'', JStr ''ring'')] [])) ''smiles'' =
        Inr (JStr ''c1ccccc1'')
   \<and> get_prop (fixture_node ''c1ccccc1'' (JObject [(''type'', JStr ''ring'')] [])) ''type'' =
        Inr (JStr ''ring'')
   \<and> map_of (fragments_of (get_common_fragments (fixture fixture_parse))) ''benzene'' =
        Some (JObject [(''smiles'', JStr ''c1ccccc1''), (''type'', JStr ''ring'')] [])
   \<and> distinct (map fst (common untyped_library))
   \<and> (''benzene'', untyped_benzene) \<in> set (common untyped_library)
   \<and> get_prop untyped_benzene ''type'' = Inl (Error ''no type'')
   \<and> map_of (fragments_of (get_common_fragments untyped_library)) ''benzene'' = None"
proof -
  have a: "distinct (map fst (common (fixture fixture_parse)))"
    by (simp add: fixture_def)
  have b: "(''benzene'', fixture_node ''c1ccccc1'' (JObject [(''type'', JStr ''ring'')] []))
        \<in> set (common (fixture fixture_parse))"
    by (simp add: fixture_def)
  have c: "truthy (fixture_node ''c1ccccc1'' (JObject [(''type'', JStr ''ring'')] []))"
    "typeof_object (fixture_node ''c1ccccc1'' (JObject [(''type'', JStr ''ring'')] []))"
    by (simp_all add: fixture_node_def)
  have d: "get_prop (fixture_node ''c1ccccc1'' (JObject [(''type'', JStr ''ring'')] [])) ''smiles'' =
        Inr (JStr ''c1ccccc1'')"
    by (simp add: fixture_node_def)
  have e: "get_prop (fixture_node ''c1ccccc1'' (JObject [(''type'', JStr ''ring'')] [])) ''type'' =
        Inr (JStr ''ring'')"
    by (simp add: fixture_node_def)
  have f: "distinct (map fst (common untyped_library))"
    "(''benzene'', untyped_benzene) \<in> set (common untyped_library)"
    by (simp_all add: untyped_library_def)
  have g: "get_prop untyped_benzene ''type'' = Inl (Error ''no type'')"
    by (simp add: untyped_benzene_def)
  from a b c d e
    get_common_fragments_categories [of "fixture fixture_parse"
      "fixture_node ''c1ccccc1'' (JObject [(''type'', JStr ''ring'')] [])" "JStr ''ring''"]
  have present: "map_of (fragments_of (get_common_fragments (fixture fixture_parse))) ''benzene'' =
        Some (JObject [(''smiles'', JStr ''c1ccccc1''), (''type'', JStr ''ring'')] [])"
    by simp
  from f g
    get_common_fragments_categories [of untyped_library untyped_benzene _ "Error ''no type''"]
  have absent: "map_of (fragments_of (get_common_fragments untyped_library)) ''benzene'' = None"
    by simp
  from a b d e f g present absent show ?thesis by simp
qed

text \<open>
  C7 (against the parser modelled from the specification). Parsing \<open>"C1CC"\<close>, whose
  ring-closure digit 1 is never matched, fails: \<open>parse_smiles({smiles: 'C1CC'})\<close> returns
  exactly \<open>{success: false, error}\<close> with a message that contains \<open>"Unclosed"\<close>, and the result
  has no \<open>ast\<close> field.
\<close>

theorem parse_smiles_unclosed_ring:
  "parse_smiles (lib\<lparr>parse := js_parse limit\<rparr>) \<lparr>smiles = ''C1CC''\<rparr> =
     Inr (JObject [(''success'', JBool False), (''error'', JStr ''UnclosedRing: 1'')] [])
   \<and> contains ''UnclosedRing: 1'' ''Unclosed''
   \<and> bindE (parse_smiles (lib\<lparr>parse := js_parse limit\<rparr>) \<lparr>smiles = ''C1CC''\<rparr>)
        (\<lambda>r. get_prop r ''ast'') = Inr JUndefined"
  by (simp add: parse_smiles_def parse_smiles_try_def try_catch_def js_parse_def
      parse_spec_unclosed failure_def)




text \<open>
  C9. When \<open>build_smiles\<close> reconstructs a ring record, a falsy \<open>ringNumber\<close> (0, absent, ...) is
  replaced by 1 and a falsy \<open>offset\<close> by 0: the options object handed to the \<open>Ring\<close>
  constructor has \<open>ringNumber: 1\<close>, and what the constructor returns for it is the node handed
  to the serializer.
\<close>

theorem objectToAst_ring_defaults:
  assumes "truthy obj" and "typeof_object obj"
    and "get_prop obj ''type'' = Inr (JStr ''ring'')"
    and "get_prop obj ''atoms'' = Inr atoms"
    and "get_prop obj ''size'' = Inr sz"
    and "get_prop obj ''ringNumber'' = Inr ringNumber"
    and "\<not> truthy ringNumber"
    and "get_prop obj ''offset'' = Inr offset"
    and "get_prop obj ''substitutions'' = Inr substitutions"
    and "get_prop obj ''attachments'' = Inr attachments"
    and "reconstructAttachments lib attachments = Inr attachments'"
    and "get_prop obj ''bonds'' = Inr bonds"
  shows "objectToAst lib obj =
           Ring lib (JObject
             [(''atoms'', atoms),
              (''size'', sz),
              (''ringNumber'', JNum 1),
              (''offset'', if truthy offset then offset else JNum 0),
              (''substitutions'', if truthy substitutions then substitutions else JObject [] []),
              (''attachments'', attachments'),
              (''bonds'', if truthy bonds then bonds else JArray [])] [])
     \<and> build_smiles_try lib \<lparr>ast = obj\<rparr> =
           bindE (Ring lib (JObject
             [(''atoms'', atoms),
              (''size'', sz),
              (''ringNumber'', JNum 1),
              (''offset'', if truthy offset then offset else JNum 0),
              (''substitutions'', if truthy substitutions then substitutions else JObject [] []),
              (''attachments'', attachments'),
              (''bonds'', if truthy bonds then bonds else JArray [])] []))
             (\<lambda>node. bindE (buildSMILES lib node) (\<lambda>text.
                Inr (JObject [(''success'', JBool True), (''smiles'', JStr text)] [])))"
proof -
  have "objectToAst lib obj =
           Ring lib (JObject
             [(''atoms'', atoms),
              (''size'', sz),
              (''ringNumber'', JNum 1),
              (''offset'', if truthy offset then offset else JNum 0),
              (''substitutions'', if truthy substitutions then substitutions else JObject [] []),
              (''attachments'', attachments'),
              (''bonds'', if truthy bonds then bonds else JArray [])] [])"
    using assms by (subst objectToAst.simps) (simp add: orElse_def)
  then show ?thesis by (simp add: build_smiles_try_def)
qed

theorem objectToAst_ring_defaults_witness:
  "truthy benzene_unnumbered \<and> typeof_object benzene_unnumbered
   \<and> get_prop benzene_unnumbered ''type'' = Inr (JStr ''ring'')
   \<and> get_prop benzene_unnumbered ''ringNumber'' = Inr (JNum 0) \<and> \<not> truthy (JNum 0)
   \<and> get_prop benzene_unnumbered ''offset'' = Inr JUndefined
   \<and> reconstructAttachments (fixture fixture_parse) (JObject [] []) = Inr (JObject [] [])
   \<and> objectToAst (fixture fixture_parse) benzene_unnumbered =
       Ring (fixture fixture_parse) (JObject
         [(''atoms'', JStr ''c''),
          (''size'', JNum 6),
          (''ringNumber'', JNum 1),
          (''offset'', JNum 0),
          (''substitutions'', JObject [] []),
          (''attachments'', JObject [] []),
          (''bonds'', JArray [])] [])
   \<and> build_smiles (fixture fixture_parse) \<lparr>ast = benzene_unnumbered\<rparr> =
       Inr (JObject [(''success'', JBool True), (''smiles'', JStr ''ring'')] [])"
proof -
  have a: "truthy benzene_unnumbered" "typeof_object benzene_unnumbered"
    by (simp_all add: benzene_unnumbered_def)
  have b: "get_prop benzene_unnumbered ''type'' = Inr (JStr ''ring'')"
    "get_prop benzene_unnumbered ''atoms'' = Inr (JStr ''c'')"
    "get_prop benzene_unnumbered ''size'' = Inr (JNum 6)"
    "get_prop benzene_unnumbered ''ringNumber'' = Inr (JNum 0)"
    "get_prop benzene_unnumbered ''offset'' = Inr JUndefined"
    "get_prop benzene_unnumbered ''substitutions'' = Inr (JObject [] [])"
    "get_prop benzene_unnumbered ''attachments'' = Inr (JObject [] [])"
    "get_prop benzene_unnumbered ''bonds'' = Inr (JArray [])"
    by (simp_all add: benzene_unnumbered_def)
  have c: "\<not> truthy (JNum 0)" by simp
  have d: "reconstructAttachments (fixture fixture_parse) (JObject [] []) = Inr (JObject [] [])"
    by simp
  from objectToAst_ring_defaults [OF a b(1) b(2) b(3) b(4) c b(5) b(6) b(7) d b(8)]
  have e: "objectToAst (fixture fixture_parse) benzene_unnumbered =
       Ring (fixture fixture_parse) (JObject
         [(''atoms'', JStr ''c''),
          (''size'', JNum 6),
          (''ringNumber'', JNum 1),
          (''offset'', JNum 0),
          (''substitutions'', JObject [] []),
          (''attachments'', JObject [] []),
          (''bonds'', JArray [])] [])"
    and f: "build_smiles_try (fixture fixture_parse) \<lparr>ast = benzene_unnumbered\<rparr> =
       bindE (Ring (fixture fixture_parse) (JObject
         [(''atoms'', JStr ''c''),
          (''size'', JNum 6),
          (''ringNumber'', JNum 1),
          (''offset'', JNum 0),
          (''substitutions'', JObject [] []),
          (''attachments'', JObject [] []),
          (''bonds'', JArray [])] []))
         (\<lambda>node. bindE (buildSMILES (fixture fixture_parse) node) (\<lambda>text.
            Inr (JObject [(''success'', JBool True), (''smiles'', JStr text)] [])))"
    by simp_all
  have g: "build_smiles (fixture fixture_parse) \<lparr>ast = benzene_unnumbered\<rparr> =
       Inr (JObject [(''success'', JBool True), (''smiles'', JStr ''ring'')] [])"
    unfolding build_smiles_def f by (simp add: fixture_defs try_catch_def)
  from a b c d e g show ?thesis by simp
qed

text \<open>
  C10, as stated: every AST record returned by \<open>parse_smiles\<close> is free, at every depth, of
  function values and of keys that begin with an underscore. A node with a \<^verbatim>\<open>toObject\<close> method
  is replaced by what the method returns, which \<open>astToObject\<close> does not inspect: here the
  method reports a \<^verbatim>\<open>_cache\<close> member and the returned AST has it.
\<close>

theorem parse_smiles_sanitized_counterexample:
  "parse_smiles (fixture cached_parse) \<lparr>smiles = ''CC''\<rparr> =
     Inr (JObject
       [(''success'', JBool True),
        (''smiles'', JStr ''CC''),
        (''ast'', JObject [(''type'', JStr ''linear''), (''_cache'', JStr ''CC'')] [])] [])
   \<and> \<not> sanitized (JObject [(''type'', JStr ''linear''), (''_cache'', JStr ''CC'')] [])"
  by (simp add: parse_smiles_def parse_smiles_try_def try_catch_def fixture_def cached_parse_def
      fixture_node_def startsWith_underscore_def)

text \<open>
  C10, amended. When the node returned by \<open>parse\<close> has no \<^verbatim>\<open>toObject\<close> member at any visited
  depth and holds no function as an array element, the AST record returned by \<open>parse_smiles\<close>
  has, at every depth, no function value and no key that begins with an underscore; every
  array is converted element by element; and a node with a \<^verbatim>\<open>toObject\<close> method is replaced by
  the value the method returns, as it is.
\<close>

theorem parse_smiles_sanitized:
  "(parse lib s = Inr node \<and> plain_tree node \<longrightarrow>
      (\<exists>a. parse_smiles lib \<lparr>smiles = s\<rparr> =
              Inr (JObject [(''success'', JBool True), (''smiles'', JStr s), (''ast'', a)] [])
            \<and> sanitized a))
   \<and> (astToObject (JArray xs) = Inr r \<longrightarrow>
      (\<exists>ys. r = JArray ys \<and> length ys = length xs
            \<and> (\<forall>i<length xs. astToObject (xs ! i) = Inr (ys ! i))))
   \<and> (parse lib s = Inr (JObject ps acc)
        \<and> get_prop (JObject ps acc) ''toObject'' = Inr (JFunction (Inr record)) \<longrightarrow>
      parse_smiles lib \<lparr>smiles = s\<rparr> =
        Inr (JObject [(''success'', JBool True), (''smiles'', JStr s), (''ast'', record)] []))"
proof (intro conjI impI)
  assume "parse lib s = Inr node \<and> plain_tree node"
  then have p: "parse lib s = Inr node" and "plain_tree node" by simp_all
  from astToObject_sanitizes(1) [OF \<open>plain_tree node\<close>]
  obtain a where "astToObject node = Inr a" and "sanitized a" by blast
  with p show "\<exists>a. parse_smiles lib \<lparr>smiles = s\<rparr> =
              Inr (JObject [(''success'', JBool True), (''smiles'', JStr s), (''ast'', a)] [])
            \<and> sanitized a"
    by (simp add: parse_smiles_def parse_smiles_try_def try_catch_def)
next
  assume "astToObject (JArray xs) = Inr r"
  then obtain ys where "astToObject_map xs = Inr ys" and "r = JArray ys"
    by (auto split: sum.splits)
  with astToObject_map_elementwise [of xs ys]
  show "\<exists>ys. r = JArray ys \<and> length ys = length xs
            \<and> (\<forall>i<length xs. astToObject (xs ! i) = Inr (ys ! i))"
    by blast
next
  assume "parse lib s = Inr (JObject ps acc)
        \<and> get_prop (JObject ps acc) ''toObject'' = Inr (JFunction (Inr record))"
  then show "parse_smiles lib \<lparr>smiles = s\<rparr> =
        Inr (JObject [(''success'', JBool True), (''smiles'', JStr s), (''ast'', record)] [])"
    by (simp add: parse_smiles_def parse_smiles_try_def try_catch_def del: get_prop.simps)
qed

theorem parse_smiles_sanitized_witness:
  "plain_tree (JObject
       [(''type'', JStr ''linear''),
        (''_cache'', JStr ''CC''),
        (''atoms'', JArray [JStr ''C'', JObject [(''_id'', JNum 1), (''symbol'', JStr ''C'')] []]),
        (''attach'', JFunction (Inr JUndefined))] [])
   \<and> parse_smiles (fixture bare_parse) \<lparr>smiles = ''CC''\<rparr> =
       Inr (JObject
         [(''success'', JBool True),
          (''smiles'', JStr ''CC''),
          (''ast'', JObject
            [(''type'', JStr ''linear''),
             (''atoms'', JArray [JStr ''C'', JObject [(''symbol'', JStr ''C'')] []])] [])] [])
   \<and> sanitized (JObject
            [(''type'', JStr ''linear''),
             (''atoms'', JArray [JStr ''C'', JObject [(''symbol'', JStr ''C'')] []])] [])
   \<and> astToObject (JArray [JStr ''C'', JObject [(''_id'', JNum 1), (''symbol'', JStr ''C'')] []]) =
       Inr (JArray [JStr ''C'', JObject [(''symbol'', JStr ''C'')] []])
   \<and> get_prop (fixture_node ''CC'' ethane) ''toObject'' = Inr (JFunction (Inr ethane))
   \<and> parse_smiles (fixture fixture_parse) \<lparr>smiles = ''CC''\<rparr> =
       Inr (JObject [(''success'', JBool True), (''smiles'', JStr ''CC''), (''ast'', ethane)] [])"
proof -
  have a: "parse (fixture bare_parse) ''CC'' = Inr (JObject
       [(''type'', JStr ''linear''),
        (''_cache'', JStr ''CC''),
        (''atoms'', JArray [JStr ''C'', JObject [(''_id'', JNum 1), (''symbol'', JStr ''C'')] []]),
        (''attach'', JFunction (Inr JUndefined))] [])"
    by (simp add: fixture_def bare_parse_def)
  have b: "plain_tree (JObject
       [(''type'', JStr ''linear''),
        (''_cache'', JStr ''CC''),
        (''atoms'', JArray [JStr ''C'', JObject [(''_id'', JNum 1), (''symbol'', JStr ''C'')] []]),
        (''attach'', JFunction (Inr JUndefined))] [])"
    by (simp add: startsWith_underscore_def)
  have c: "astToObject (JArray [JStr ''C'', JObject [(''_id'', JNum 1), (''symbol'', JStr ''C'')] []]) =
       Inr (JArray [JStr ''C'', JObject [(''symbol'', JStr ''C'')] []])"
    by (simp add: startsWith_underscore_def assign_def)
  have d: "parse (fixture fixture_parse) ''CC'' = Inr (JObject []
       [(''smiles'', Inr (JStr ''CC'')),
        (''type'', get_prop ethane ''type''),
        (''toObject'', Inr (JFunction (Inr ethane)))])"
    by (simp add: fixture_def fixture_parse_def fixture_node_def)
  have e: "get_prop (JObject []
       [(''smiles'', Inr (JStr ''CC'')),
        (''type'', get_prop ethane ''type''),
        (''toObject'', Inr (JFunction (Inr ethane)))]) ''toObject'' = Inr (JFunction (Inr ethane))"
    by simp
  have f: "parse_smiles (fixture bare_parse) \<lparr>smiles = ''CC''\<rparr> =
       Inr (JObject
         [(''success'', JBool True),
          (''smiles'', JStr ''CC''),
          (''ast'', JObject
            [(''type'', JStr ''linear''),
             (''atoms'', JArray [JStr ''C'', JObject [(''symbol'', JStr ''C'')] []])] [])] [])"
    by (simp add: parse_smiles_def parse_smiles_try_def try_catch_def a
        startsWith_underscore_def assign_def)
  from a b c d e f
    parse_smiles_sanitized [of "fixture bare_parse" "''CC''" _ _ _ "[]" _ ethane]
    parse_smiles_sanitized [of "fixture fixture_parse" "''CC''" _ _ _ "[]"
      "[(''smiles'', Inr (JStr ''CC'')), (''type'', get_prop ethane ''type''),
        (''toObject'', Inr (JFunction (Inr ethane)))]" ethane]
  show ?thesis by (simp add: fixture_node_def startsWith_underscore_def)
qed

end
